(* ===== verification/Prelude.thy ===== *)
theory Prelude
  imports Main "HOL-Library.Word" "HOL-Library.Finite_Map" "HOL-Library.Sublist"
    "HOL-Library.Char_ord" "HOL-Library.List_Lexorder"
begin

text \<open>
  What every component shares: Go's \<open>int\<close> (64 bit, with the wrap-around written out),
  checked slice indexing (Go panics out of range), the collections of hints the component
  proofs use, and a few facts on finite maps and lists that the library does not have.

  A Go string is a sequence of bytes, and so is a HOL \<open>string\<close>: a \<open>char\<close> is one byte, and
  \<open>length\<close> is Go's \<open>len\<close>.
\<close>

section \<open>Collections of hints\<close>

named_theorems wrap_simps \<open>arithmetic that does not overflow 64 bits\<close>
named_theorems model_defs \<open>definitions to unfold when a step is followed through\<close>
named_theorems frame_simps \<open>what an operation leaves unchanged\<close>

section \<open>Machine integers\<close>

type_synonym go_int = int

text \<open>
  The value a 64-bit two's complement register holds after an operation whose exact result
  is \<open>i\<close>. Additions and multiplications of the source that can leave the range go through it.
\<close>

definition wrap64 :: "int \<Rightarrow> go_int" where
  "wrap64 i = (i + 2 ^ 63) mod 2 ^ 64 - 2 ^ 63"

definition in_int64 :: "int \<Rightarrow> bool" where
  "in_int64 i \<longleftrightarrow> - (2 ^ 63) \<le> i \<and> i < 2 ^ 63"

lemma wrap64_id [wrap_simps]: "in_int64 i \<Longrightarrow> wrap64 i = i"
  by (simp add: wrap64_def in_int64_def)

lemma in_int64_wrap64 [simp]: "in_int64 (wrap64 i)"
proof -
  have "0 \<le> (i + 2 ^ 63) mod 2 ^ 64" and "(i + 2 ^ 63) mod 2 ^ 64 < (2 ^ 64 :: int)"
    by simp_all
  then show ?thesis by (simp add: wrap64_def in_int64_def)
qed

lemma wrap64_nonneg [wrap_simps]: "0 \<le> i \<Longrightarrow> i < 2 ^ 63 \<Longrightarrow> wrap64 i = i"
  by (simp add: wrap64_id in_int64_def)

text \<open>The definition is the one of the word library.\<close>

lemma wrap64_sint: "wrap64 i = sint (word_of_int i :: 64 word)"
  by (simp add: wrap64_def sint_uint uint_word_of_int signed_take_bit_eq_take_bit_shift take_bit_eq_mod
      mod_simps add.commute)

text \<open>Division truncates towards zero.\<close>

definition go_div :: "go_int \<Rightarrow> go_int \<Rightarrow> go_int" where
  "go_div a b = (if a < 0 then - ((- a) div b) else a div b)"

section \<open>Panics\<close>

text \<open>
  A Go function that may panic returns \<open>string + 'a\<close>: \<open>Inl\<close> carries the panic's message.
\<close>

type_synonym 'a or_panic = "string + 'a"

definition index_panic :: string where
  "index_panic = ''index out of range''"

definition go_index :: "'a list \<Rightarrow> int \<Rightarrow> 'a or_panic" where
  "go_index xs i = (if 0 \<le> i \<and> i < int (length xs) then Inr (xs ! nat i) else Inl index_panic)"

lemma go_index_in_range [simp]:
  "0 \<le> i \<Longrightarrow> i < int (length xs) \<Longrightarrow> go_index xs i = Inr (xs ! nat i)"
  by (simp add: go_index_def)

lemma go_index_InrD: "go_index xs i = Inr x \<Longrightarrow> x \<in> set xs"
  by (auto simp: go_index_def split: if_splits)

section \<open>Bytes\<close>

definition byte_in :: "char \<Rightarrow> char \<Rightarrow> char \<Rightarrow> bool" where
  [simp]: "byte_in lo hi c \<longleftrightarrow> lo \<le> c \<and> c \<le> hi"

section \<open>Byte arrays\<close>

text \<open>Go's \<open>[32]byte\<close>\<close>

typedef bytes32 = "{s :: string. length s = 32}"
  morphisms bytes32_slice Bytes32
proof
  show "replicate 32 (CHR 0x00) \<in> {s :: string. length s = 32}" by simp
qed

lemma length_bytes32 [simp]: "length (bytes32_slice b) = 32"
  using bytes32_slice [of b] by simp

section \<open>Finite maps\<close>

text \<open>A Go map is a finite map. Deleting while ranging over it is a filter.\<close>

definition fm_sweep :: "('v \<Rightarrow> bool) \<Rightarrow> ('k, 'v) fmap \<Rightarrow> ('k, 'v) fmap" where
  "fm_sweep dead m =
     fmfilter (\<lambda>k. case fmlookup m k of None \<Rightarrow> True | Some v \<Rightarrow> \<not> dead v) m"

lemma fmlookup_sweep [simp]:
  "fmlookup (fm_sweep dead m) k =
     (case fmlookup m k of None \<Rightarrow> None | Some v \<Rightarrow> if dead v then None else Some v)"
  by (simp add: fm_sweep_def split: option.splits)

lemma fm_sweep_SomeD: "fmlookup (fm_sweep dead m) k = Some v \<Longrightarrow> fmlookup m k = Some v \<and> \<not> dead v"
  by (auto split: option.splits if_splits)

end
