(* ===== verification/Go_Strings.thy ===== *)
theory Go_Strings
  imports Prelude
begin

text \<open>
  The functions of Go's \<open>strings\<close>, \<open>strconv\<close> and \<open>encoding\<close> packages that gopaste calls, on
  byte strings, with the facts about them the components rest on: splitting and joining are
  inverse, trimming leaves no white space at either end, replacing leaves no occurrence
  behind, decimal printing and parsing are inverse.
\<close>

section \<open>Searching and cutting\<close>

text \<open>\<open>strings.IndexByte\<close>, with \<open>None\<close> for -1.\<close>

fun index_byte :: "string \<Rightarrow> char \<Rightarrow> nat option" where
  "index_byte [] c = None"
| "index_byte (x # xs) c = (if x = c then Some 0 else map_option Suc (index_byte xs c))"

definition last_index_byte :: "string \<Rightarrow> char \<Rightarrow> nat option" where
  "last_index_byte s c = map_option (\<lambda>i. length s - 1 - i) (index_byte (rev s) c)"

lemma index_byte_None [simp]: "index_byte s c = None \<longleftrightarrow> c \<notin> set s"
  by (induction s) auto

lemma index_byte_app: "c \<notin> set p \<Longrightarrow> index_byte (p @ c # r) c = Some (length p)"
  by (induction p) auto

lemma index_byte_SomeD:
  "index_byte s c = Some i \<Longrightarrow> i < length s \<and> s ! i = c \<and> c \<notin> set (take i s)"
proof (induction s arbitrary: i)
  case Nil
  then show ?case by simp
next
  case (Cons x xs)
  then show ?case by (cases "x = c") auto
qed

lemma last_index_byte_None [simp]: "last_index_byte s c = None \<longleftrightarrow> c \<notin> set s"
  by (simp add: last_index_byte_def)

lemma last_index_byte_app:
  "c \<notin> set r \<Longrightarrow> last_index_byte (p @ c # r) c = Some (length p)"
  by (simp add: last_index_byte_def index_byte_app)

text \<open>\<open>strings.Cut(s, sep)\<close> for a one-byte separator: before, after, found.\<close>

definition cut_byte :: "string \<Rightarrow> char \<Rightarrow> string \<times> string \<times> bool" where
  "cut_byte s c = (case index_byte s c of
      None \<Rightarrow> (s, [], False)
    | Some i \<Rightarrow> (take i s, drop (Suc i) s, True))"

lemma cut_byte_app: "c \<notin> set p \<Longrightarrow> cut_byte (p @ c # r) c = (p, r, True)"
  by (simp add: cut_byte_def index_byte_app)

lemma cut_byte_TrueD:
  "cut_byte s c = (p, r, True) \<Longrightarrow> s = p @ c # r \<and> c \<notin> set p"
  by (auto simp: cut_byte_def id_take_nth_drop split: option.splits dest: index_byte_SomeD)

text \<open>\<open>strings.HasPrefix\<close>, \<open>strings.TrimPrefix\<close>, \<open>strings.TrimSuffix\<close>.\<close>

definition has_prefix :: "string \<Rightarrow> string \<Rightarrow> bool" where
  "has_prefix s p \<longleftrightarrow> take (length p) s = p"

definition trim_prefix :: "string \<Rightarrow> string \<Rightarrow> string" where
  "trim_prefix s p = (if has_prefix s p then drop (length p) s else s)"

definition has_suffix :: "string \<Rightarrow> string \<Rightarrow> bool" where
  "has_suffix s p \<longleftrightarrow> length p \<le> length s \<and> drop (length s - length p) s = p"

definition trim_suffix :: "string \<Rightarrow> string \<Rightarrow> string" where
  "trim_suffix s p = (if has_suffix s p then take (length s - length p) s else s)"

lemma has_prefix_app [simp]: "has_prefix (p @ r) p"
  by (simp add: has_prefix_def)

lemma has_prefixE: "has_prefix s p \<Longrightarrow> (\<And>r. s = p @ r \<Longrightarrow> thesis) \<Longrightarrow> thesis"
  by (metis append_take_drop_id has_prefix_def)

lemma trim_suffix_app [simp]: "trim_suffix (r @ p) p = r"
  by (simp add: trim_suffix_def has_suffix_def)

section \<open>Splitting and joining\<close>

text \<open>\<open>strings.Split(s, sep)\<close> for a one-byte separator, and \<open>strings.Join\<close>.\<close>

fun split_byte :: "string \<Rightarrow> char \<Rightarrow> string list" where
  "split_byte [] c = [[]]"
| "split_byte (x # xs) c =
     (if x = c then [] # split_byte xs c
      else (case split_byte xs c of [] \<Rightarrow> [[x]] | p # ps \<Rightarrow> (x # p) # ps))"

fun join :: "string \<Rightarrow> string list \<Rightarrow> string" where
  "join sep [] = []"
| "join sep [p] = p"
| "join sep (p # ps) = p @ sep @ join sep ps"

lemma split_byte_not_Nil [simp]: "split_byte s c \<noteq> []"
  by (cases s) (auto split: list.splits)

lemma split_byte_free: "c \<notin> set s \<Longrightarrow> split_byte s c = [s]"
  by (induction s) auto

lemma split_byte_app: "c \<notin> set p \<Longrightarrow> split_byte (p @ c # r) c = p # split_byte r c"
  by (induction p) auto

lemma split_byte_parts_free: "p \<in> set (split_byte s c) \<Longrightarrow> c \<notin> set p"
proof (induction s arbitrary: p)
  case Nil
  then show ?case by simp
next
  case (Cons x xs)
  then show ?case by (cases "x = c"; cases "split_byte xs c") auto
qed

lemma join_Cons: "ps \<noteq> [] \<Longrightarrow> join sep (p # ps) = p @ sep @ join sep ps"
  by (cases ps) auto

lemma join_split: "join [c] (split_byte s c) = s"
proof (induction s)
  case Nil
  show ?case by simp
next
  case (Cons x xs)
  then show ?case
    by (cases "split_byte xs c"; cases "x = c"; cases "tl (split_byte xs c)")
      (auto simp: join_Cons)
qed

lemma split_join:
  "ps \<noteq> [] \<Longrightarrow> \<forall>p \<in> set ps. c \<notin> set p \<Longrightarrow> split_byte (join [c] ps) c = ps"
proof (induction ps)
  case Nil
  then show ?case by simp
next
  case (Cons p ps)
  then show ?case by (cases "ps = []") (auto simp: split_byte_free split_byte_app join_Cons)
qed

text \<open>Whatever precedes a separator only adds parts on the left.\<close>

lemma split_byte_append:
  "split_byte (a @ c # b) c = split_byte a c @ split_byte b c"
proof (induction a)
  case Nil
  show ?case by simp
next
  case (Cons x xs)
  then show ?case by (cases "split_byte xs c"; cases "x = c") auto
qed

section \<open>White space\<close>

text \<open>
  \<open>strings.TrimSpace\<close> removes, at both ends, the code points for which \<open>unicode.IsSpace\<close>
  holds. These are their UTF-8 encodings; a string is bytes, so trimming removes one of these
  byte sequences at a time. From the right the same is done on the reversed string.
\<close>

definition space_runes :: "string list" where
  "space_runes =
    [[CHR 0x09], [CHR 0x0A], [CHR 0x0B], [CHR 0x0C], [CHR 0x0D], [CHR 0x20],
     [CHR 0xC2, CHR 0x85], [CHR 0xC2, CHR 0xA0], [CHR 0xE1, CHR 0x9A, CHR 0x80],
     [CHR 0xE2, CHR 0x80, CHR 0x80], [CHR 0xE2, CHR 0x80, CHR 0x81],
     [CHR 0xE2, CHR 0x80, CHR 0x82], [CHR 0xE2, CHR 0x80, CHR 0x83],
     [CHR 0xE2, CHR 0x80, CHR 0x84], [CHR 0xE2, CHR 0x80, CHR 0x85],
     [CHR 0xE2, CHR 0x80, CHR 0x86], [CHR 0xE2, CHR 0x80, CHR 0x87],
     [CHR 0xE2, CHR 0x80, CHR 0x88], [CHR 0xE2, CHR 0x80, CHR 0x89],
     [CHR 0xE2, CHR 0x80, CHR 0x8A], [CHR 0xE2, CHR 0x80, CHR 0xA8],
     [CHR 0xE2, CHR 0x80, CHR 0xA9], [CHR 0xE2, CHR 0x80, CHR 0xAF],
     [CHR 0xE2, CHR 0x81, CHR 0x9F], [CHR 0xE3, CHR 0x80, CHR 0x80]]"

definition leading_rune :: "string list \<Rightarrow> string \<Rightarrow> string option" where
  "leading_rune rs s = find (\<lambda>r. r \<noteq> [] \<and> has_prefix s r) rs"

lemma leading_rune_shorter:
  "leading_rune rs s = Some r \<Longrightarrow> r \<noteq> [] \<and> length (drop (length r) s) < length s"
proof -
  assume "leading_rune rs s = Some r"
  then have r: "r \<noteq> []" and "has_prefix s r"
    by (auto simp: leading_rune_def find_Some_iff)
  then obtain t where "s = r @ t" by (auto elim: has_prefixE)
  with r show ?thesis by simp
qed

function trim_left :: "string list \<Rightarrow> string \<Rightarrow> string" where
  "trim_left rs s = (case leading_rune rs s of
      None \<Rightarrow> s
    | Some r \<Rightarrow> trim_left rs (drop (length r) s))"
  by pat_completeness auto
termination
  by (relation "measure (\<lambda>(rs, s). length s)") (auto dest: leading_rune_shorter)

declare trim_left.simps [simp del]

definition trim_right :: "string list \<Rightarrow> string \<Rightarrow> string" where
  "trim_right rs s = rev (trim_left (map rev rs) (rev s))"

definition trim_space :: "string \<Rightarrow> string" where
  "trim_space s = trim_right space_runes (trim_left space_runes s)"

lemma trim_left_no_rune [simp]: "leading_rune rs (trim_left rs s) = None"
proof (induction rs s rule: trim_left.induct)
  case (1 rs s)
  then show ?case
    by (cases "leading_rune rs s") (simp_all add: trim_left.simps [of rs s])
qed

lemma trim_left_suffix: "\<exists>p. s = p @ trim_left rs s"
proof (induction rs s rule: trim_left.induct)
  case (1 rs s)
  show ?case
  proof (cases "leading_rune rs s")
    case None
    then show ?thesis by (simp add: trim_left.simps [of rs s])
  next
    case (Some r)
    from "1.IH" [OF Some] obtain p where "drop (length r) s = p @ trim_left rs (drop (length r) s)"
      by blast
    then have "s = (take (length r) s @ p) @ trim_left rs (drop (length r) s)"
      by (metis append_assoc append_take_drop_id)
    moreover have "trim_left rs s = trim_left rs (drop (length r) s)"
      using Some by (simp add: trim_left.simps [of rs s])
    ultimately show ?thesis by metis
  qed
qed

lemma trim_right_prefix: "\<exists>q. s = trim_right rs s @ q"
proof -
  obtain p where "rev s = p @ trim_left (map rev rs) (rev s)"
    using trim_left_suffix by blast
  then have "s = rev (p @ trim_left (map rev rs) (rev s))"
    by (metis rev_rev_ident)
  then show ?thesis by (auto simp: trim_right_def)
qed

text \<open>Trimming keeps a contiguous part, so it adds no byte.\<close>

lemma trim_space_infix: "\<exists>p q. s = p @ trim_space s @ q"
  using trim_left_suffix [of s space_runes]
    trim_right_prefix [of "trim_left space_runes s" space_runes]
  by (auto simp: trim_space_def) (metis append_assoc)

lemma set_trim_space: "set (trim_space s) \<subseteq> set s"
proof -
  obtain p q where "s = p @ trim_space s @ q" using trim_space_infix by blast
  then have "set s = set (p @ trim_space s @ q)" by simp
  then show ?thesis by auto
qed

lemma trim_space_Nil [simp]: "trim_space [] = []"
  using set_trim_space [of "[]"] by simp

text \<open>A string with no white-space rune at either end is not touched.\<close>

lemma trim_left_id: "leading_rune rs s = None \<Longrightarrow> trim_left rs s = s"
  by (simp add: trim_left.simps [of rs s])

lemma trim_space_id:
  "leading_rune space_runes s = None \<Longrightarrow> leading_rune (map rev space_runes) (rev s) = None \<Longrightarrow>
   trim_space s = s"
  by (simp add: trim_space_def trim_right_def trim_left_id)

section \<open>Replacing\<close>

text \<open>\<open>strings.ReplaceAll(s, old, new)\<close> for a non-empty \<open>old\<close>: leftmost matches first.\<close>

function replace_all :: "string \<Rightarrow> string \<Rightarrow> string \<Rightarrow> string" where
  "replace_all s old new =
     (if old \<noteq> [] \<and> has_prefix s old then new @ replace_all (drop (length old) s) old new
      else (case s of [] \<Rightarrow> [] | x # xs \<Rightarrow> x # replace_all xs old new))"
  by pat_completeness auto
termination
  by (relation "measure (\<lambda>(s, old, new). length s)") (auto elim: has_prefixE)

declare replace_all.simps [simp del]

lemma replace_all_Nil [simp]: "replace_all [] old new = []"
  by (subst replace_all.simps) (auto simp: has_prefix_def)

lemma replace_all_match:
  "old \<noteq> [] \<Longrightarrow> replace_all (old @ s) old new = new @ replace_all s old new"
  by (simp add: replace_all.simps [of "old @ s"])

lemma replace_all_skip:
  "old = [] \<or> \<not> has_prefix (x # xs) old \<Longrightarrow>
   replace_all (x # xs) old new = x # replace_all xs old new"
  by (subst replace_all.simps) auto

lemma replace_all_induct [case_names Nil match skip]:
  assumes "P []"
    and "\<And>t. old \<noteq> [] \<Longrightarrow> P t \<Longrightarrow> P (old @ t)"
    and "\<And>x xs. old = [] \<or> \<not> has_prefix (x # xs) old \<Longrightarrow> P xs \<Longrightarrow> P (x # xs)"
  shows "P s"
proof (induction s rule: measure_induct_rule [of length])
  case (less s)
  show ?case
  proof (cases "old \<noteq> [] \<and> has_prefix s old")
    case True
    then obtain t where "s = old @ t" by (auto elim: has_prefixE)
    with True less assms(2) show ?thesis by simp
  next
    case False
    with less assms(1,3) show ?thesis by (cases s) auto
  qed
qed

lemma replace_all_same: "replace_all s old old = s"
  by (induction s rule: replace_all_induct [where old = old])
    (simp_all add: replace_all_match replace_all_skip)

lemma replace_all_absent: "\<not> sublist old s \<Longrightarrow> replace_all s old new = s"
proof (induction s)
  case Nil
  show ?case by simp
next
  case (Cons x xs)
  then have "\<not> has_prefix (x # xs) old"
    by (metis append_take_drop_id has_prefix_def prefix_imp_sublist prefixI)
  moreover from Cons.prems have "\<not> sublist old xs"
    by (metis sublist_Cons_right)
  ultimately show ?case using Cons.IH by (simp add: replace_all_skip)
qed

text \<open>
  A replacement that shares no byte with what it replaces leaves no occurrence of it: a new
  occurrence could only arise across a seam, and it would contain a byte of the replacement.
\<close>

lemma has_prefix_prefix: "has_prefix s p \<longleftrightarrow> prefix p s"
  by (metis append_eq_conv_conj has_prefix_def prefix_def)

lemma replace_all_prefix:
  assumes "set p \<inter> set new = {}" and "new \<noteq> []" and "prefix p (replace_all s old new)"
  shows "prefix p s"
  using assms(1,3)
proof (induction s arbitrary: p rule: replace_all_induct [where old = old])
  case Nil
  then show ?case by simp
next
  case (match t)
  show ?case
  proof (cases p)
    case Nil
    then show ?thesis by simp
  next
    case (Cons c p')
    with match.prems match.hyps assms(2) have "c = hd new"
      by (cases new) (auto simp: replace_all_match)
    with Cons match.prems(1) assms(2) show ?thesis by simp
  qed
next
  case (skip x xs)
  then show ?case by (cases p) (auto simp: replace_all_skip)
qed

lemma replace_all_removes:
  assumes disj: "set old \<inter> set new = {}" and "new \<noteq> []" and "old \<noteq> []"
  shows "\<not> sublist old (replace_all s old new)"
proof (induction s rule: replace_all_induct [where old = old])
  case Nil
  with assms(3) show ?case by simp
next
  case (match t)
  let ?R = "replace_all t old new"
  show ?case
  proof
    assume "sublist old (replace_all (old @ t) old new)"
    with match have "sublist old (new @ ?R)" by (simp add: replace_all_match)
    then consider "sublist old new" | "sublist old ?R"
      | u v where "old = u @ v" "suffix u new" "prefix v ?R"
      by (auto simp: sublist_append)
    then show False
    proof cases
      case 1
      then have "set old \<subseteq> set new" by (rule set_mono_sublist)
      with disj assms(3) show False by (cases old) auto
    next
      case 2
      with match.IH show False by simp
    next
      case 3
      then have "set u \<subseteq> set new" by (auto dest: set_mono_suffix)
      with 3(1) disj have "u = []" by (cases u) auto
      with 3 match.IH show False by (simp add: prefix_imp_sublist)
    qed
  qed
next
  case (skip x xs)
  show ?case
  proof
    assume "sublist old (replace_all (x # xs) old new)"
    then have "prefix old (replace_all (x # xs) old new) \<or> sublist old (replace_all xs old new)"
      by (simp add: replace_all_skip [OF skip.hyps] sublist_Cons_right)
    with skip.IH have "prefix old (x # xs)"
      using replace_all_prefix [OF disj assms(2)] by blast
    with skip.hyps assms(3) show False by (simp add: has_prefix_prefix)
  qed
qed

section \<open>Decimal integers\<close>

text \<open>\<open>strconv.Itoa\<close> and \<open>strconv.Atoi\<close>; a syntax or range error of the latter is \<open>None\<close>.\<close>

definition digit_char :: "nat \<Rightarrow> char" where
  "digit_char d = char_of (48 + d)"

definition digit_value :: "char \<Rightarrow> nat option" where
  "digit_value c = (let n = of_char c in if 48 \<le> n \<and> n \<le> (57 :: nat) then Some (n - 48) else None)"

fun itoa_nat :: "nat \<Rightarrow> string" where
  "itoa_nat n = (if n < 10 then [digit_char n] else itoa_nat (n div 10) @ [digit_char (n mod 10)])"

declare itoa_nat.simps [simp del]

definition Itoa :: "go_int \<Rightarrow> string" where
  "Itoa i = (if i < 0 then CHR ''-'' # itoa_nat (nat (- i)) else itoa_nat (nat i))"

fun digits_value :: "nat \<Rightarrow> string \<Rightarrow> nat option" where
  "digits_value acc [] = Some acc"
| "digits_value acc (c # cs) = (case digit_value c of
      None \<Rightarrow> None
    | Some d \<Rightarrow> digits_value (10 * acc + d) cs)"

definition Atoi :: "string \<Rightarrow> go_int option" where
  "Atoi s =
     (let neg = (s \<noteq> [] \<and> hd s = CHR ''-'');
          ds = (if s \<noteq> [] \<and> (hd s = CHR ''-'' \<or> hd s = CHR ''+'') then tl s else s)
      in if ds = [] then None
         else (case digits_value 0 ds of
             None \<Rightarrow> None
           | Some n \<Rightarrow> (let i = (if neg then - int n else int n)
                        in if in_int64 i then Some i else None)))"

lemma digit_value_char [simp]: "d < 10 \<Longrightarrow> digit_value (digit_char d) = Some d"
  by (simp add: digit_value_def digit_char_def)

lemma digits_value_append:
  "digits_value acc (xs @ ys) = Option.bind (digits_value acc xs) (\<lambda>a. digits_value a ys)"
  by (induction xs arbitrary: acc) (auto split: option.splits)

lemma digits_value_itoa: "digits_value 0 (itoa_nat n) = Some n"
proof (induction n rule: itoa_nat.induct)
  case (1 n)
  then show ?case
    by (subst itoa_nat.simps) (auto simp: digits_value_append)
qed

lemma itoa_nat_digits: "c \<in> set (itoa_nat n) \<Longrightarrow> \<exists>d < 10. c = digit_char d"
proof (induction n rule: itoa_nat.induct)
  case (1 n)
  then show ?case
    by (subst (asm) (2) itoa_nat.simps) (auto split: if_splits intro: exI [of _ "n mod 10"])
qed

lemma itoa_nat_not_Nil [simp]: "itoa_nat n \<noteq> []"
  by (subst itoa_nat.simps) simp

lemma digit_char_sign: "d < 10 \<Longrightarrow> digit_char d \<noteq> CHR ''-'' \<and> digit_char d \<noteq> CHR ''+''"
  using digit_value_char [of d] by (auto simp: digit_value_def)

lemma hd_itoa_nat: "hd (itoa_nat n) \<noteq> CHR ''-'' \<and> hd (itoa_nat n) \<noteq> CHR ''+''"
  using itoa_nat_digits [of "hd (itoa_nat n)" n] digit_char_sign by (metis hd_in_set itoa_nat_not_Nil)

lemma Atoi_Itoa: "in_int64 i \<Longrightarrow> Atoi (Itoa i) = Some i"
  using hd_itoa_nat [of "nat i"]
  by (auto simp: Atoi_def Itoa_def digits_value_itoa)

lemma Itoa_not_Nil [simp]: "Itoa i \<noteq> []"
  by (simp add: Itoa_def)

lemma Atoi_in_int64: "Atoi s = Some i \<Longrightarrow> in_int64 i"
  by (auto simp: Atoi_def Let_def split: option.splits if_splits)

section \<open>Byte encodings\<close>

text \<open>\<open>hex.EncodeToString\<close>: two lower-case digits a byte.\<close>

definition hex_digits :: string where
  "hex_digits = ''0123456789abcdef''"

fun hex_encode :: "string \<Rightarrow> string" where
  "hex_encode [] = []"
| "hex_encode (b # bs) =
     (let n = of_char b in hex_digits ! (n div 16) # hex_digits ! (n mod 16) # hex_encode bs)"

lemma length_hex_digits [simp]: "length hex_digits = 16"
  by (simp add: hex_digits_def)

lemma length_hex_encode [simp]: "length (hex_encode bs) = 2 * length bs"
  by (induction bs) (simp_all add: Let_def)

lemma of_char_less_256: "(of_char c :: nat) < 256"
  by simp

lemma set_hex_encode: "set (hex_encode bs) \<subseteq> set hex_digits"
proof (induction bs)
  case Nil
  show ?case by simp
next
  case (Cons b bs)
  have "(of_char b :: nat) div 16 < 16" and "(of_char b :: nat) mod 16 < 16"
    using of_char_less_256 [of b] by linarith+
  with Cons show ?case by (simp add: Let_def)
qed

text \<open>\<open>base64.RawURLEncoding.EncodeToString\<close>: the URL alphabet, no padding.\<close>

definition b64_digits :: string where
  "b64_digits = ''ABCDEFGHIJKLMNOPQRSTUVWXYZabcdefghijklmnopqrstuvwxyz0123456789-_''"

definition b64_digit :: "nat \<Rightarrow> char" where
  "b64_digit n = b64_digits ! (n mod 64)"

fun b64url_encode :: "string \<Rightarrow> string" where
  "b64url_encode [] = []"
| "b64url_encode [a] =
     (let x = of_char a in [b64_digit (x div 4), b64_digit (x mod 4 * 16)])"
| "b64url_encode [a, b] =
     (let x = of_char a; y = of_char b
      in [b64_digit (x div 4), b64_digit (x mod 4 * 16 + y div 16), b64_digit (y mod 16 * 4)])"
| "b64url_encode (a # b # c # bs) =
     (let x = of_char a; y = of_char b; z = of_char c
      in b64_digit (x div 4) # b64_digit (x mod 4 * 16 + y div 16) #
         b64_digit (y mod 16 * 4 + z div 64) # b64_digit (z mod 64) # b64url_encode bs)"

lemma length_b64_digits [simp]: "length b64_digits = 64"
  by (simp add: b64_digits_def)

lemma b64_digit_mem [simp]: "b64_digit n \<in> set b64_digits"
  by (simp add: b64_digit_def)

lemma set_b64url_encode: "set (b64url_encode bs) \<subseteq> set b64_digits"
  by (induction bs rule: b64url_encode.induct) (simp_all add: Let_def)

lemma length_b64url_encode: "length (b64url_encode bs) = (4 * length bs + 2) div 3"
  by (induction bs rule: b64url_encode.induct) (simp_all add: Let_def)

lemma b64url_no_dot: "CHR ''.'' \<notin> set (b64url_encode bs)"
  using set_b64url_encode [of bs] by (auto simp: b64_digits_def)

end
