(* ===== verification/Config.thy ===== *)
theory Config
  imports Go_Strings
begin

text \<open>
  \<open>internal/config/config.go\<close>: the configuration structs, their defaults, the environment
  overlay, the validation of the auth and theme sections, and \<open>Load\<close>. The environment is a
  map from names to values (\<open>os.LookupEnv\<close>); the file system and the YAML decoder are
  parameters of \<open>Load\<close>. A Go method with a pointer receiver returns the updated struct, or the
  error it would have returned.

  The lemmas show that a configuration \<open>Load\<close> accepts is well formed, whatever the file and the
  environment hold, that unset variables change nothing, and that days override seconds.
\<close>

section \<open>Structs\<close>

record Storage =
  stg_Type :: string
  stg_Host :: string
  stg_Port :: go_int
  stg_DB :: string
  stg_User :: string
  stg_Password :: string
  stg_URL :: string
  stg_Path :: string
  stg_Expire :: go_int
  stg_ExpireDays :: go_int

record KeyGenerator =
  kg_Type :: string
  kg_Path :: string

record Theme =
  th_Default :: string
  th_Forced :: string
  th_Dir :: string

record RateLimit =
  rl_TotalRequests :: go_int
  rl_Every :: go_int
  rl_MaxBytes :: go_int

record OIDCAuth =
  oi_Issuer :: string
  oi_ClientID :: string
  oi_ClientSecret :: string
  oi_RedirectURL :: string
  oi_PostLogoutRedirectURL :: string
  oi_AdminGroup :: string
  oi_GroupsClaim :: string

record LocalAdmin =
  la_Username :: string
  la_PasswordHash :: string

record LocalAuth =
  lo_Admins :: "LocalAdmin list"

record Auth =
  au_Mode :: string
  au_SessionKey :: string
  au_SessionTTL :: go_int
  au_LoginRateLimit :: go_int
  au_OIDC :: OIDCAuth
  au_Local :: LocalAuth

record Security =
  sec_FrameAncestors :: string
  sec_CORSOrigins :: "string list"

record Config =
  cfg_Host :: string
  cfg_Port :: go_int
  cfg_KeyLength :: go_int
  cfg_MaxLength :: go_int
  cfg_StaticMaxAge :: go_int
  cfg_KeyGenerator :: KeyGenerator
  cfg_RateLimit :: RateLimit
  cfg_Storage :: Storage
  cfg_Auth :: Auth
  cfg_Theme :: Theme
  cfg_Security :: Security
  cfg_LogLevel :: string
  cfg_TrustedProxyCount :: go_int

text \<open>The Go zero values of the structs that \<open>Defaults\<close> leaves out.\<close>

definition zero_Storage :: Storage where
  "zero_Storage = \<lparr>stg_Type = [], stg_Host = [], stg_Port = 0, stg_DB = [], stg_User = [],
     stg_Password = [], stg_URL = [], stg_Path = [], stg_Expire = 0, stg_ExpireDays = 0\<rparr>"

definition zero_OIDCAuth :: OIDCAuth where
  "zero_OIDCAuth = \<lparr>oi_Issuer = [], oi_ClientID = [], oi_ClientSecret = [], oi_RedirectURL = [],
     oi_PostLogoutRedirectURL = [], oi_AdminGroup = [], oi_GroupsClaim = []\<rparr>"

definition zero_Auth :: Auth where
  "zero_Auth = \<lparr>au_Mode = [], au_SessionKey = [], au_SessionTTL = 0, au_LoginRateLimit = 0,
     au_OIDC = zero_OIDCAuth, au_Local = \<lparr>lo_Admins = []\<rparr>\<rparr>"

definition Defaults :: Config where
  "Defaults = \<lparr>
     cfg_Host = ''0.0.0.0'',
     cfg_Port = 8080,
     cfg_KeyLength = 16,
     cfg_MaxLength = 157286400,
     cfg_StaticMaxAge = 86400,
     cfg_KeyGenerator = \<lparr>kg_Type = ''random'', kg_Path = []\<rparr>,
     cfg_RateLimit = \<lparr>rl_TotalRequests = 500, rl_Every = 60000, rl_MaxBytes = 629145600\<rparr>,
     cfg_Storage = zero_Storage\<lparr>stg_Type := ''file'', stg_Path := ''./data''\<rparr>,
     cfg_Auth = zero_Auth,
     cfg_Theme = \<lparr>th_Default = ''rake'', th_Forced = [], th_Dir = []\<rparr>,
     cfg_Security = \<lparr>sec_FrameAncestors = [CHR 0x27] @ ''self'' @ [CHR 0x27], sec_CORSOrigins = []\<rparr>,
     cfg_LogLevel = ''info'',
     cfg_TrustedProxyCount = 0\<rparr>"

section \<open>Theme names\<close>

text \<open>The regular expression \<open>^[a-z0-9][a-z0-9_-]*$\<close>.\<close>

definition theme_start_char :: "char \<Rightarrow> bool" where
  "theme_start_char c \<longleftrightarrow> byte_in (CHR ''a'') (CHR ''z'') c \<or> byte_in (CHR ''0'') (CHR ''9'') c"

definition theme_char :: "char \<Rightarrow> bool" where
  "theme_char c \<longleftrightarrow> theme_start_char c \<or> c = CHR ''_'' \<or> c = CHR ''-''"

definition themeNameRE :: "string \<Rightarrow> bool" where
  "themeNameRE s \<longleftrightarrow> s \<noteq> [] \<and> theme_start_char (hd s) \<and> list_all theme_char (tl s)"

definition ValidName :: "string \<Rightarrow> bool" where
  "ValidName name = themeNameRE name"

lemma ValidName_chars: "ValidName s \<Longrightarrow> c \<in> set s \<Longrightarrow> theme_char c"
  by (cases s) (auto simp: ValidName_def themeNameRE_def theme_char_def list_all_iff)

lemma theme_char_safe:
  "theme_char c \<Longrightarrow> c \<noteq> CHR ''/'' \<and> c \<noteq> CHR ''.'' \<and> c \<noteq> CHR 0x5C \<and> c \<noteq> CHR ''\"'' \<and>
    c \<noteq> CHR ''<'' \<and> c \<noteq> CHR ''>'' \<and> c \<noteq> CHR ''&'' \<and> c \<noteq> CHR '' '' \<and> c \<noteq> CHR '',''"
  by (auto simp: theme_char_def theme_start_char_def less_eq_char_def)

datatype config_error =
    ThemeDefaultInvalid string
  | ThemeForcedInvalid string
  | AuthModeInvalid string
  | AuthSessionKeyShort
  | AuthOIDCIncomplete
  | AuthLocalNoAdmin
  | AuthLocalAdminIncomplete nat
  | ReadConfig string
  | ParseConfig string

definition Theme_normalize :: "Theme \<Rightarrow> config_error + Theme" where
  "Theme_normalize t =
     (let t = (if th_Default t = [] then t\<lparr>th_Default := ''rake''\<rparr> else t)
      in if \<not> ValidName (th_Default t) then Inl (ThemeDefaultInvalid (th_Default t))
         else if th_Forced t \<noteq> [] \<and> \<not> ValidName (th_Forced t)
         then Inl (ThemeForcedInvalid (th_Forced t))
         else Inr t)"

section \<open>Auth section\<close>

definition Auth_Enabled :: "Auth \<Rightarrow> bool" where
  "Auth_Enabled a \<longleftrightarrow> au_Mode a = ''oidc'' \<or> au_Mode a = ''local''"

text \<open>The loop over the admins: the index of the first incomplete one.\<close>

fun bad_admin :: "nat \<Rightarrow> LocalAdmin list \<Rightarrow> nat option" where
  "bad_admin i [] = None"
| "bad_admin i (ad # ads) =
     (if la_Username ad = [] \<or> la_PasswordHash ad = [] then Some i else bad_admin (Suc i) ads)"

definition Auth_normalize :: "Auth \<Rightarrow> config_error + Auth" where
  "Auth_normalize a =
     (if au_Mode a = [] \<or> au_Mode a = ''disabled'' then Inr (a\<lparr>au_Mode := []\<rparr>)
      else if \<not> (au_Mode a = ''oidc'' \<or> au_Mode a = ''local'') then Inl (AuthModeInvalid (au_Mode a))
      else if length (au_SessionKey a) < 16 then Inl AuthSessionKeyShort
      else
        let a = (if au_SessionTTL a \<le> 0 then a\<lparr>au_SessionTTL := 28800\<rparr> else a);
            a = (if au_LoginRateLimit a \<le> 0 then a\<lparr>au_LoginRateLimit := 10\<rparr> else a)
        in if au_Mode a = ''oidc'' then
             let o' = au_OIDC a
             in if oi_Issuer o' = [] \<or> oi_ClientID o' = [] \<or> oi_ClientSecret o' = [] \<or>
                   oi_RedirectURL o' = [] \<or> oi_AdminGroup o' = []
                then Inl AuthOIDCIncomplete
                else if oi_GroupsClaim o' = []
                then Inr (a\<lparr>au_OIDC := o'\<lparr>oi_GroupsClaim := ''groups''\<rparr>\<rparr>)
                else Inr a
           else if lo_Admins (au_Local a) = [] then Inl AuthLocalNoAdmin
           else (case bad_admin 0 (lo_Admins (au_Local a)) of
               Some i \<Rightarrow> Inl (AuthLocalAdminIncomplete i)
             | None \<Rightarrow> Inr a))"

lemma bad_admin_None:
  "bad_admin i ads = None \<longleftrightarrow>
   (\<forall>ad \<in> set ads. la_Username ad \<noteq> [] \<and> la_PasswordHash ad \<noteq> [])"
  by (induction ads arbitrary: i) auto

section \<open>Environment overlay\<close>

type_synonym environ = "string \<Rightarrow> string option"

definition setStr :: "environ \<Rightarrow> string \<Rightarrow> string \<Rightarrow> string" where
  "setStr env name dst = (case env name of Some v \<Rightarrow> v | None \<Rightarrow> dst)"

definition setInt :: "environ \<Rightarrow> string \<Rightarrow> go_int \<Rightarrow> go_int" where
  "setInt env name dst = (case env name of
      Some v \<Rightarrow> if v \<noteq> [] then (case Atoi v of Some n \<Rightarrow> n | None \<Rightarrow> dst) else dst
    | None \<Rightarrow> dst)"

definition setStrList :: "environ \<Rightarrow> string \<Rightarrow> string list \<Rightarrow> string list" where
  "setStrList env name dst = (case env name of
      None \<Rightarrow> dst
    | Some v \<Rightarrow> filter (\<lambda>p. p \<noteq> []) (map trim_space (split_byte v (CHR '',''))))"

text \<open>
  The assignments of \<open>applyEnv\<close>, in its order; each updates one field in place, so each is a
  field update applied to the configuration.
\<close>

definition applyEnv :: "environ \<Rightarrow> Config \<Rightarrow> Config" where
  "applyEnv env cfg =
    (let cfg = cfg_Host_update (setStr env ''HOST'') cfg;
         cfg = cfg_Port_update (setInt env ''PORT'') cfg;
         cfg = cfg_LogLevel_update (setStr env ''LOG_LEVEL'') cfg;
         cfg = cfg_TrustedProxyCount_update (setInt env ''TRUSTED_PROXY_COUNT'') cfg;
         cfg = cfg_MaxLength_update (setInt env ''MAX_LENGTH'') cfg;
         cfg = cfg_RateLimit_update (rl_MaxBytes_update (setInt env ''RATE_LIMIT_MAX_BYTES'')) cfg;

         cfg = cfg_Auth_update (au_Mode_update (setStr env ''AUTH_MODE'')) cfg;
         cfg = cfg_Auth_update (au_SessionKey_update (setStr env ''AUTH_SESSION_KEY'')) cfg;
         cfg = cfg_Auth_update (au_SessionTTL_update (setInt env ''AUTH_SESSION_TTL'')) cfg;
         cfg = cfg_Auth_update (au_LoginRateLimit_update (setInt env ''AUTH_LOGIN_RATE_LIMIT'')) cfg;

         cfg = cfg_Security_update (sec_FrameAncestors_update (setStr env ''CSP_FRAME_ANCESTORS'')) cfg;
         cfg = cfg_Security_update (sec_CORSOrigins_update (setStrList env ''CORS_ORIGINS'')) cfg;
         cfg = cfg_Auth_update (au_OIDC_update (oi_Issuer_update (setStr env ''OIDC_ISSUER''))) cfg;
         cfg = cfg_Auth_update (au_OIDC_update (oi_ClientID_update (setStr env ''OIDC_CLIENT_ID''))) cfg;
         cfg = cfg_Auth_update (au_OIDC_update (oi_ClientSecret_update (setStr env ''OIDC_CLIENT_SECRET''))) cfg;
         cfg = cfg_Auth_update (au_OIDC_update (oi_RedirectURL_update (setStr env ''OIDC_REDIRECT_URL''))) cfg;
         cfg = cfg_Auth_update (au_OIDC_update (oi_PostLogoutRedirectURL_update
                 (setStr env ''OIDC_POST_LOGOUT_REDIRECT_URL''))) cfg;
         cfg = cfg_Auth_update (au_OIDC_update (oi_AdminGroup_update (setStr env ''OIDC_ADMIN_GROUP''))) cfg;
         cfg = cfg_Auth_update (au_OIDC_update (oi_GroupsClaim_update (setStr env ''OIDC_GROUPS_CLAIM''))) cfg;

         cfg = cfg_Theme_update (th_Default_update (setStr env ''THEME_DEFAULT'')) cfg;
         cfg = cfg_Theme_update (th_Forced_update (setStr env ''THEME_FORCED'')) cfg;
         cfg = cfg_Theme_update (th_Dir_update (setStr env ''THEME_DIR'')) cfg;

         cfg = cfg_Storage_update (stg_Type_update (setStr env ''STORAGE_TYPE'')) cfg;
         cfg = cfg_Storage_update (stg_Host_update (setStr env ''STORAGE_HOST'')) cfg;
         cfg = cfg_Storage_update (stg_Port_update (setInt env ''STORAGE_PORT'')) cfg;
         cfg = cfg_Storage_update (stg_DB_update (setStr env ''STORAGE_DB'')) cfg;
         cfg = cfg_Storage_update (stg_User_update (setStr env ''STORAGE_USERNAME'')) cfg;
         cfg = cfg_Storage_update (stg_Password_update (setStr env ''STORAGE_PASSWORD'')) cfg;
         cfg = cfg_Storage_update (stg_URL_update (setStr env ''DATABASE_URL'')) cfg;
         cfg = cfg_Storage_update (stg_Path_update (setStr env ''STORAGE_FILEPATH'')) cfg;
         cfg = cfg_Storage_update (stg_Expire_update (setInt env ''STORAGE_EXPIRE_SECONDS'')) cfg
     in cfg_Storage_update (stg_ExpireDays_update (setInt env ''STORAGE_EXPIRE_DAYS'')) cfg)"

section \<open>Load\<close>

text \<open>
  \<open>readFile\<close> is \<open>os.ReadFile\<close> (\<open>None\<close> is an error) and \<open>unmarshal\<close> the YAML decoder, which
  overlays the file's values on the configuration it is given (\<open>None\<close> is a parse error).
\<close>

definition resolve_expire :: "Config \<Rightarrow> Config" where
  "resolve_expire cfg =
     (if 0 < stg_ExpireDays (cfg_Storage cfg)
      then cfg_Storage_update (stg_Expire_update
             (\<lambda>_. wrap64 (stg_ExpireDays (cfg_Storage cfg) * 86400))) cfg
      else cfg)"

definition load_file ::
  "(string \<Rightarrow> string option) \<Rightarrow> (string \<Rightarrow> Config \<Rightarrow> Config option) \<Rightarrow> string \<Rightarrow> config_error + Config" where
  "load_file readFile unmarshal path =
     (if path \<noteq> [] then
        (case readFile path of
           None \<Rightarrow> Inl (ReadConfig path)
         | Some data \<Rightarrow> (case unmarshal data Defaults of
             None \<Rightarrow> Inl (ParseConfig path)
           | Some cfg \<Rightarrow> Inr cfg))
      else Inr Defaults)"

definition config_path :: "environ \<Rightarrow> string \<Rightarrow> string" where
  "config_path env path =
     (if path = [] then (case env ''GOPASTE_CONFIG'' of Some v \<Rightarrow> v | None \<Rightarrow> []) else path)"

definition Load ::
  "(string \<Rightarrow> string option) \<Rightarrow> (string \<Rightarrow> Config \<Rightarrow> Config option) \<Rightarrow> environ \<Rightarrow> string
    \<Rightarrow> config_error + Config" where
  "Load readFile unmarshal env path =
     (case load_file readFile unmarshal (config_path env path) of
           Inl e \<Rightarrow> Inl e
         | Inr cfg \<Rightarrow>
             let cfg = resolve_expire (applyEnv env cfg)
             in case Auth_normalize (cfg_Auth cfg) of
                  Inl e \<Rightarrow> Inl e
                | Inr a \<Rightarrow>
                    let cfg = cfg\<lparr>cfg_Auth := a\<rparr>
                    in case Theme_normalize (cfg_Theme cfg) of
                         Inl e \<Rightarrow> Inl e
                       | Inr t \<Rightarrow> Inr (cfg\<lparr>cfg_Theme := t\<rparr>))"

section \<open>What a loaded configuration satisfies\<close>

definition auth_wf :: "Auth \<Rightarrow> bool" where
  "auth_wf a \<longleftrightarrow>
     (au_Mode a = [] \<or> Auth_Enabled a) \<and>
     (Auth_Enabled a \<longrightarrow> 16 \<le> length (au_SessionKey a) \<and> 0 < au_SessionTTL a \<and> 0 < au_LoginRateLimit a) \<and>
     (au_Mode a = ''oidc'' \<longrightarrow>
        oi_Issuer (au_OIDC a) \<noteq> [] \<and> oi_ClientID (au_OIDC a) \<noteq> [] \<and> oi_ClientSecret (au_OIDC a) \<noteq> [] \<and>
        oi_RedirectURL (au_OIDC a) \<noteq> [] \<and> oi_AdminGroup (au_OIDC a) \<noteq> [] \<and> oi_GroupsClaim (au_OIDC a) \<noteq> []) \<and>
     (au_Mode a = ''local'' \<longrightarrow> lo_Admins (au_Local a) \<noteq> [] \<and>
        (\<forall>ad \<in> set (lo_Admins (au_Local a)). la_Username ad \<noteq> [] \<and> la_PasswordHash ad \<noteq> []))"

definition theme_wf :: "Theme \<Rightarrow> bool" where
  "theme_wf t \<longleftrightarrow> ValidName (th_Default t) \<and> (th_Forced t = [] \<or> ValidName (th_Forced t))"

lemma Auth_normalize_wf: "Auth_normalize a = Inr a' \<Longrightarrow> auth_wf a'"
  by (auto simp: Auth_normalize_def auth_wf_def Auth_Enabled_def Let_def bad_admin_None
      split: if_splits option.splits)

lemma Theme_normalize_wf: "Theme_normalize t = Inr t' \<Longrightarrow> theme_wf t'"
  by (auto simp: Theme_normalize_def theme_wf_def Let_def split: if_splits)

lemma Load_InrE:
  assumes "Load readFile unmarshal env path = Inr cfg"
  obtains c a t where "load_file readFile unmarshal (config_path env path) = Inr c"
    and "Auth_normalize (cfg_Auth (resolve_expire (applyEnv env c))) = Inr a"
    and "Theme_normalize (cfg_Theme (resolve_expire (applyEnv env c))) = Inr t"
    and "cfg = (resolve_expire (applyEnv env c))\<lparr>cfg_Auth := a, cfg_Theme := t\<rparr>"
  using assms by (auto simp: Load_def Let_def split: sum.splits)

lemma setStr_unset [simp]: "setStr (\<lambda>_. None) name = (\<lambda>x. x)"
  by (simp add: setStr_def fun_eq_iff)

lemma setInt_unset [simp]: "setInt (\<lambda>_. None) name = (\<lambda>x. x)"
  by (simp add: setInt_def fun_eq_iff)

lemma setStrList_unset [simp]: "setStrList (\<lambda>_. None) name = (\<lambda>x. x)"
  by (simp add: setStrList_def fun_eq_iff)

lemma setInt_garbage: "env name = Some v \<Longrightarrow> Atoi v = None \<Longrightarrow> setInt env name dst = dst"
  by (simp add: setInt_def)

lemma setInt_set: "env name = Some (Itoa i) \<Longrightarrow> in_int64 i \<Longrightarrow> setInt env name dst = i"
  by (simp add: setInt_def Atoi_Itoa)

lemma setStrList_no_blank: "env name = Some v \<Longrightarrow> p \<in> set (setStrList env name dst) \<Longrightarrow> p \<noteq> []"
  by (simp add: setStrList_def)

section \<open>Properties\<close>

text \<open>
  C36. Whatever the file and the environment hold, a configuration that \<open>Load\<close> accepts is well
  formed: the console is off or in one of its two modes, an enabled console has a session key of
  16 bytes or more, a positive session lifetime and login budget and everything its mode needs,
  and the theme names are safe.
\<close>

theorem Load_wf:
  assumes "Load readFile unmarshal env path = Inr cfg"
  shows "auth_wf (cfg_Auth cfg) \<and> theme_wf (cfg_Theme cfg)"
  using assms by (rule Load_InrE) (auto dest: Auth_normalize_wf Theme_normalize_wf)

definition local_env :: environ where
  "local_env = (\<lambda>n. if n = ''AUTH_MODE'' then Some ''local''
     else if n = ''AUTH_SESSION_KEY'' then Some ''0123456789abcdef'' else None)"

definition one_admin :: "Config \<Rightarrow> Config option" where
  "one_admin cfg = Some (cfg_Auth_update (\<lambda>a. a\<lparr>au_Local :=
     \<lparr>lo_Admins = [\<lparr>la_Username = ''root'', la_PasswordHash = ''$2a$''\<rparr>]\<rparr>\<rparr>) cfg)"

lemmas load_defs = Load_def load_file_def config_path_def one_admin_def applyEnv_def Let_def setStr_def
  setInt_def setStrList_def resolve_expire_def Defaults_def zero_Storage_def zero_Auth_def
  zero_OIDCAuth_def Auth_normalize_def Theme_normalize_def ValidName_def themeNameRE_def
  theme_start_char_def theme_char_def less_eq_char_def

lemma Load_wf_witness:
  "\<exists>cfg. Load Some (\<lambda>_. one_admin) local_env ''c'' = Inr cfg \<and> au_Mode (cfg_Auth cfg) = ''local'' \<and>
     auth_wf (cfg_Auth cfg) \<and> theme_wf (cfg_Theme cfg)"
proof -
  obtain cfg where l: "Load Some (\<lambda>_. one_admin) local_env ''c'' = Inr cfg"
    and m: "au_Mode (cfg_Auth cfg) = ''local''"
    by (simp add: load_defs local_env_def)
  from l m Load_wf [OF l] show ?thesis by blast
qed

text \<open>
  The environment has the last word, and only what it sets: a variable holding a number
  fixes its setting, whatever the file says; one that is unset or does not parse leaves the
  setting of the file; and a positive number of days replaces the expiry in seconds.
\<close>

lemma Load_precedence:
  assumes "Load readFile unmarshal env path = Inr cfg"
  shows "(\<forall>n. env ''MAX_LENGTH'' = Some (Itoa n) \<and> in_int64 n \<longrightarrow> cfg_MaxLength cfg = n) \<and>
    (env ''MAX_LENGTH'' = None \<or> (\<exists>v. env ''MAX_LENGTH'' = Some v \<and> Atoi v = None) \<longrightarrow>
       (\<exists>file_cfg. load_file readFile unmarshal (config_path env path) = Inr file_cfg \<and>
          cfg_MaxLength cfg = cfg_MaxLength file_cfg)) \<and>
    (0 < stg_ExpireDays (cfg_Storage cfg) \<longrightarrow>
       stg_Expire (cfg_Storage cfg) = wrap64 (stg_ExpireDays (cfg_Storage cfg) * 86400))"
proof -
  from assms obtain c a t where c: "load_file readFile unmarshal (config_path env path) = Inr c"
    and cfg: "cfg = (resolve_expire (applyEnv env c))\<lparr>cfg_Auth := a, cfg_Theme := t\<rparr>"
    by (rule Load_InrE)
  have m: "cfg_MaxLength cfg = setInt env ''MAX_LENGTH'' (cfg_MaxLength c)"
    by (simp add: cfg resolve_expire_def applyEnv_def Let_def)
  have e: "0 < stg_ExpireDays (cfg_Storage cfg) \<Longrightarrow>
      stg_Expire (cfg_Storage cfg) = wrap64 (stg_ExpireDays (cfg_Storage cfg) * 86400)"
    by (auto simp: cfg resolve_expire_def split: if_splits)
  show ?thesis
    using m e c setInt_set [of env "''MAX_LENGTH''"]
    by (fastforce simp: setInt_def)
qed

lemma Load_precedence_witness:
  "\<exists>cfg. Load Some (\<lambda>_. one_admin) (\<lambda>n. if n = ''MAX_LENGTH'' then Some (Itoa 42) else None) ''c'' = Inr cfg \<and>
     cfg_MaxLength cfg = 42"
proof -
  obtain cfg where l: "Load Some (\<lambda>_. one_admin)
      (\<lambda>n. if n = ''MAX_LENGTH'' then Some (Itoa 42) else None) ''c'' = Inr cfg"
    by (simp add: load_defs)
  from l Load_precedence [OF l] show ?thesis by (auto simp: in_int64_def)
qed

end
