(* ===== verification/Session.thy ===== *)
theory Session
  imports Go_Strings
begin

text \<open>
  \<open>internal/auth/session.go\<close>: the in-process session table. Times are nanoseconds; a call reads
  the clock once. Random bytes come from a parameter \<open>rb\<close> over a state \<open>'r\<close>; its failure is a
  panic.

  The last section shows what a session id still proves after any history of operations.
\<close>

section \<open>State and operations\<close>

record Identity =
  id_User :: string
  id_Email :: string
  id_Groups :: "string list"

record session =
  ss_identity :: Identity
  ss_expiry :: int

record sessionStore =
  byID :: "(string, session) fmap"

definition newSessionStore :: sessionStore where
  "newSessionStore = \<lparr>byID = fmempty\<rparr>"

type_synonym 'r rand_bytes = "'r \<Rightarrow> bytes32 option \<times> 'r"

definition randomToken :: "'r rand_bytes \<Rightarrow> 'r \<Rightarrow> string or_panic \<times> 'r" where
  "randomToken rb r = (case rb r of
      (None, r) \<Rightarrow> (Inl ''auth: crypto/rand failed: '', r)
    | (Some b, r) \<Rightarrow> (Inr (b64url_encode (bytes32_slice b)), r))"

definition sweepLocked :: "int \<Rightarrow> sessionStore \<Rightarrow> sessionStore" where
  "sweepLocked now s = s\<lparr>byID := fm_sweep (\<lambda>ss. ss_expiry ss < now) (byID s)\<rparr>"

text \<open>The part of \<open>create\<close> that runs under the lock.\<close>

definition register :: "string \<Rightarrow> Identity \<Rightarrow> int \<Rightarrow> int \<Rightarrow> sessionStore \<Rightarrow> sessionStore" where
  "register sid ident expiry now s =
     sweepLocked now (s\<lparr>byID := fmupd sid \<lparr>ss_identity = ident, ss_expiry = expiry\<rparr> (byID s)\<rparr>)"

definition create ::
  "'r rand_bytes \<Rightarrow> int \<Rightarrow> Identity \<Rightarrow> int \<Rightarrow> sessionStore \<Rightarrow> 'r
     \<Rightarrow> (string \<times> int) or_panic \<times> sessionStore \<times> 'r" where
  "create rb now ident ttl s r = (case randomToken rb r of
      (Inl p, r) \<Rightarrow> (Inl p, s, r)
    | (Inr sid, r) \<Rightarrow> (Inr (sid, now + ttl), register sid ident (now + ttl) now s, r))"

definition get :: "int \<Rightarrow> string \<Rightarrow> sessionStore \<Rightarrow> (Identity \<times> int) option \<times> sessionStore" where
  "get now sid s = (case fmlookup (byID s) sid of
      None \<Rightarrow> (None, s)
    | Some ss \<Rightarrow> if ss_expiry ss < now then (None, s\<lparr>byID := fmdrop sid (byID s)\<rparr>)
                 else (Some (ss_identity ss, ss_expiry ss), s))"

definition revoke :: "string \<Rightarrow> sessionStore \<Rightarrow> sessionStore" where
  "revoke sid s = s\<lparr>byID := fmdrop sid (byID s)\<rparr>"

section \<open>Live sessions\<close>

definition live_session :: "int \<Rightarrow> sessionStore \<Rightarrow> string \<Rightarrow> session option" where
  "live_session now s sid = (case fmlookup (byID s) sid of
      None \<Rightarrow> None | Some ss \<Rightarrow> if ss_expiry ss < now then None else Some ss)"

lemma get_live_session:
  "fst (get now sid s) = map_option (\<lambda>ss. (ss_identity ss, ss_expiry ss)) (live_session now s sid)"
  by (simp add: get_def live_session_def split: option.split)

lemma live_session_mono: "now \<le> now' \<Longrightarrow> live_session now s sid = None \<Longrightarrow> live_session now' s sid = None"
  by (auto simp: live_session_def split: option.splits if_splits)

lemma live_after_get [simp]:
  "now \<le> now' \<Longrightarrow> live_session now' (snd (get now sid s)) sid' = live_session now' s sid'"
  by (auto simp: get_def live_session_def split: option.split)

lemma live_after_revoke [simp]:
  "live_session now (revoke sid s) sid' = (if sid' = sid then None else live_session now s sid')"
  by (simp add: revoke_def live_session_def)

lemma live_after_register [simp]:
  "now \<le> now' \<Longrightarrow> live_session now' (register sid ident expiry now s) sid' =
     (if sid' = sid then if expiry < now' then None else Some \<lparr>ss_identity = ident, ss_expiry = expiry\<rparr>
      else live_session now' s sid')"
  by (auto simp: register_def sweepLocked_def live_session_def split: option.split)

lemma live_new [simp]: "live_session now newSessionStore sid = None"
  by (simp add: newSessionStore_def live_session_def)

lemma token_shape:
  "randomToken rb r = (Inr sid, r') \<Longrightarrow> length sid = 43 \<and> CHR ''.'' \<notin> set sid"
  by (auto simp: randomToken_def b64url_no_dot length_b64url_encode split: prod.splits option.splits)

lemma create_InrD:
  assumes "create rb now ident ttl s r = (Inr (sid, expiry), s', r')"
  shows "expiry = now + ttl \<and> s' = register sid ident expiry now s \<and> CHR ''.'' \<notin> set sid \<and> sid \<noteq> []"
proof -
  obtain x r1 where t: "randomToken rb r = (x, r1)" by (cases "randomToken rb r")
  with assms have x: "x = Inr sid" and "expiry = now + ttl" "s' = register sid ident expiry now s"
    by (auto simp: create_def split: sum.splits)
  moreover from t x have "length sid = 43 \<and> CHR ''.'' \<notin> set sid" by (simp add: token_shape)
  then have "sid \<noteq> []" and "CHR ''.'' \<notin> set sid" by auto
  ultimately show ?thesis by simp
qed

lemma create_InlD: "create rb now ident ttl s r = (Inl p, s', r') \<Longrightarrow> s' = s"
  by (auto simp: create_def split: prod.splits sum.splits)

section \<open>Histories\<close>

text \<open>The operations as events, each with the time of its clock reading.\<close>

datatype session_event =
    Created string Identity int int \<comment> \<open>id, identity, lifetime, time\<close>
  | Looked_up string int
  | Revoked string int

fun se_time :: "session_event \<Rightarrow> int" where
  "se_time (Created sid ident ttl t) = t"
| "se_time (Looked_up sid t) = t"
| "se_time (Revoked sid t) = t"

fun sess_exec :: "session_event \<Rightarrow> sessionStore \<Rightarrow> sessionStore" where
  "sess_exec (Created sid ident ttl t) s = register sid ident (t + ttl) t s"
| "sess_exec (Looked_up sid t) s = snd (get t sid s)"
| "sess_exec (Revoked sid t) s = revoke sid s"

fun touches :: "string \<Rightarrow> session_event \<Rightarrow> bool" where
  "touches sid (Created sid' _ _ _) = (sid' = sid)"
| "touches sid (Looked_up _ _) = False"
| "touches sid (Revoked sid' _) = (sid' = sid)"

text \<open>
  The specification: the last event that concerns the id decides. Looking a session up, expiring
  it lazily and sweeping have no effect one could observe.
\<close>

fun sess_spec :: "session_event list \<Rightarrow> int \<Rightarrow> string \<Rightarrow> session option" where
  "sess_spec es now sid = (case find (touches sid) (rev es) of
      Some (Created _ ident ttl t) \<Rightarrow>
        if t + ttl < now then None else Some \<lparr>ss_identity = ident, ss_expiry = t + ttl\<rparr>
    | _ \<Rightarrow> None)"

lemma history_spec:
  assumes "sorted (map se_time es @ [now])"
  shows "live_session now (fold sess_exec es newSessionStore) sid = sess_spec es now sid"
  using assms
proof (induction es rule: rev_induct)
  case Nil
  then show ?case by simp
next
  case (snoc e es)
  then have "sorted (map se_time es @ [now])" and "se_time e \<le> now" by (auto simp: sorted_append)
  with snoc show ?case by (cases e) (simp_all split: option.splits session_event.splits)
qed

section \<open>Properties\<close>

text \<open>
  C8. After any history of creations, look-ups and revocations in the order of time, a session id
  is admitted exactly when the last event that concerns it is its creation and that session's
  lifetime has not passed; the answer is the identity it was created for. So a revoked or expired
  session never comes back, and neither look-ups nor sweeps touch another session.
\<close>

theorem session_history:
  assumes "sorted (map se_time es @ [now])"
  shows "fst (get now sid (fold sess_exec es newSessionStore)) =
    map_option (\<lambda>ss. (ss_identity ss, ss_expiry ss)) (sess_spec es now sid)"
  by (simp add: get_live_session history_spec [OF assms])

lemma session_history_witness:
  "let alice = \<lparr>id_User = ''alice'', id_Email = [], id_Groups = [''admins'']\<rparr>;
       s = fold sess_exec [Created ''a'' alice 10 0, Created ''b'' alice 10 2, Revoked ''b'' 3, Looked_up ''a'' 4]
             newSessionStore
   in fst (get 7 ''a'' s) = Some (alice, 10) \<and> fst (get 7 ''b'' s) = None \<and> fst (get 11 ''a'' s) = None"
  unfolding Let_def
  by (subst session_history, simp, subst session_history, simp, subst session_history, simp) simp

end
