(* ===== verification/Go_Utf8.thy ===== *)
theory Go_Utf8
  imports Go_Strings
begin

text \<open>
  What the standard library does with the code points of a string: the conversion
  \<open>[]rune(s)\<close>, and the lines a \<open>bufio.Scanner\<close> yields. A code point is represented by its UTF-8
  encoding, which is what writing it out again gives; a byte that starts no valid encoding
  decodes to U+FFFD on its own.
\<close>

section \<open>Runes\<close>

definition in_bytes :: "nat \<Rightarrow> nat \<Rightarrow> char \<Rightarrow> bool" where
  "in_bytes lo hi c \<longleftrightarrow> lo \<le> of_char c \<and> of_char c \<le> hi"

text \<open>The number of bytes of the encoding a string starts with; 0 when there is none.\<close>

fun rune_len :: "string \<Rightarrow> nat" where
  "rune_len [] = 0"
| "rune_len (c # s) =
     (if in_bytes 0 127 c then 1
      else if in_bytes 194 223 c then
        (case s of c1 # _ \<Rightarrow> if in_bytes 128 191 c1 then 2 else 0 | _ \<Rightarrow> 0)
      else if in_bytes 224 239 c then
        (case s of c1 # c2 # _ \<Rightarrow>
           if in_bytes (if of_char c = (224::nat) then 160 else 128)
                (if of_char c = (237::nat) then 159 else 191) c1 \<and> in_bytes 128 191 c2
           then 3 else 0 | _ \<Rightarrow> 0)
      else if in_bytes 240 244 c then
        (case s of c1 # c2 # c3 # _ \<Rightarrow>
           if in_bytes (if of_char c = (240::nat) then 144 else 128)
                (if of_char c = (244::nat) then 143 else 191) c1 \<and>
              in_bytes 128 191 c2 \<and> in_bytes 128 191 c3
           then 4 else 0 | _ \<Rightarrow> 0)
      else 0)"

definition rune_error :: string where
  "rune_error = [CHR 0xEF, CHR 0xBF, CHR 0xBD]"

function runes :: "string \<Rightarrow> string list" where
  "runes s = (if s = [] then []
     else if rune_len s = 0 then rune_error # runes (tl s)
     else take (rune_len s) s # runes (drop (rune_len s) s))"
  by pat_completeness auto
termination
  by (relation "measure length") (auto simp: diff_less)

declare runes.simps [simp del]

definition ascii :: "char \<Rightarrow> bool" where
  "ascii c \<longleftrightarrow> in_bytes 0 127 c"

lemma runes_Nil [simp]: "runes [] = []"
  by (simp add: runes.simps)

lemma runes_ascii_Cons: "ascii c \<Longrightarrow> runes (c # s) = [c] # runes s"
  by (simp add: runes.simps [of "c # s"] ascii_def)

lemma runes_ascii: "list_all ascii s \<Longrightarrow> runes s = map (\<lambda>c. [c]) s"
  by (induction s) (simp_all add: runes_ascii_Cons)

text \<open>A valid string is the concatenation of its runes.\<close>

definition valid_utf8 :: "string \<Rightarrow> bool" where
  "valid_utf8 s \<longleftrightarrow> concat (runes s) = s"

lemma ascii_valid: "list_all ascii s \<Longrightarrow> valid_utf8 s"
  by (simp add: valid_utf8_def runes_ascii)

section \<open>Lines\<close>

text \<open>
  \<open>bufio.ScanLines\<close>: the text between newlines, one trailing carriage return dropped; what
  follows the last newline counts only when it is not empty. A line that does not fit the
  scanner's buffer of 64 KiB ends the scan with an error.
\<close>

definition drop_cr :: "string \<Rightarrow> string" where
  "drop_cr l = (if l \<noteq> [] \<and> last l = CHR 0x0D then butlast l else l)"

definition raw_lines :: "string \<Rightarrow> string list" where
  "raw_lines s = (let ls = split_byte s (CHR 0x0A)
     in if last ls = [] then butlast ls else ls)"

definition scan_lines :: "string \<Rightarrow> string list" where
  "scan_lines s = map drop_cr (raw_lines s)"

definition scan_too_long :: "string \<Rightarrow> bool" where
  "scan_too_long s \<longleftrightarrow> list_ex (\<lambda>l. 65536 \<le> length l) (raw_lines s)"

end
