(* ===== verification/Go_Http.thy ===== *)
theory Go_Http
  imports Go_Utf8
begin

text \<open>
  The part of \<open>net/http\<close> and \<open>encoding/json\<close> the handlers use. A request is what the server has
  parsed; a response writer keeps the header map apart from the header that was sent: the first
  \<open>WriteHeader\<close> (or \<open>Write\<close>) takes a snapshot, and what a handler sets later is lost.
\<close>

section \<open>Requests\<close>

text \<open>
  \<open>rq_segments\<close> are the segments of the (clean) path, decoded: \<open>URL.Path\<close> is a slash and these
  joined with slashes. The body is the bytes that can be read and whether reading then fails.
  \<open>rq_form\<close> and \<open>rq_multipart\<close> are what \<open>ParseForm\<close> and \<open>ParseMultipartForm\<close> make of it
  (\<open>rq_multipart n\<close> when at most \<open>n\<close> bytes of the body can be read); \<open>None\<close> is an error. Their
  values are in the order of \<open>r.Form\<close>, for \<open>rq_form\<close> of \<open>r.PostForm\<close>.
\<close>

record http_request =
  rq_Method :: string
  rq_Host :: string
  rq_segments :: "string list"
  rq_query :: "(string \<times> string) list"
  rq_header :: "(string \<times> string) list"
  rq_cookies :: "(string \<times> string) list"
  rq_RemoteAddr :: string
  rq_body :: "string \<times> bool"
  rq_form :: "(string \<times> string) list option"
  rq_multipart :: "go_int \<Rightarrow> (string \<times> string) list option"

definition url_path :: "http_request \<Rightarrow> string" where
  "url_path r = CHR ''/'' # join ''/'' (rq_segments r)"

text \<open>The first value, or the empty string: \<open>Header.Get\<close>, \<open>Values.Get\<close>, \<open>FormValue\<close>.\<close>

definition first_value :: "(string \<times> string) list \<Rightarrow> string \<Rightarrow> string" where
  "first_value kvs k = (case map_of kvs k of Some v \<Rightarrow> v | None \<Rightarrow> [])"

definition header_get :: "http_request \<Rightarrow> string \<Rightarrow> string" where
  "header_get r k = first_value (rq_header r) k"

text \<open>\<open>r.Cookie\<close>: \<open>None\<close> is \<open>http.ErrNoCookie\<close>.\<close>

definition cookie_get :: "http_request \<Rightarrow> string \<Rightarrow> string option" where
  "cookie_get r name = map_of (rq_cookies r) name"

definition is_head :: "http_request \<Rightarrow> bool" where
  "is_head r \<longleftrightarrow> rq_Method r = ''HEAD''"

text \<open>\<open>io.ReadAll(io.LimitReader(r.Body, n))\<close>: the error is met only when the limit is not.\<close>

definition read_limited :: "http_request \<Rightarrow> go_int \<Rightarrow> string option" where
  "read_limited r n =
     (let (data, failed) = rq_body r
      in if n \<le> int (length data) then Some (take (nat n) data)
         else if failed then None else Some data)"

section \<open>Responses\<close>

record cookie =
  ck_Name :: string
  ck_Value :: string
  ck_Path :: string
  ck_Expires :: "int option"
  ck_MaxAge :: go_int
  ck_HttpOnly :: bool
  ck_Secure :: bool
  ck_SameSiteLax :: bool

text \<open>The \<open>Set-Cookie\<close> lines are kept apart, as the cookies they stand for.\<close>

record header =
  hd_fields :: "(string, string list) fmap"
  hd_cookies :: "cookie list"

record response =
  rs_header :: header
  rs_sent :: "(go_int \<times> header) option"
  rs_body :: string
  rs_recorded :: go_int \<comment> \<open>\<open>statusRecorder.status\<close>\<close>

definition empty_header :: header where
  "empty_header = \<lparr>hd_fields = fmempty, hd_cookies = []\<rparr>"

definition new_response :: response where
  "new_response = \<lparr>rs_header = empty_header, rs_sent = None, rs_body = [], rs_recorded = 200\<rparr>"

definition header_values :: "header \<Rightarrow> string \<Rightarrow> string list" where
  "header_values h k = (case fmlookup (hd_fields h) k of Some vs \<Rightarrow> vs | None \<Rightarrow> [])"

definition set_header :: "string \<Rightarrow> string \<Rightarrow> response \<Rightarrow> response" where
  "set_header k v w = rs_header_update (hd_fields_update (fmupd k [v])) w"

definition add_header :: "string \<Rightarrow> string \<Rightarrow> response \<Rightarrow> response" where
  "add_header k v w =
     rs_header_update (hd_fields_update (fmupd k (header_values (rs_header w) k @ [v]))) w"

definition del_header :: "string \<Rightarrow> response \<Rightarrow> response" where
  "del_header k w = rs_header_update (hd_fields_update (fmdrop k)) w"

definition SetCookie :: "cookie \<Rightarrow> response \<Rightarrow> response" where
  "SetCookie c w = rs_header_update (hd_cookies_update (\<lambda>cs. cs @ [c])) w"

definition send_header :: "go_int \<Rightarrow> response \<Rightarrow> response" where
  "send_header code w = (case rs_sent w of
      None \<Rightarrow> w\<lparr>rs_sent := Some (code, rs_header w)\<rparr>
    | Some _ \<Rightarrow> w)"

text \<open>
  The recorder notes every code it is given, also one that comes too late. \<open>Write\<close> is not
  overridden, so its implicit 200 does not pass the recorder.
\<close>

definition WriteHeader :: "go_int \<Rightarrow> response \<Rightarrow> response" where
  "WriteHeader code w = send_header code (w\<lparr>rs_recorded := code\<rparr>)"

definition write_body :: "string \<Rightarrow> response \<Rightarrow> response" where
  "write_body bs w = rs_body_update (\<lambda>b. b @ bs) (send_header 200 w)"

text \<open>What the client gets once the handlers have returned.\<close>

record reply =
  rp_status :: go_int
  rp_header :: header
  rp_body :: string

definition finish :: "http_request \<Rightarrow> response \<Rightarrow> reply" where
  "finish r w = (case rs_sent (send_header 200 w) of
      Some (code, h) \<Rightarrow> \<lparr>rp_status = code, rp_header = h, rp_body = (if is_head r then [] else rs_body w)\<rparr>
    | None \<Rightarrow> \<lparr>rp_status = 200, rp_header = rs_header w, rp_body = []\<rparr>)"

definition http_Error :: "string \<Rightarrow> go_int \<Rightarrow> response \<Rightarrow> response" where
  "http_Error msg code w =
     write_body (msg @ [CHR 0x0A]) (WriteHeader code
       (set_header ''X-Content-Type-Options'' ''nosniff''
         (set_header ''Content-Type'' ''text/plain; charset=utf-8'' (del_header ''Content-Length'' w))))"

definition NotFound :: "response \<Rightarrow> response" where
  "NotFound = http_Error ''404 page not found'' 404"

text \<open>
  \<open>http.Redirect\<close> with status 302 to an absolute URL or path, whose bytes outside ASCII the
  \<open>Location\<close> carries percent-encoded. The short body only repeats the target.
\<close>

definition net_htmlEscape :: "string \<Rightarrow> string" where
  "net_htmlEscape s = concat (map (\<lambda>c.
     if c = CHR ''&'' then ''&amp;'' else if c = CHR ''<'' then ''&lt;''
     else if c = CHR ''>'' then ''&gt;'' else if c = CHR 0x22 then ''&#34;''
     else if c = CHR 0x27 then ''&#39;'' else [c]) s)"

definition Redirect :: "http_request \<Rightarrow> string \<Rightarrow> response \<Rightarrow> response" where
  "Redirect r url w =
     (let hadCT = header_values (rs_header w) ''Content-Type'' \<noteq> [];
          loc = concat (map (\<lambda>c. if ascii c then [c] else CHR ''%'' # hex_encode [c]) url);
          w = set_header ''Location'' loc w;
          w = (if \<not> hadCT \<and> rq_Method r \<in> {''GET'', ''HEAD''}
               then set_header ''Content-Type'' ''text/html; charset=utf-8'' w else w);
          w = WriteHeader 302 w
      in if \<not> hadCT \<and> rq_Method r = ''GET''
         then write_body (''<a href='' @ [CHR 0x22] @ net_htmlEscape url @ [CHR 0x22] @ ''>Found</a>.'' @ [CHR 0x0A, CHR 0x0A]) w
         else w)"

text \<open>How a handler ends: it returns, panics, or runs forever.\<close>

datatype outcome = Returns | Panics string | Hangs

definition and_then ::
  "outcome \<times> response \<times> 's \<Rightarrow> (response \<Rightarrow> 's \<Rightarrow> outcome \<times> response \<times> 's) \<Rightarrow> outcome \<times> response \<times> 's" where
  "and_then x k = (case x of (res, w, st) \<Rightarrow> if res = Returns then k w st else (res, w, st))"

lemma and_then_simps [simp]:
  "and_then (Returns, w, st) k = k w st" "and_then (Panics p, w, st) k = (Panics p, w, st)"
  "and_then (Hangs, w, st) k = (Hangs, w, st)"
  by (simp_all add: and_then_def)

section \<open>Laws of the response writer\<close>

lemma send_header_sent [simp]: "rs_sent w = Some x \<Longrightarrow> send_header code w = w"
  by (simp add: send_header_def)

lemma rs_sent_send_header [simp]: "rs_sent (send_header code w) =
    (case rs_sent w of None \<Rightarrow> Some (code, rs_header w) | Some x \<Rightarrow> Some x)"
  by (simp add: send_header_def split: option.split)

lemma send_header_frame [simp]: "rs_header (send_header code w) = rs_header w"
    "rs_body (send_header code w) = rs_body w" "rs_recorded (send_header code w) = rs_recorded w"
  by (simp_all add: send_header_def split: option.split)

lemma WriteHeader_simps [simp]:
  "rs_sent (WriteHeader code w) = (case rs_sent w of None \<Rightarrow> Some (code, rs_header w) | Some x \<Rightarrow> Some x)"
  "rs_header (WriteHeader code w) = rs_header w" "rs_body (WriteHeader code w) = rs_body w"
  "rs_recorded (WriteHeader code w) = code"
  by (simp_all add: WriteHeader_def split: option.split)

lemma write_body_simps [simp]:
  "rs_sent (write_body bs w) = (case rs_sent w of None \<Rightarrow> Some (200, rs_header w) | Some x \<Rightarrow> Some x)"
  "rs_header (write_body bs w) = rs_header w" "rs_body (write_body bs w) = rs_body w @ bs"
  "rs_recorded (write_body bs w) = rs_recorded w"
  by (simp_all add: write_body_def)

lemma header_edit_simps [simp]:
  "rs_sent (set_header k v w) = rs_sent w" "rs_body (set_header k v w) = rs_body w"
  "rs_recorded (set_header k v w) = rs_recorded w" "rs_recorded (add_header k v w) = rs_recorded w"
  "rs_recorded (del_header k w) = rs_recorded w" "rs_recorded (SetCookie c w) = rs_recorded w"
  "rs_sent (add_header k v w) = rs_sent w" "rs_body (add_header k v w) = rs_body w"
  "rs_sent (del_header k w) = rs_sent w" "rs_body (del_header k w) = rs_body w"
  "rs_sent (SetCookie c w) = rs_sent w" "rs_body (SetCookie c w) = rs_body w"
  "hd_cookies (rs_header (set_header k v w)) = hd_cookies (rs_header w)"
  "hd_cookies (rs_header (add_header k v w)) = hd_cookies (rs_header w)"
  "hd_cookies (rs_header (del_header k w)) = hd_cookies (rs_header w)"
  "hd_cookies (rs_header (SetCookie c w)) = hd_cookies (rs_header w) @ [c]"
  by (simp_all add: set_header_def add_header_def del_header_def SetCookie_def)

lemma header_values_simps [simp]:
  "header_values (rs_header (set_header k v w)) k' = (if k' = k then [v] else header_values (rs_header w) k')"
  "header_values (rs_header (add_header k v w)) k' =
     (if k' = k then header_values (rs_header w) k @ [v] else header_values (rs_header w) k')"
  "header_values (rs_header (del_header k w)) k' = (if k' = k then [] else header_values (rs_header w) k')"
  "header_values (rs_header (SetCookie c w)) k' = header_values (rs_header w) k'"
  "header_values (rs_header new_response) k' = []"
  by (simp_all add: header_values_def set_header_def add_header_def del_header_def SetCookie_def
      new_response_def empty_header_def)

lemma new_response_simps [simp]: "rs_sent new_response = None" "rs_body new_response = []"
    "rs_recorded new_response = 200" "hd_cookies (rs_header new_response) = []"
  by (simp_all add: new_response_def empty_header_def)

text \<open>Once the header is sent, its status and its fields stay what they are.\<close>

lemma sent_is_final:
  "rs_sent w = Some x \<Longrightarrow> rs_sent (WriteHeader code w) = Some x \<and> rs_sent (write_body bs w) = Some x \<and>
     rs_sent (http_Error msg code w) = Some x \<and> rs_sent (SetCookie c w) = Some x"
  by (simp add: http_Error_def)

lemma finish_sent: "rs_sent w = Some (code, h) \<Longrightarrow>
    finish r w = \<lparr>rp_status = code, rp_header = h, rp_body = (if is_head r then [] else rs_body w)\<rparr>"
  by (simp add: finish_def)

lemma finish_unsent: "rs_sent w = None \<Longrightarrow>
    finish r w = \<lparr>rp_status = 200, rp_header = rs_header w, rp_body = (if is_head r then [] else rs_body w)\<rparr>"
  by (simp add: finish_def)

section \<open>JSON\<close>

datatype json =
    JNull
  | JBool bool
  | JNum int
  | JStr string
  | JArr "json list"
  | JObj "(string \<times> json) list"

text \<open>
  The escapes of \<open>json.Encoder\<close> with its default HTML escaping. A byte that is no UTF-8 is
  replaced by the escape of U+FFFD.
\<close>

definition json_ascii :: "char \<Rightarrow> string" where
  "json_ascii c =
     (if c = CHR 0x22 \<or> c = CHR 0x5C then [CHR 0x5C, c]
      else if c = CHR 0x08 then [CHR 0x5C, CHR ''b''] else if c = CHR 0x0C then [CHR 0x5C, CHR ''f'']
      else if c = CHR 0x0A then [CHR 0x5C, CHR ''n''] else if c = CHR 0x0D then [CHR 0x5C, CHR ''r'']
      else if c = CHR 0x09 then [CHR 0x5C, CHR ''t'']
      else if of_char c < (32::nat) \<or> c \<in> {CHR ''<'', CHR ''>'', CHR ''&''}
      then [CHR 0x5C, CHR ''u'', CHR ''0'', CHR ''0''] @ hex_encode [c]
      else [c])"

function json_escape :: "string \<Rightarrow> string" where
  "json_escape s = (case s of [] \<Rightarrow> []
     | c # cs \<Rightarrow>
        (if rune_len s = 0 then CHR 0x5C # ''ufffd'' @ json_escape cs
         else if rune_len s = 1 then json_ascii c @ json_escape cs
         else (let u = take (rune_len s) s in
            (if u = [CHR 0xE2, CHR 0x80, CHR 0xA8] then CHR 0x5C # ''u2028''
             else if u = [CHR 0xE2, CHR 0x80, CHR 0xA9] then CHR 0x5C # ''u2029'' else u) @
            json_escape (drop (rune_len s) s))))"
  by pat_completeness auto
termination
  by (relation "measure length") (auto simp: diff_less)

declare json_escape.simps [simp del]

definition json_quote :: "string \<Rightarrow> string" where
  "json_quote s = CHR 0x22 # json_escape s @ [CHR 0x22]"

fun json_encode :: "json \<Rightarrow> string" where
  "json_encode JNull = ''null''"
| "json_encode (JBool b) = (if b then ''true'' else ''false'')"
| "json_encode (JNum i) = Itoa i"
| "json_encode (JStr s) = json_quote s"
| "json_encode (JArr js) = CHR ''['' # join '','' (map json_encode js) @ '']''"
| "json_encode (JObj kvs) =
     CHR ''{'' # join '','' (map (\<lambda>(k, j). json_quote k @ '':'' @ json_encode j) kvs) @ ''}''"

end
