(* ===== verification/Go_Url.thy ===== *)
theory Go_Url
  imports Go_Strings
begin

text \<open>
  The part of Go's \<open>net/url\<close> that gopaste prints with: percent-encoding in the modes it uses,
  \<open>Userinfo.String\<close>, and \<open>Values.Encode\<close>. Decoding is here as the reference the encoder is
  proved against. \<open>url.Parse\<close> is not modelled: its callers take it as a parameter.
\<close>

section \<open>Percent-encoding\<close>

datatype enc_mode = EncodePath | EncodeUserPassword | EncodeHost | EncodeQueryComponent

definition is_alnum :: "char \<Rightarrow> bool" where
  "is_alnum c \<longleftrightarrow> byte_in (CHR ''a'') (CHR ''z'') c \<or> byte_in (CHR ''A'') (CHR ''Z'') c \<or>
     byte_in (CHR ''0'') (CHR ''9'') c"

definition shouldEscape :: "enc_mode \<Rightarrow> char \<Rightarrow> bool" where
  "shouldEscape mode c =
     (if is_alnum c then False
      else if mode = EncodeHost \<and> c \<in> set (''!$&()*+,;=:[]<>'' @ [CHR 0x22, CHR 0x27]) then False
      else if c \<in> set ''-_.~'' then False
      else if c \<in> set ''$&+,/:;=?@'' then
        (case mode of
           EncodePath \<Rightarrow> c = CHR ''?''
         | EncodeUserPassword \<Rightarrow> c \<in> set ''@/?:''
         | EncodeQueryComponent \<Rightarrow> True
         | EncodeHost \<Rightarrow> True)
      else True)"

definition upper_hex :: string where
  "upper_hex = ''0123456789ABCDEF''"

fun escape :: "enc_mode \<Rightarrow> string \<Rightarrow> string" where
  "escape mode [] = []"
| "escape mode (c # cs) =
     (if c = CHR '' '' \<and> mode = EncodeQueryComponent then CHR ''+'' # escape mode cs
      else if shouldEscape mode c then
        (let n = of_char c in CHR ''%'' # upper_hex ! (n div 16) # upper_hex ! (n mod 16) # escape mode cs)
      else c # escape mode cs)"

lemma length_upper_hex [simp]: "length upper_hex = 16"
  by (simp add: upper_hex_def)

definition unhex :: "char \<Rightarrow> nat option" where
  "unhex c = index_byte upper_hex c"

fun unescape :: "enc_mode \<Rightarrow> string \<Rightarrow> string option" where
  "unescape mode [] = Some []"
| "unescape mode (c # cs) =
     (if c = CHR ''%'' then
        (case cs of
           a # b # r \<Rightarrow> (case (unhex a, unhex b) of
               (Some x, Some y) \<Rightarrow> map_option (\<lambda>t. char_of (16 * x + y) # t) (unescape mode r)
             | _ \<Rightarrow> None)
         | _ \<Rightarrow> None)
      else if c = CHR ''+'' \<and> mode = EncodeQueryComponent
      then map_option (\<lambda>t. CHR '' '' # t) (unescape mode cs)
      else map_option (\<lambda>t. c # t) (unescape mode cs))"

lemma unhex_upper_hex: "n < 16 \<Longrightarrow> unhex (upper_hex ! n) = Some n"
proof -
  have "\<forall>n \<in> set [0..<16]. unhex (upper_hex ! n) = Some n"
    by (simp add: upt_rec unhex_def upper_hex_def)
  then show "n < 16 \<Longrightarrow> unhex (upper_hex ! n) = Some n" by simp
qed

lemma char_of_nibbles: "char_of (16 * (of_char c div 16) + of_char c mod (16::nat)) = c"
proof -
  have "16 * (of_char c div 16) + of_char c mod (16::nat) = of_char c" by simp
  then show ?thesis by simp
qed

lemma shouldEscape_percent [simp]: "shouldEscape mode (CHR ''%'')"
  by (simp add: shouldEscape_def is_alnum_def less_eq_char_def)

lemma shouldEscape_plus [simp]: "shouldEscape EncodeQueryComponent (CHR ''+'')"
  by (simp add: shouldEscape_def is_alnum_def less_eq_char_def)

lemma unescape_escape: "unescape mode (escape mode s) = Some s"
proof (induction s)
  case Nil
  show ?case by simp
next
  case (Cons c cs)
  have "(of_char c :: nat) div 16 < 16" and "(of_char c :: nat) mod 16 < 16"
    using of_char_less_256 [of c] by linarith+
  then show ?case
    using Cons.IH char_of_nibbles [of c] shouldEscape_percent [of mode] shouldEscape_plus
    by (auto simp: Let_def unhex_upper_hex)
qed

text \<open>An encoded string holds, beside the escapes, only characters that need no escape.\<close>

lemma set_escape:
  "c \<in> set (escape mode s) \<Longrightarrow>
   c = CHR ''%'' \<or> c \<in> set upper_hex \<or> c = CHR ''+'' \<and> mode = EncodeQueryComponent \<or> \<not> shouldEscape mode c"
proof (induction s)
  case Nil
  then show ?case by simp
next
  case (Cons x xs)
  have "(of_char x :: nat) div 16 < 16" and "(of_char x :: nat) mod 16 < 16"
    using of_char_less_256 [of x] by linarith+
  then have "upper_hex ! (of_char x div 16) \<in> set upper_hex" "upper_hex ! (of_char x mod 16) \<in> set upper_hex"
    by simp_all
  with Cons show ?case by (auto simp: Let_def split: if_splits)
qed

section \<open>User information and query strings\<close>

datatype userinfo = Userinfo (ui_username: string) (ui_password: "string option")

definition userinfo_String :: "userinfo \<Rightarrow> string" where
  "userinfo_String u = escape EncodeUserPassword (ui_username u) @
     (case ui_password u of None \<Rightarrow> [] | Some pw \<Rightarrow> CHR '':'' # escape EncodeUserPassword pw)"

text \<open>\<open>Values.Encode\<close>: the keys in order, each with its value.\<close>

definition values_Encode :: "(string \<times> string) list \<Rightarrow> string" where
  "values_Encode vs = join ''&''
     (map (\<lambda>(k, v). escape EncodeQueryComponent k @ ''='' @ escape EncodeQueryComponent v) (sort_key fst vs))"

lemma escape_user_free:
  "c \<in> set (escape EncodeUserPassword s) \<Longrightarrow> c \<noteq> CHR ''@'' \<and> c \<noteq> CHR '':'' \<and> c \<noteq> CHR ''/'' \<and> c \<noteq> CHR ''?''"
  using set_escape [of c EncodeUserPassword s]
  by (auto simp: shouldEscape_def is_alnum_def less_eq_char_def upper_hex_def)

text \<open>The text before the first \<open>@\<close> is the whole user information.\<close>

lemma userinfo_no_at: "CHR ''@'' \<notin> set (userinfo_String u)"
  by (auto simp: userinfo_String_def split: option.splits dest: escape_user_free)

lemma userinfo_split:
  assumes "ui_password u = Some pw"
  shows "cut_byte (userinfo_String u) (CHR '':'') =
     (escape EncodeUserPassword (ui_username u), escape EncodeUserPassword pw, True)"
proof -
  have "CHR '':'' \<notin> set (escape EncodeUserPassword (ui_username u))"
    using escape_user_free by blast
  with assms show ?thesis by (simp add: userinfo_String_def cut_byte_app)
qed

end
