(* ===== verification/Auth.thy ===== *)
theory Auth
  imports Config Session Go_Http Go_Url
begin

text \<open>
  \<open>internal/auth/auth.go\<close>: the manager, the session cookie, the gates of the console.

  The HMAC, bcrypt and the OIDC client are parameters, gathered in \<open>auth_lib\<close>. A handler takes
  the request, the response writer and the state, and returns how it ended with both; the state
  is a record that the server's state extends, so that the gates wrap any handler.
\<close>

section \<open>Parameters\<close>

text \<open>A claim of an ID token, as Go's JSON decoder delivers it in an \<open>any\<close>.\<close>

datatype claim = CStr string | CList "claim list" | CStrings "string list" | COther

record idToken =
  tk_Nonce :: string
  tk_Claims :: "(string \<Rightarrow> claim option) option" \<comment> \<open>\<open>None\<close>: they do not decode\<close>

text \<open>
  \<open>al_exchange code pkce\<close>: \<open>None\<close> is a failure, otherwise the raw ID token if the answer has one.
  \<open>al_verify\<close> checks signature, audience and expiry. \<open>al_verifier\<close> makes a PKCE verifier,
  \<open>al_authURL\<close> the provider's address for a state, a nonce and a verifier.
\<close>

record 'r auth_lib =
  al_rand :: "'r rand_bytes"
  al_hmac :: "string \<Rightarrow> string \<Rightarrow> bytes32"
  al_bcrypt :: "string \<Rightarrow> string \<Rightarrow> bool"
  al_exchange :: "string \<Rightarrow> string \<Rightarrow> string option option"
  al_verify :: "string \<Rightarrow> idToken option"
  al_verifier :: "'r \<Rightarrow> string or_panic \<times> 'r"
  al_authURL :: "string \<Rightarrow> string \<Rightarrow> string \<Rightarrow> string"

section \<open>The manager\<close>

record oidcProvider =
  oc_cfg :: OIDCAuth
  oc_endSessionURL :: string

record localProvider =
  lp_admins :: "(string, string) fmap"
  lp_dummyHash :: string

text \<open>The session table, which \<open>New\<close> also makes, is in the state.\<close>

record manager =
  am_cfg :: Auth
  am_hmacKey :: string
  am_oidc :: "oidcProvider option"
  am_local :: "localProvider option"

record 'r auth_state =
  at_sessions :: sessionStore
  at_rng :: 'r

type_synonym ('r, 'x) http_handler =
  "http_request \<Rightarrow> response \<Rightarrow> ('r, 'x) auth_state_scheme \<Rightarrow> outcome \<times> response \<times> ('r, 'x) auth_state_scheme"

definition Enabled :: "manager \<Rightarrow> bool" where
  "Enabled m = Auth_Enabled (am_cfg m)"

definition LocalMode :: "manager \<Rightarrow> bool" where
  "LocalMode m \<longleftrightarrow> am_oidc m = None \<and> am_local m \<noteq> None"

definition manager_ttl :: "manager \<Rightarrow> int" where
  "manager_ttl m = wrap64 (au_SessionTTL (am_cfg m) * 1000000000)"

definition sessionCookie :: string where "sessionCookie = ''gopaste_admin''"
definition cookiePath :: string where "cookiePath = ''/admin''"
definition tempCookieTTL :: int where "tempCookieTTL = 10 * 60 * 1000000000"

section \<open>Cookies\<close>

definition sign :: "'r auth_lib \<Rightarrow> manager \<Rightarrow> string \<Rightarrow> string" where
  "sign lib m v = b64url_encode (bytes32_slice (al_hmac lib (am_hmacKey m) v))"

definition setSessionCookie ::
  "'r auth_lib \<Rightarrow> manager \<Rightarrow> int \<Rightarrow> string \<Rightarrow> int \<Rightarrow> response \<Rightarrow> response" where
  "setSessionCookie lib m now sid expiry = SetCookie \<lparr>
     ck_Name = sessionCookie,
     ck_Value = sid @ ''.'' @ sign lib m sid,
     ck_Path = cookiePath,
     ck_Expires = Some expiry,
     ck_MaxAge = go_div (expiry - now) 1000000000,
     ck_HttpOnly = True,
     ck_Secure = True,
     ck_SameSiteLax = True\<rparr>"

definition dead_cookie :: "string \<Rightarrow> cookie" where
  "dead_cookie name = \<lparr>ck_Name = name, ck_Value = [], ck_Path = cookiePath, ck_Expires = None,
     ck_MaxAge = -1, ck_HttpOnly = True, ck_Secure = True, ck_SameSiteLax = True\<rparr>"

definition clearSessionCookie :: "response \<Rightarrow> response" where
  "clearSessionCookie = SetCookie (dead_cookie sessionCookie)"

definition readSessionCookie :: "'r auth_lib \<Rightarrow> manager \<Rightarrow> http_request \<Rightarrow> string option" where
  "readSessionCookie lib m r = (case cookie_get r sessionCookie of
      None \<Rightarrow> None
    | Some v \<Rightarrow> (let (sid, sig, found) = cut_byte v (CHR ''.'')
        in if \<not> found \<or> sid = [] then None else if sig \<noteq> sign lib m sid then None else Some sid))"

definition setTempCookie :: "string \<Rightarrow> string \<Rightarrow> response \<Rightarrow> response" where
  "setTempCookie name val = SetCookie \<lparr>
     ck_Name = name, ck_Value = val, ck_Path = cookiePath, ck_Expires = None,
     ck_MaxAge = go_div tempCookieTTL 1000000000,
     ck_HttpOnly = True, ck_Secure = True, ck_SameSiteLax = True\<rparr>"

definition readTempCookie :: "http_request \<Rightarrow> string \<Rightarrow> string" where
  "readTempCookie r name = (case cookie_get r name of None \<Rightarrow> [] | Some v \<Rightarrow> v)"

definition clearTempCookie :: "string \<Rightarrow> response \<Rightarrow> response" where
  "clearTempCookie name = SetCookie (dead_cookie name)"

section \<open>Sessions of requests\<close>

definition startSession ::
  "'r auth_lib \<Rightarrow> manager \<Rightarrow> int \<Rightarrow> Identity \<Rightarrow> response \<Rightarrow> ('r, 'x) auth_state_scheme
     \<Rightarrow> outcome \<times> response \<times> ('r, 'x) auth_state_scheme" where
  "startSession lib m now ident w st =
     (case create (al_rand lib) now ident (manager_ttl m) (at_sessions st) (at_rng st) of
        (Inl p, ss, rng) \<Rightarrow> (Panics p, w, st\<lparr>at_sessions := ss, at_rng := rng\<rparr>)
      | (Inr (sid, expiry), ss, rng) \<Rightarrow>
          (Returns, setSessionCookie lib m now sid expiry w, st\<lparr>at_sessions := ss, at_rng := rng\<rparr>))"

definition authed ::
  "'r auth_lib \<Rightarrow> manager \<Rightarrow> int \<Rightarrow> http_request \<Rightarrow> ('r, 'x) auth_state_scheme
     \<Rightarrow> (Identity \<times> int) option \<times> ('r, 'x) auth_state_scheme" where
  "authed lib m now r st = (case readSessionCookie lib m r of
      None \<Rightarrow> (None, st)
    | Some sid \<Rightarrow> (let (found, ss) = get now sid (at_sessions st) in (found, st\<lparr>at_sessions := ss\<rparr>)))"

definition manager_Identity ::
  "'r auth_lib \<Rightarrow> manager \<Rightarrow> int \<Rightarrow> http_request \<Rightarrow> ('r, 'x) auth_state_scheme
     \<Rightarrow> Identity option \<times> ('r, 'x) auth_state_scheme" where
  "manager_Identity lib m now r st = (let (found, st) = authed lib m now r st in (map_option fst found, st))"

definition GateUI ::
  "'r auth_lib \<Rightarrow> manager \<Rightarrow> int \<Rightarrow> ('r, 'x) http_handler \<Rightarrow> ('r, 'x) http_handler" where
  "GateUI lib m now next_h r w st = (case authed lib m now r st of
      (None, st) \<Rightarrow> (Returns, NotFound w, st)
    | (Some _, st) \<Rightarrow> next_h r w st)"

definition GateAPI ::
  "'r auth_lib \<Rightarrow> manager \<Rightarrow> int \<Rightarrow> ('r, 'x) http_handler \<Rightarrow> ('r, 'x) http_handler" where
  "GateAPI lib m now next_h r w st = (case authed lib m now r st of
      (None, st) \<Rightarrow>
        (Returns,
         write_body (json_encode (JObj [(''message'', JStr ''Unauthorized.'')]))
           (WriteHeader 401 (set_header ''Content-Type'' ''application/json'' w)), st)
    | (Some _, st) \<Rightarrow> next_h r w st)"

section \<open>Reading back the cookie\<close>

lemma sign_no_dot: "CHR ''.'' \<notin> set (sign lib m v)"
  by (simp add: sign_def b64url_no_dot)

lemma cut_signed: "CHR ''.'' \<notin> set sid \<Longrightarrow> cut_byte (sid @ ''.'' @ s) (CHR ''.'') = (sid, s, True)"
  by (simp add: cut_byte_app)

lemma readSessionCookie_iff:
  "readSessionCookie lib m r = Some sid \<longleftrightarrow>
   sid \<noteq> [] \<and> CHR ''.'' \<notin> set sid \<and> cookie_get r sessionCookie = Some (sid @ ''.'' @ sign lib m sid)"
proof (cases "cookie_get r sessionCookie")
  case None
  then show ?thesis by (simp add: readSessionCookie_def)
next
  case (Some v)
  obtain p q found where c: "cut_byte v (CHR ''.'') = (p, q, found)" by (cases "cut_byte v (CHR ''.'')")
  show ?thesis
  proof
    assume "readSessionCookie lib m r = Some sid"
    with Some c show "sid \<noteq> [] \<and> CHR ''.'' \<notin> set sid \<and>
        cookie_get r sessionCookie = Some (sid @ ''.'' @ sign lib m sid)"
      by (auto simp: readSessionCookie_def split: if_splits dest!: cut_byte_TrueD)
  next
    assume "sid \<noteq> [] \<and> CHR ''.'' \<notin> set sid \<and> cookie_get r sessionCookie = Some (sid @ ''.'' @ sign lib m sid)"
    with cut_signed [of sid "sign lib m sid"] show "readSessionCookie lib m r = Some sid"
      by (simp add: readSessionCookie_def)
  qed
qed

lemma authed_eq: "authed lib m now r st = (case readSessionCookie lib m r of
      None \<Rightarrow> (None, st)
    | Some sid \<Rightarrow> (fst (get now sid (at_sessions st)), st\<lparr>at_sessions := snd (get now sid (at_sessions st))\<rparr>))"
  by (simp add: authed_def case_prod_beta Let_def split: option.split)

lemma authed_state [simp]:
  "at_rng (snd (authed lib m now r st)) = at_rng st"
  "auth_state.more (snd (authed lib m now r st)) = auth_state.more st"
  "now \<le> t \<Longrightarrow> live_session t (at_sessions (snd (authed lib m now r st))) sid = live_session t (at_sessions st) sid"
  by (simp_all add: authed_eq split: option.split)

lemma authed_iff:
  "fst (authed lib m now r st) = Some (ident, expiry) \<longleftrightarrow>
   (\<exists>sid. readSessionCookie lib m r = Some sid \<and>
      live_session now (at_sessions st) sid = Some \<lparr>ss_identity = ident, ss_expiry = expiry\<rparr>)"
proof (cases "readSessionCookie lib m r")
  case None
  then show ?thesis by (simp add: authed_def)
next
  case (Some sid)
  then have "fst (authed lib m now r st) =
      map_option (\<lambda>ss. (ss_identity ss, ss_expiry ss)) (live_session now (at_sessions st) sid)"
    by (simp add: authed_eq get_live_session)
  with Some show ?thesis
    by (cases "live_session now (at_sessions st) sid") auto
qed

text \<open>The sid of a live session, if the request carries one.\<close>

definition admin_session ::
  "'r auth_lib \<Rightarrow> manager \<Rightarrow> int \<Rightarrow> http_request \<Rightarrow> sessionStore \<Rightarrow> session option" where
  "admin_session lib m now r ss =
     (case readSessionCookie lib m r of None \<Rightarrow> None | Some sid \<Rightarrow> live_session now ss sid)"

lemma authed_admin:
  "admin_session lib m now r (at_sessions st) = Some ss \<Longrightarrow>
   authed lib m now r st = (Some (ss_identity ss, ss_expiry ss), st)"
  by (auto simp: admin_session_def authed_def get_def live_session_def split: option.splits if_splits)

lemma authed_none:
  "admin_session lib m now r (at_sessions st) = None \<Longrightarrow> fst (authed lib m now r st) = None"
  by (auto simp: admin_session_def authed_eq get_live_session split: option.splits)

lemma startSession_InrD:
  assumes "startSession lib m now ident w st = (Returns, w', st')"
  obtains sid where "CHR ''.'' \<notin> set sid" and "sid \<noteq> []"
    and "w' = setSessionCookie lib m now sid (now + manager_ttl m) w"
    and "at_sessions st' = register sid ident (now + manager_ttl m) now (at_sessions st)"
    and "auth_state.more st' = auth_state.more st"
proof -
  obtain x ss rng where c: "create (al_rand lib) now ident (manager_ttl m) (at_sessions st) (at_rng st) = (x, ss, rng)"
    by (cases "create (al_rand lib) now ident (manager_ttl m) (at_sessions st) (at_rng st)")
  with assms obtain sid expiry where x: "x = Inr (sid, expiry)"
    and w: "w' = setSessionCookie lib m now sid expiry w"
    and st: "st' = st\<lparr>at_sessions := ss, at_rng := rng\<rparr>"
    by (auto simp: startSession_def split: sum.splits)
  from create_InrD [OF c [unfolded x]] have d: "expiry = now + manager_ttl m"
    "ss = register sid ident (now + manager_ttl m) now (at_sessions st)" "CHR ''.'' \<notin> set sid" "sid \<noteq> []"
    by simp_all
  show thesis by (rule that [OF d(3,4)]) (simp_all add: w st d)
qed

lemma startSession_outcome:
  "startSession lib m now ident w st = (res, w', st') \<Longrightarrow> res \<noteq> Returns \<Longrightarrow>
   w' = w \<and> at_sessions st' = at_sessions st"
  by (auto simp: startSession_def split: prod.splits sum.splits dest: create_InlD)

lemma startSession_never_hangs: "fst (startSession lib m now ident w st) \<noteq> Hangs"
  by (simp add: startSession_def split: prod.split sum.split)

text \<open>
  \<open>admits \<dots> ident ss c\<close>: until the lifetime of a session started at \<open>now\<close> has passed, a request
  that carries the cookie \<open>c\<close> is admitted as \<open>ident\<close>. This is what \<open>startSession\<close> achieves.
\<close>

definition admits :: "'r auth_lib \<Rightarrow> manager \<Rightarrow> int \<Rightarrow> Identity \<Rightarrow> sessionStore \<Rightarrow> cookie \<Rightarrow> bool" where
  "admits lib m now ident ss c \<longleftrightarrow> ck_Name c = sessionCookie \<and> ck_HttpOnly c \<and> ck_Secure c \<and>
     (\<forall>t r. now \<le> t \<and> t \<le> now + manager_ttl m \<and> cookie_get r sessionCookie = Some (ck_Value c) \<longrightarrow>
        map_option ss_identity (admin_session lib m t r ss) = Some ident)"

lemma startSession_admits:
  assumes "startSession lib m now ident w st = (Returns, w', st')"
  obtains c where "hd_cookies (rs_header w') = hd_cookies (rs_header w) @ [c]" and "rs_sent w' = rs_sent w"
    and "admits lib m now ident (at_sessions st') c"
proof -
  from startSession_InrD [OF assms] obtain sid where sid: "CHR ''.'' \<notin> set sid" "sid \<noteq> []"
    and w: "w' = setSessionCookie lib m now sid (now + manager_ttl m) w"
    and st: "at_sessions st' = register sid ident (now + manager_ttl m) now (at_sessions st)"
    by blast
  have "admin_session lib m t r (at_sessions st') = Some \<lparr>ss_identity = ident, ss_expiry = now + manager_ttl m\<rparr>"
    if "cookie_get r sessionCookie = Some (sid @ ''.'' @ sign lib m sid)" "now \<le> t" "t \<le> now + manager_ttl m"
    for t r
  proof -
    from that(1) sid have "readSessionCookie lib m r = Some sid" by (simp add: readSessionCookie_iff)
    with that(2,3) st show ?thesis by (simp add: admin_session_def)
  qed
  then show thesis
    by (intro that [of "\<lparr>ck_Name = sessionCookie, ck_Value = sid @ ''.'' @ sign lib m sid, ck_Path = cookiePath,
      ck_Expires = Some (now + manager_ttl m), ck_MaxAge = go_div (now + manager_ttl m - now) 1000000000,
      ck_HttpOnly = True, ck_Secure = True, ck_SameSiteLax = True\<rparr>"])
      (auto simp: w setSessionCookie_def admits_def)
qed

section \<open>Properties\<close>

definition no_lib :: "unit auth_lib" where
  "no_lib = \<lparr>al_rand = (\<lambda>r. (Some (Bytes32 (replicate 32 (CHR 0x07))), r)),
     al_hmac = (\<lambda>k v. Bytes32 (take 32 (k @ v @ replicate 32 (CHR 0x00)))),
     al_bcrypt = (=), al_exchange = (\<lambda>_ _. None), al_verify = (\<lambda>_. None),
     al_verifier = (\<lambda>r. (Inr ''v'', r)), al_authURL = (\<lambda>_ _ _. ''https://idp/'')\<rparr>"

definition plain_request :: http_request where
  "plain_request = \<lparr>rq_Method = ''GET'', rq_Host = ''paste.example'', rq_segments = [''admin''], rq_query = [],
     rq_header = [], rq_cookies = [], rq_RemoteAddr = ''10.0.0.1:999'', rq_body = ([], False),
     rq_form = Some [], rq_multipart = (\<lambda>_. None)\<rparr>"

text \<open>
  C37. The session cookie is tamper-proof up to the MAC: a session id is read from a request
  exactly when the request's cookie is that id, a dot, and the id's signature under the
  configured key; every other value, signed under another key or cut differently, reads as none.
\<close>

theorem session_cookie_read:
  "readSessionCookie lib m r = Some sid \<longleftrightarrow>
     sid \<noteq> [] \<and> CHR ''.'' \<notin> set sid \<and> cookie_get r sessionCookie = Some (sid @ ''.'' @ sign lib m sid)"
  by (rule readSessionCookie_iff)

text \<open>
  C7. The gates are complete: the guarded handler runs, on the state as it is, exactly for a
  request whose signed cookie names a live session; otherwise the UI answers 404, the API 401,
  without a cookie and without a body that depends on the handler, and no session changes its
  status.
\<close>

theorem gates:
  assumes "rs_sent w = None"
  shows "case admin_session lib m now r (at_sessions st) of
      Some ss \<Rightarrow> GateUI lib m now h r w st = h r w st \<and> GateAPI lib m now h r w st = h r w st
    | None \<Rightarrow>
        (\<exists>st' w1 w2. GateUI lib m now h r w st = (Returns, w1, st') \<and>
           GateAPI lib m now h r w st = (Returns, w2, st') \<and>
           rp_status (finish r w1) = 404 \<and> rp_status (finish r w2) = 401 \<and>
           hd_cookies (rp_header (finish r w1)) = hd_cookies (rs_header w) \<and>
           hd_cookies (rp_header (finish r w2)) = hd_cookies (rs_header w) \<and>
           auth_state.more st' = auth_state.more st \<and>
           (\<forall>t sid. now \<le> t \<longrightarrow> live_session t (at_sessions st') sid = live_session t (at_sessions st) sid))"
proof (cases "admin_session lib m now r (at_sessions st)")
  case (Some ss)
  from authed_admin [OF this] show ?thesis by (simp add: Some GateUI_def GateAPI_def)
next
  case None
  obtain st' where a: "authed lib m now r st = (None, st')"
    using authed_none [OF None] by (cases "authed lib m now r st") simp
  then have "auth_state.more st' = auth_state.more st"
    and "\<And>t sid. now \<le> t \<Longrightarrow> live_session t (at_sessions st') sid = live_session t (at_sessions st) sid"
    using authed_state [where lib = lib and m = m and now = now and r = r and st = st] by simp_all
  with a assms None show ?thesis
    by (simp add: GateUI_def GateAPI_def NotFound_def http_Error_def finish_def)
qed

lemma gates_witness:
  "\<exists>st' w1. GateUI no_lib \<lparr>am_cfg = zero_Auth, am_hmacKey = [], am_oidc = None, am_local = None\<rparr> 5
      (\<lambda>r w st. (Returns, w, st)) plain_request new_response \<lparr>at_sessions = newSessionStore, at_rng = ()\<rparr>
    = (Returns, w1, st') \<and> rp_status (finish plain_request w1) = 404"
  using gates [where w = new_response and lib = no_lib and now = 5 and r = plain_request
      and m = "\<lparr>am_cfg = zero_Auth, am_hmacKey = [], am_oidc = None, am_local = None\<rparr>"
      and st = "\<lparr>at_sessions = newSessionStore, at_rng = ()\<rparr>" and h = "\<lambda>r w st. (Returns, w, st)"]
  by (auto simp: admin_session_def readSessionCookie_def cookie_get_def plain_request_def)

end
