(* ===== verification/Login.thy ===== *)
theory Login
  imports Auth
begin

text \<open>
  The two ways to sign in, \<open>internal/auth/local.go\<close> and \<open>internal/auth/oidc.go\<close>, and the routes
  of \<open>internal/auth/auth.go\<close> that dispatch to them. Every way a login can fail is a branch of
  \<open>submit\<close> or \<open>callback\<close>.
\<close>

section \<open>Local credentials\<close>

text \<open>\<open>dummy\<close> is the bcrypt hash made of a fresh token; a later admin of the same name wins.\<close>

definition newLocal :: "string \<Rightarrow> LocalAuth \<Rightarrow> localProvider" where
  "newLocal dummy cfg = \<lparr>
     lp_admins = fold (\<lambda>a. fmupd (la_Username a) (la_PasswordHash a)) (lo_Admins cfg) fmempty,
     lp_dummyHash = dummy\<rparr>"

definition htmlEscape :: "string \<Rightarrow> string" where
  "htmlEscape s = concat (map (\<lambda>c.
     if c = CHR ''<'' then ''&lt;'' else if c = CHR ''>'' then ''&gt;''
     else if c = CHR ''&'' then ''&amp;'' else [c]) s)"

definition login_head :: string where
  "login_head =
     ''<!doctype html><html><head><meta charset=\"utf-8\"><title>gopaste admin</title>'' @
     ''<meta name=\"robots\" content=\"noindex,nofollow\"><link rel=\"stylesheet\" href=\"/auth.css\"></head>'' @
     ''<body class=\"auth-body\">'' @
     ''<form class=\"auth-card\" method=\"post\" action=\"/admin/login\">'' @
     ''<h1 class=\"auth-title\">gopaste // admin</h1>''"

definition login_tail :: string where
  "login_tail =
     ''<input class=\"auth-input\" name=\"username\" placeholder=\"username\" autocomplete=\"username\" autofocus>'' @
     ''<input class=\"auth-input last\" name=\"password\" type=\"password\" placeholder=\"password\" autocomplete=\"current-password\">'' @
     ''<button class=\"auth-btn\" type=\"submit\">Sign in</button>'' @
     ''</form></body></html>''"

definition loginForm :: "string \<Rightarrow> response \<Rightarrow> response" where
  "loginForm msg w =
     (let w = set_header ''Content-Type'' ''text/html; charset=utf-8'' w;
          banner = (if msg \<noteq> [] then ''<p class=\"auth-err\">'' @ htmlEscape msg @ ''</p>'' else [])
      in write_body (login_head @ banner @ login_tail) w)"

definition login_fail :: "response \<Rightarrow> response" where
  "login_fail w = loginForm ''Invalid credentials.'' (WriteHeader 401 w)"

definition submit :: "'r auth_lib \<Rightarrow> localProvider \<Rightarrow> manager \<Rightarrow> int \<Rightarrow> ('r, 'x) http_handler" where
  "submit lib p m now r w st =
     (case rq_form r of
        None \<Rightarrow> (Returns, loginForm ''Bad request.'' w, st)
      | Some form \<Rightarrow>
          let user = first_value form ''username''; pass = first_value form ''password''
          in case fmlookup (lp_admins p) user of
               None \<Rightarrow> (Returns, login_fail w, st)
             | Some hash \<Rightarrow>
                 if \<not> al_bcrypt lib hash pass then (Returns, login_fail w, st)
                 else and_then
                   (startSession lib m now \<lparr>id_User = user, id_Email = [], id_Groups = [''local-admin'']\<rparr> w st)
                   (\<lambda>w st. (Returns, Redirect r ''/admin'' w, st)))"

section \<open>OIDC\<close>

definition stateCookie :: string where "stateCookie = ''gp_oidc_state''"
definition nonceCookie :: string where "nonceCookie = ''gp_oidc_nonce''"
definition pkceCookie :: string where "pkceCookie = ''gp_oidc_pkce''"

text \<open>
  \<open>discover issuer\<close> is the discovery document's \<open>end_session_endpoint\<close>, empty when it has none;
  \<open>None\<close> when discovery fails.
\<close>

datatype auth_error = OIDCDiscovery string

definition newOIDC :: "(string \<Rightarrow> string option) \<Rightarrow> OIDCAuth \<Rightarrow> auth_error + oidcProvider" where
  "newOIDC discover cfg = (case discover (oi_Issuer cfg) of
      None \<Rightarrow> Inl (OIDCDiscovery (oi_Issuer cfg))
    | Some endSession \<Rightarrow> Inr \<lparr>oc_cfg = cfg, oc_endSessionURL = endSession\<rparr>)"

text \<open>\<open>login\<close>: three secrets, three cookies, one redirect.\<close>

definition oidc_login :: "'r auth_lib \<Rightarrow> ('r, 'x) http_handler" where
  "oidc_login lib r w st =
     (case randomToken (al_rand lib) (at_rng st) of
        (Inl p, rng) \<Rightarrow> (Panics p, w, st\<lparr>at_rng := rng\<rparr>)
      | (Inr state, rng) \<Rightarrow> (case randomToken (al_rand lib) rng of
        (Inl p, rng) \<Rightarrow> (Panics p, w, st\<lparr>at_rng := rng\<rparr>)
      | (Inr nonce, rng) \<Rightarrow> (case al_verifier lib rng of
        (Inl p, rng) \<Rightarrow> (Panics p, w, st\<lparr>at_rng := rng\<rparr>)
      | (Inr pkce, rng) \<Rightarrow>
          let w = setTempCookie stateCookie state w;
              w = setTempCookie nonceCookie nonce w;
              w = setTempCookie pkceCookie pkce w
          in (Returns, Redirect r (al_authURL lib state nonce pkce) w, st\<lparr>at_rng := rng\<rparr>))))"

text \<open>A claim that is absent is Go's \<open>nil\<close>.\<close>

fun stringSlice :: "claim option \<Rightarrow> string list" where
  "stringSlice (Some (CStrings ss)) = ss"
| "stringSlice (Some (CList cs)) = concat (map (\<lambda>c. case c of CStr s \<Rightarrow> [s] | _ \<Rightarrow> []) cs)"
| "stringSlice (Some (CStr s)) = [s]"
| "stringSlice _ = []"

fun claimStr :: "(string \<Rightarrow> claim option) \<Rightarrow> string list \<Rightarrow> string" where
  "claimStr claims [] = []"
| "claimStr claims (k # ks) = (case claims k of
      Some (CStr s) \<Rightarrow> if s \<noteq> [] then s else claimStr claims ks
    | _ \<Rightarrow> claimStr claims ks)"

fun contains :: "string list \<Rightarrow> string \<Rightarrow> bool" where
  "contains [] want = False"
| "contains (g # gs) want = (g = want \<or> contains gs want)"

lemma contains_iff: "contains gs want \<longleftrightarrow> want \<in> set gs"
  by (induction gs) auto

definition forbid :: "string \<Rightarrow> response \<Rightarrow> response" where
  "forbid msg = http_Error msg 403"

definition callback_body ::
  "'r auth_lib \<Rightarrow> oidcProvider \<Rightarrow> manager \<Rightarrow> int \<Rightarrow> ('r, 'x) http_handler" where
  "callback_body lib p m now r w st =
     (if first_value (rq_query r) ''error'' \<noteq> [] then (Returns, forbid ''authentication failed'' w, st)
      else let state = readTempCookie r stateCookie
      in if state = [] \<or> first_value (rq_query r) ''state'' \<noteq> state then (Returns, forbid ''invalid state'' w, st)
      else let pkce = readTempCookie r pkceCookie
      in case al_exchange lib (first_value (rq_query r) ''code'') pkce of
        None \<Rightarrow> (Returns, forbid ''authentication failed'' w, st)
      | Some None \<Rightarrow> (Returns, forbid ''no id_token'' w, st)
      | Some (Some rawID) \<Rightarrow> (case al_verify lib rawID of
        None \<Rightarrow> (Returns, forbid ''authentication failed'' w, st)
      | Some idtok \<Rightarrow>
          if tk_Nonce idtok \<noteq> readTempCookie r nonceCookie then (Returns, forbid ''invalid nonce'' w, st)
          else (case tk_Claims idtok of
            None \<Rightarrow> (Returns, forbid ''bad claims'' w, st)
          | Some claims \<Rightarrow>
              let groups = stringSlice (claims (oi_GroupsClaim (oc_cfg p)))
              in if \<not> contains groups (oi_AdminGroup (oc_cfg p)) then (Returns, NotFound w, st)
                 else and_then
                   (startSession lib m now
                     \<lparr>id_User = claimStr claims [''preferred_username'', ''email'', ''sub''],
                      id_Email = claimStr claims [''email''], id_Groups = groups\<rparr> w st)
                   (\<lambda>w st. (Returns, Redirect r ''/admin'' w, st)))))"

text \<open>The deferred function runs when the body has ended, whichever way.\<close>

definition callback :: "'r auth_lib \<Rightarrow> oidcProvider \<Rightarrow> manager \<Rightarrow> int \<Rightarrow> ('r, 'x) http_handler" where
  "callback lib p m now r w st =
     (case callback_body lib p m now r w st of (res, w, st) \<Rightarrow>
        (res, clearTempCookie pkceCookie (clearTempCookie nonceCookie (clearTempCookie stateCookie w)), st))"

definition logoutURL :: "oidcProvider \<Rightarrow> string" where
  "logoutURL p =
     (if oc_endSessionURL p = [] \<or> oi_PostLogoutRedirectURL (oc_cfg p) = [] then []
      else oc_endSessionURL p @ ''?'' @ values_Encode
        [(''post_logout_redirect_uri'', oi_PostLogoutRedirectURL (oc_cfg p)), (''client_id'', oi_ClientID (oc_cfg p))])"

section \<open>The manager's routes\<close>

text \<open>The empty session table is the state's initial one. \<open>dummy\<close> as for \<open>newLocal\<close>.\<close>

definition auth_New :: "(string \<Rightarrow> string option) \<Rightarrow> string \<Rightarrow> Auth \<Rightarrow> auth_error + manager" where
  "auth_New discover dummy cfg =
     (let m = \<lparr>am_cfg = cfg, am_hmacKey = [], am_oidc = None, am_local = None\<rparr>
      in if \<not> Auth_Enabled cfg then Inr m
         else let m = m\<lparr>am_hmacKey := au_SessionKey cfg\<rparr>
         in if au_Mode cfg = ''oidc'' then
              (case newOIDC discover (au_OIDC cfg) of Inl e \<Rightarrow> Inl e | Inr p \<Rightarrow> Inr (m\<lparr>am_oidc := Some p\<rparr>))
            else Inr (m\<lparr>am_local := Some (newLocal dummy (au_Local cfg))\<rparr>))"

definition auth_Login :: "'r auth_lib \<Rightarrow> manager \<Rightarrow> ('r, 'x) http_handler" where
  "auth_Login lib m r w st =
     (case am_oidc m of
        Some p \<Rightarrow> oidc_login lib r w st
      | None \<Rightarrow> (case am_local m of
          Some p \<Rightarrow> (Returns, loginForm [] w, st)
        | None \<Rightarrow> (Returns, NotFound w, st)))"

definition LoginSubmit :: "'r auth_lib \<Rightarrow> manager \<Rightarrow> int \<Rightarrow> ('r, 'x) http_handler" where
  "LoginSubmit lib m now r w st =
     (case am_local m of None \<Rightarrow> (Returns, NotFound w, st) | Some p \<Rightarrow> submit lib p m now r w st)"

definition auth_Callback :: "'r auth_lib \<Rightarrow> manager \<Rightarrow> int \<Rightarrow> ('r, 'x) http_handler" where
  "auth_Callback lib m now r w st =
     (case am_oidc m of None \<Rightarrow> (Returns, NotFound w, st) | Some p \<Rightarrow> callback lib p m now r w st)"

definition renderLoggedOut :: "response \<Rightarrow> response" where
  "renderLoggedOut w = write_body
     (''<!doctype html><html><head><meta charset=\"utf-8\"><title>signed out</title>'' @
      ''<meta name=\"robots\" content=\"noindex,nofollow\"><link rel=\"stylesheet\" href=\"/auth.css\"></head>'' @
      ''<body class=\"auth-body\"><div class=\"auth-msg\">'' @
      ''<p>Signed out of the gopaste admin console.</p>'' @
      ''<p><a class=\"auth-link\" href=\"/admin/login\">Sign in again</a> &middot; '' @
      ''<a class=\"auth-link\" href=\"/\">Back to gopaste</a></p></div></body></html>'')
     (set_header ''Content-Type'' ''text/html; charset=utf-8'' w)"

definition auth_Logout :: "'r auth_lib \<Rightarrow> manager \<Rightarrow> int \<Rightarrow> ('r, 'x) http_handler" where
  "auth_Logout lib m now r w st =
     (let (hadSession, st) = (case readSessionCookie lib m r of
            None \<Rightarrow> (False, st)
          | Some sid \<Rightarrow>
              let (found, ss) = get now sid (at_sessions st)
              in (found \<noteq> None, st\<lparr>at_sessions := revoke sid ss\<rparr>));
          w = clearSessionCookie w
      in case am_oidc m of
           Some p \<Rightarrow> if hadSession \<and> logoutURL p \<noteq> [] then (Returns, Redirect r (logoutURL p) w, st)
                     else (Returns, renderLoggedOut w, st)
         | None \<Rightarrow> (Returns, renderLoggedOut w, st))"

section \<open>What a login needs\<close>

definition credentials :: "'r auth_lib \<Rightarrow> localProvider \<Rightarrow> http_request \<Rightarrow> string option" where
  "credentials lib p r = (case rq_form r of
      None \<Rightarrow> None
    | Some form \<Rightarrow> (case fmlookup (lp_admins p) (first_value form ''username'') of
        None \<Rightarrow> None
      | Some hash \<Rightarrow> if al_bcrypt lib hash (first_value form ''password'')
                     then Some (first_value form ''username'') else None))"

definition local_identity :: "string \<Rightarrow> Identity" where
  "local_identity user = \<lparr>id_User = user, id_Email = [], id_Groups = [''local-admin'']\<rparr>"

text \<open>The claims of the token the callback accepts, membership of the admin group included.\<close>

definition oidc_admitted :: "'r auth_lib \<Rightarrow> oidcProvider \<Rightarrow> http_request \<Rightarrow> (string \<Rightarrow> claim option) option" where
  "oidc_admitted lib p r =
     (if first_value (rq_query r) ''error'' \<noteq> [] \<or> readTempCookie r stateCookie = [] \<or>
         first_value (rq_query r) ''state'' \<noteq> readTempCookie r stateCookie then None
      else Option.bind (al_exchange lib (first_value (rq_query r) ''code'') (readTempCookie r pkceCookie))
        (\<lambda>raw. Option.bind raw (\<lambda>rawID. Option.bind (al_verify lib rawID) (\<lambda>idtok.
           if tk_Nonce idtok \<noteq> readTempCookie r nonceCookie then None
           else Option.bind (tk_Claims idtok) (\<lambda>claims.
             if oi_AdminGroup (oc_cfg p) \<in> set (stringSlice (claims (oi_GroupsClaim (oc_cfg p))))
             then Some claims else None)))))"

definition oidc_identity :: "oidcProvider \<Rightarrow> (string \<Rightarrow> claim option) \<Rightarrow> Identity" where
  "oidc_identity p claims = \<lparr>id_User = claimStr claims [''preferred_username'', ''email'', ''sub''],
     id_Email = claimStr claims [''email''], id_Groups = stringSlice (claims (oi_GroupsClaim (oc_cfg p)))\<rparr>"

lemma submit_eq:
  "submit lib p m now r w st = (case credentials lib p r of
      None \<Rightarrow> (Returns, if rq_form r = None then loginForm ''Bad request.'' w else login_fail w, st)
    | Some user \<Rightarrow> and_then (startSession lib m now (local_identity user) w st)
        (\<lambda>w st. (Returns, Redirect r ''/admin'' w, st)))"
  by (simp add: submit_def credentials_def local_identity_def Let_def split: option.split)

lemma callback_body_admitted:
  assumes "oidc_admitted lib p r = Some claims"
  shows "callback_body lib p m now r w st =
     and_then (startSession lib m now (oidc_identity p claims) w st)
       (\<lambda>w st. (Returns, Redirect r ''/admin'' w, st))"
proof -
  from assms obtain rawID idtok where
    "first_value (rq_query r) ''error'' = []" "readTempCookie r stateCookie \<noteq> []"
    "first_value (rq_query r) ''state'' = readTempCookie r stateCookie"
    "al_exchange lib (first_value (rq_query r) ''code'') (readTempCookie r pkceCookie) = Some (Some rawID)"
    "al_verify lib rawID = Some idtok" "tk_Nonce idtok = readTempCookie r nonceCookie"
    "tk_Claims idtok = Some claims"
    "oi_AdminGroup (oc_cfg p) \<in> set (stringSlice (claims (oi_GroupsClaim (oc_cfg p))))"
    unfolding oidc_admitted_def by (auto simp: bind_eq_Some_conv split: if_splits)
  then show ?thesis by (simp add: callback_body_def oidc_identity_def contains_iff Let_def)
qed

text \<open>The message and the status with which a callback that is not admitted is answered.\<close>

definition rejected_with :: "string \<Rightarrow> go_int \<Rightarrow> response \<Rightarrow> 's \<Rightarrow> outcome \<times> response \<times> 's \<Rightarrow> bool" where
  "rejected_with msg code w st x \<longleftrightarrow> code \<in> {403, 404} \<and> x = (Returns, http_Error msg code w, st)"

lemma rejected_forbid: "rejected_with msg 403 w st (Returns, forbid msg w, st)"
  by (simp add: rejected_with_def forbid_def)

lemma rejected_NotFound: "rejected_with ''404 page not found'' 404 w st (Returns, NotFound w, st)"
  by (simp add: rejected_with_def NotFound_def)

lemma callback_body_rejected:
  assumes "oidc_admitted lib p r = None"
  shows "\<exists>msg code. rejected_with msg code w st (callback_body lib p m now r w st)"
proof (cases "first_value (rq_query r) ''error'' \<noteq> [] \<or> readTempCookie r stateCookie = [] \<or>
    first_value (rq_query r) ''state'' \<noteq> readTempCookie r stateCookie")
  case True
  then show ?thesis by (auto simp: callback_body_def Let_def intro: rejected_forbid)
next
  case False
  note start = this
  show ?thesis
  proof (cases "al_exchange lib (first_value (rq_query r) ''code'') (readTempCookie r pkceCookie)")
    case None
    with start show ?thesis by (auto simp: callback_body_def Let_def intro: rejected_forbid)
  next
    case (Some raw)
    note ex = this
    show ?thesis
    proof (cases raw)
      case None
      with start ex show ?thesis by (auto simp: callback_body_def Let_def intro: rejected_forbid)
    next
      case (Some rawID)
      with start ex assms show ?thesis
        by (auto simp: callback_body_def oidc_admitted_def Let_def contains_iff
            intro: rejected_forbid rejected_NotFound split: option.splits if_splits)
    qed
  qed
qed

lemma Redirect_simps [simp]:
  "hd_cookies (rs_header (Redirect r url w)) = hd_cookies (rs_header w)"
  by (simp_all add: Redirect_def Let_def)

lemma Redirect_sent:
  "rs_sent w = None \<Longrightarrow> \<exists>h. rs_sent (Redirect r url w) = Some (302, h) \<and> hd_cookies h = hd_cookies (rs_header w)"
  by (simp add: Redirect_def Let_def)

lemma finish_Redirect: "rs_sent w = None \<Longrightarrow> rp_status (finish r' (Redirect r url w)) = 302 \<and>
    hd_cookies (rp_header (finish r' (Redirect r url w))) = hd_cookies (rs_header w)"
  using Redirect_sent [of w r url] by (auto simp: finish_sent)

lemma finish_LoggedOut: "rs_sent w = None \<Longrightarrow> rp_status (finish r (renderLoggedOut w)) = 200 \<and>
    hd_cookies (rp_header (finish r (renderLoggedOut w))) = hd_cookies (rs_header w)"
  unfolding renderLoggedOut_def by (simp add: finish_def)

lemma http_Error_sent: "rs_sent w = None \<Longrightarrow>
    \<exists>h. rs_sent (http_Error msg code w) = Some (code, h) \<and> hd_cookies h = hd_cookies (rs_header w)"
  by (simp add: http_Error_def)

lemma login_fail_sent: "rs_sent w = None \<Longrightarrow>
    \<exists>h. rs_sent (login_fail w) = Some (401, h) \<and> hd_cookies h = hd_cookies (rs_header w)"
  by (simp add: login_fail_def loginForm_def Let_def)

lemma clearTempCookie_sent [simp]: "rs_sent (clearTempCookie name w) = rs_sent w"
    "rs_body (clearTempCookie name w) = rs_body w"
  by (simp_all add: clearTempCookie_def)

text \<open>A login that succeeds, of either kind: what the client gets, and what it is good for.\<close>

lemma login_succeeds:
  assumes "and_then (startSession lib m now ident w st) (\<lambda>w st. (Returns, Redirect r ''/admin'' w, st))
      = (Returns, w', st')"
    and "rs_sent w = None"
  shows "\<exists>h c. rs_sent w' = Some (302, h) \<and> hd_cookies h = hd_cookies (rs_header w) @ [c] \<and>
     admits lib m now ident (at_sessions st') c"
proof -
  obtain res w1 st1 where s: "startSession lib m now ident w st = (res, w1, st1)"
    by (cases "startSession lib m now ident w st") auto
  with assms(1) have res: "res = Returns" and w': "w' = Redirect r ''/admin'' w1" and st': "st' = st1"
    by (auto simp: and_then_def split: if_splits)
  from startSession_admits [OF s [unfolded res]] obtain c
    where cs: "hd_cookies (rs_header w1) = hd_cookies (rs_header w) @ [c]" "rs_sent w1 = rs_sent w"
      and c: "admits lib m now ident (at_sessions st1) c" .
  with assms(2) obtain h where "rs_sent w' = Some (302, h)" "hd_cookies h = hd_cookies (rs_header w1)"
    unfolding w' using Redirect_sent [of w1 r "''/admin''"] by auto
  with cs c st' show ?thesis by auto
qed

lemma clearTempCookies_sent:
  "rs_sent w = Some x \<Longrightarrow> finish r (clearTempCookie a (clearTempCookie b (clearTempCookie c w))) = finish r w"
  by (cases x) (simp add: finish_sent)

lemma callback_cases:
  assumes "rs_sent w = None" and "callback lib p m now r w st = (Returns, w', st')"
  shows "case oidc_admitted lib p r of
      None \<Rightarrow> st' = st \<and> hd_cookies (rp_header (finish r w')) = hd_cookies (rs_header w) \<and>
        rp_status (finish r w') \<in> {403, 404}
    | Some claims \<Rightarrow> rp_status (finish r w') = 302 \<and>
        oi_AdminGroup (oc_cfg p) \<in> set (id_Groups (oidc_identity p claims)) \<and>
        (\<exists>c. hd_cookies (rp_header (finish r w')) = hd_cookies (rs_header w) @ [c] \<and>
           admits lib m now (oidc_identity p claims) (at_sessions st') c)"
proof -
  obtain w1 where b: "callback_body lib p m now r w st = (Returns, w1, st')"
    and w': "w' = clearTempCookie pkceCookie (clearTempCookie nonceCookie (clearTempCookie stateCookie w1))"
    using assms(2) by (auto simp: callback_def split: prod.splits)
  show ?thesis
  proof (cases "oidc_admitted lib p r")
    case None
    from callback_body_rejected [OF None, of w st m now] b obtain msg code
      where "code \<in> {403, 404}" "w1 = http_Error msg code w" "st' = st"
      by (auto simp: rejected_with_def)
    with http_Error_sent [OF assms(1), of msg code] None w' show ?thesis
      by (auto simp: clearTempCookies_sent finish_sent)
  next
    case (Some claims)
    from login_succeeds [OF b [unfolded callback_body_admitted [OF Some]] assms(1)]
    obtain h c where h: "rs_sent w1 = Some (302, h)" "hd_cookies h = hd_cookies (rs_header w) @ [c]"
      and "admits lib m now (oidc_identity p claims) (at_sessions st') c" by blast
    moreover have "oi_AdminGroup (oc_cfg p) \<in> set (id_Groups (oidc_identity p claims))"
      using Some by (auto simp: oidc_admitted_def oidc_identity_def bind_eq_Some_conv split: if_splits)
    ultimately show ?thesis
      using Some w' by (auto simp: clearTempCookies_sent finish_sent)
  qed
qed

section \<open>Properties\<close>


definition root_admin :: localProvider where
  "root_admin = newLocal [] \<lparr>lo_Admins = [\<lparr>la_Username = ''root'', la_PasswordHash = ''pw''\<rparr>]\<rparr>"

definition local_manager :: manager where
  "local_manager = \<lparr>am_cfg = zero_Auth\<lparr>au_SessionTTL := 60\<rparr>, am_hmacKey = ''0123456789abcdef'',
     am_oidc = None, am_local = Some root_admin\<rparr>"

definition empty_auth_state :: "unit auth_state" where
  "empty_auth_state = \<lparr>at_sessions = newSessionStore, at_rng = ()\<rparr>"


text \<open>
  C5. The OIDC callback admits exactly a member of the admin group who comes back with the state
  of this browser, a code the provider exchanges, and a valid ID token with this browser's nonce.
  Everybody else gets 403 or 404, no cookie, and leaves the state as it was; who is admitted gets
  a redirect and one cookie, which admits its bearer with the claims of that token.
\<close>

theorem oidc_callback:
  assumes "rs_sent w = None" and "callback lib p m now r w st = (Returns, w', st')"
  shows "case oidc_admitted lib p r of
      None \<Rightarrow> st' = st \<and> hd_cookies (rp_header (finish r w')) = hd_cookies (rs_header w) \<and>
        rp_status (finish r w') \<in> {403, 404}
    | Some claims \<Rightarrow> rp_status (finish r w') = 302 \<and>
        oi_AdminGroup (oc_cfg p) \<in> set (id_Groups (oidc_identity p claims)) \<and>
        (\<exists>c. hd_cookies (rp_header (finish r w')) = hd_cookies (rs_header w) @ [c] \<and>
           admits lib m now (oidc_identity p claims) (at_sessions st') c)"
  using callback_cases [OF assms] .

definition some_provider :: oidcProvider where
  "some_provider = \<lparr>oc_cfg = zero_OIDCAuth\<lparr>oi_AdminGroup := ''admins'', oi_GroupsClaim := ''groups''\<rparr>,
     oc_endSessionURL = []\<rparr>"

definition some_idp :: "unit auth_lib" where
  "some_idp = no_lib\<lparr>al_exchange := (\<lambda>code pkce. if code = ''c'' \<and> pkce = ''p'' then Some (Some ''tok'') else None),
     al_verify := (\<lambda>t. if t = ''tok'' then Some \<lparr>tk_Nonce = ''n'', tk_Claims = Some
       [''groups'' \<mapsto> CList [CStr ''users'', CStr ''admins''], ''email'' \<mapsto> CStr ''a@b'']\<rparr> else None)\<rparr>"

definition back_request :: http_request where
  "back_request = plain_request\<lparr>rq_query := [(''state'', ''s''), (''code'', ''c'')],
     rq_cookies := [(stateCookie, ''s''), (nonceCookie, ''n''), (pkceCookie, ''p'')]\<rparr>"

lemmas back_defs = back_request_def plain_request_def some_idp_def some_provider_def first_value_def
  readTempCookie_def cookie_get_def stateCookie_def nonceCookie_def pkceCookie_def

lemma back_admitted: "\<exists>claims. oidc_admitted some_idp some_provider back_request = Some claims \<and>
    id_User (oidc_identity some_provider claims) = ''a@b''"
  by (simp add: oidc_admitted_def oidc_identity_def back_defs)

lemma some_idp_rand: "al_rand some_idp r = (Some (Bytes32 (replicate 32 (CHR 0x07))), r)"
  by (simp add: some_idp_def no_lib_def)

lemma back_returns:
  "\<exists>w' st'. callback some_idp some_provider local_manager 5 back_request new_response empty_auth_state = (Returns, w', st')"
proof -
  from back_admitted obtain claims where a: "oidc_admitted some_idp some_provider back_request = Some claims"
    by blast
  show ?thesis
    by (simp add: callback_def callback_body_admitted [OF a] startSession_def create_def randomToken_def
        some_idp_rand)
qed

lemma oidc_callback_witness:
  "\<exists>w' st'. callback some_idp some_provider local_manager 5 back_request new_response empty_auth_state = (Returns, w', st') \<and>
     rp_status (finish back_request w') = 302"
  using back_returns back_admitted oidc_callback [of new_response some_idp some_provider local_manager 5 back_request
      empty_auth_state] by fastforce

text \<open>
  The three cookies of the login are not cleared: the callback's deferred function sets the
  clearing cookies when the header has been sent, so whatever the callback answers, a cookie in
  the answer is the session cookie.
\<close>

lemma callback_clears_nothing:
  assumes "rs_sent w = None" and "hd_cookies (rs_header w) = []"
    and "callback lib p m now r w st = (Returns, w', st')"
  shows "\<forall>c \<in> set (hd_cookies (rp_header (finish r w'))). ck_Name c = sessionCookie"
proof (cases "oidc_admitted lib p r")
  case None
  with callback_cases [OF assms(1,3)] assms(2) show ?thesis by simp
next
  case (Some claims)
  with callback_cases [OF assms(1,3)] assms(2) show ?thesis by (auto simp: admits_def)
qed

lemma callback_clears_nothing_witness:
  "\<exists>w' st'. callback some_idp some_provider local_manager 5 back_request new_response empty_auth_state = (Returns, w', st') \<and>
     (\<forall>c \<in> set (hd_cookies (rp_header (finish back_request w'))). ck_Name c = sessionCookie)"
  using back_returns callback_clears_nothing [of new_response some_idp some_provider local_manager 5 back_request
      empty_auth_state] by fastforce

text \<open>
  C38. Logging out ends the session for good: the request's own session is dead afterwards, at
  whatever time it is looked up, no other session is affected, and the answer (the page, or with a
  live OIDC session the redirect to the provider) carries the cookie that deletes the session
  cookie.
\<close>

theorem logout_ends_session:
  assumes "rs_sent w = None" and "auth_Logout lib m now r w st = (res, w', st')"
  shows "res = Returns \<and> (\<forall>t. admin_session lib m t r (at_sessions st') = None) \<and>
    (\<forall>t sid. now \<le> t \<and> readSessionCookie lib m r \<noteq> Some sid \<longrightarrow>
       live_session t (at_sessions st') sid = live_session t (at_sessions st) sid) \<and>
    hd_cookies (rp_header (finish r w')) = hd_cookies (rs_header w) @ [dead_cookie sessionCookie] \<and>
    rp_status (finish r w') \<in> {200, 302}"
proof (cases "readSessionCookie lib m r")
  case None
  with assms show ?thesis
    by (auto simp: auth_Logout_def admin_session_def clearSessionCookie_def renderLoggedOut_def Let_def finish_def
        split: option.splits)
next
  case (Some sid)
  define ss where "ss = revoke sid (snd (get now sid (at_sessions st)))"
  have live: "live_session t ss sid' = (if sid' = sid then None else live_session t (at_sessions st) sid')"
    if "now \<le> t" for t sid' using that by (simp add: ss_def)
  have dead: "live_session t ss sid = None" for t by (simp add: ss_def)
  have st': "at_sessions st' = ss" and res: "res = Returns"
    and w: "w' \<in> {renderLoggedOut (clearSessionCookie w)} \<union> range (\<lambda>u. Redirect r u (clearSessionCookie w))"
    using assms(2) Some by (auto simp: auth_Logout_def Let_def ss_def split: prod.splits option.splits if_splits)
  have "hd_cookies (rp_header (finish r w')) = hd_cookies (rs_header w) @ [dead_cookie sessionCookie] \<and>
      rp_status (finish r w') \<in> {200, 302}"
    using w finish_Redirect [of "clearSessionCookie w" r r] finish_LoggedOut [of "clearSessionCookie w" r] assms(1)
    by (auto simp: clearSessionCookie_def)
  with Some live dead st' res show ?thesis by (simp add: admin_session_def)
qed

lemma logout_ends_session_witness:
  "\<exists>w' st'. auth_Logout no_lib local_manager 5 plain_request new_response empty_auth_state = (Returns, w', st') \<and>
     hd_cookies (rp_header (finish plain_request w')) = [dead_cookie sessionCookie]"
proof -
  obtain res w' st' where l: "auth_Logout no_lib local_manager 5 plain_request new_response empty_auth_state = (res, w', st')"
    by (rule prod_cases3)
  from logout_ends_session [OF _ l] l show ?thesis by auto
qed

end
