(* ===== verification/Themes.thy ===== *)
theory Themes
  imports Config Go_Http
begin

text \<open>
  \<open>internal/handler/themes.go\<close>: which themes there are, which is painted first, and the overlay
  directory. Directory listings are parameters (\<open>None\<close> when the directory cannot be read); an
  entry is its name and whether it is a directory. The HTML template engine is a parameter too.
\<close>

section \<open>Discovery\<close>

definition baseTheme :: string where
  "baseTheme = ''rake''"

text \<open>\<open>^[a-z0-9][a-z0-9_-]*\.css$\<close>\<close>

definition themeFileRE :: "string \<Rightarrow> bool" where
  "themeFileRE s \<longleftrightarrow> has_suffix s ''.css'' \<and> themeNameRE (trim_suffix s ''.css'')"

record themeState =
  ts_names :: "string list"
  ts_files :: "string list"
  ts_initial :: string
  ts_defaultTheme :: string
  ts_forcedTheme :: string
  ts_dir :: string

definition themeName :: "string \<times> bool \<Rightarrow> string option" where
  "themeName e = (if snd e \<or> \<not> themeFileRE (fst e) then None else Some (trim_suffix (fst e) ''.css''))"

text \<open>The names \<open>collect\<close> keeps of a listing, in its order.\<close>

definition collect :: "(string \<times> bool) list option \<Rightarrow> string list" where
  "collect entries = (case entries of
      None \<Rightarrow> []
    | Some es \<Rightarrow> filter (\<lambda>n. \<not> (n = baseTheme \<or> \<not> ValidName n)) (List.map_filter themeName es))"

definition discoverThemes ::
  "(string \<times> bool) list option \<Rightarrow> (string \<Rightarrow> (string \<times> bool) list option) \<Rightarrow> Theme \<Rightarrow> themeState" where
  "discoverThemes embedded overlay t =
     (let files = sort (remdups (collect embedded @ (if th_Dir t \<noteq> [] then collect (overlay (th_Dir t)) else [])));
          names = baseTheme # files;
          dflt = (if th_Default t \<notin> set names then baseTheme else th_Default t);
          forced = (if th_Forced t \<noteq> [] \<and> th_Forced t \<in> set names then th_Forced t else [])
      in \<lparr>ts_names = names, ts_files = files, ts_initial = (if forced \<noteq> [] then forced else dflt),
          ts_defaultTheme = dflt, ts_forcedTheme = forced, ts_dir = th_Dir t\<rparr>)"

text \<open>What the template is executed with.\<close>

record template_data =
  td_InitialTheme :: string
  td_DefaultTheme :: string
  td_ForcedTheme :: string
  td_ThemesAttr :: string
  td_ThemeFiles :: "string list"

definition renderIndex ::
  "(string \<Rightarrow> template_data \<Rightarrow> string option) \<Rightarrow> string \<Rightarrow> themeState \<Rightarrow> string option" where
  "renderIndex template indexTmpl ts = template indexTmpl
     \<lparr>td_InitialTheme = ts_initial ts, td_DefaultTheme = ts_defaultTheme ts, td_ForcedTheme = ts_forcedTheme ts,
      td_ThemesAttr = join '','' (ts_names ts), td_ThemeFiles = ts_files ts\<rparr>"

section \<open>Serving files\<close>

text \<open>
  A node of a file tree. \<open>serve_file\<close> is \<open>http.ServeFile\<close> on a regular file for a request that is
  neither conditional nor for a range: the content, with the type its extension stands for
  (\<open>mime\<close>) unless the caller has set one.
\<close>

datatype node = NFile string | NDir

definition serve_file :: "(string \<Rightarrow> string) \<Rightarrow> string \<Rightarrow> string \<Rightarrow> response \<Rightarrow> response" where
  "serve_file mime name content w =
     (let w = (if header_values (rs_header w) ''Content-Type'' = []
               then set_header ''Content-Type'' (mime name) w else w)
      in write_body content (WriteHeader 200 w))"

text \<open>
  \<open>themeDir\<close> is the overlay directory, \<open>stat\<close> looks up a base name in it; the result is \<open>None\<close>
  when the request is left to the caller.
\<close>

definition serveThemeOverlay ::
  "(string \<Rightarrow> string) \<Rightarrow> (string \<Rightarrow> string \<Rightarrow> node option) \<Rightarrow> string \<Rightarrow> go_int \<Rightarrow> string \<Rightarrow> response \<Rightarrow> response option" where
  "serveThemeOverlay mime stat themeDir maxAge name w =
     (let base = trim_prefix name ''themes/''
      in if themeDir = [] then None
         else if \<not> themeFileRE base then None
         else (case stat themeDir base of
             Some (NFile content) \<Rightarrow> Some (serve_file mime base content
               (set_header ''Content-Type'' ''text/css; charset=utf-8''
                 (set_header ''Cache-Control'' (''max-age='' @ Itoa maxAge) w)))
           | _ \<Rightarrow> None))"

section \<open>Properties\<close>

lemma has_suffix_split: "has_suffix s p \<Longrightarrow> s = trim_suffix s p @ p"
  unfolding has_suffix_def trim_suffix_def by (metis append_take_drop_id)

lemma collect_valid: "n \<in> set (collect es) \<Longrightarrow> ValidName n \<and> n \<noteq> baseTheme"
  by (auto simp: collect_def split: option.splits)

lemma themeName_file: "themeName e = Some n \<Longrightarrow> e = (n @ ''.css'', False)"
  using has_suffix_split [of "fst e" "''.css''"]
  by (cases e) (auto simp: themeName_def themeFileRE_def split: if_splits)

lemma set_map_filter: "set (List.map_filter f xs) = {y. \<exists>x \<in> set xs. f x = Some y}"
  by (force simp: List.map_filter_def)

lemma collect_file: "n \<in> set (collect es) \<Longrightarrow> \<exists>l. es = Some l \<and> (n @ ''.css'', False) \<in> set l"
  by (auto simp: collect_def set_map_filter split: option.splits dest!: themeName_file)

lemma ValidName_base: "ValidName baseTheme"
  by (simp add: ValidName_def baseTheme_def themeNameRE_def theme_start_char_def theme_char_def less_eq_char_def)

lemma themeFileRE_chars:
  assumes "themeFileRE s"
  shows "CHR ''/'' \<notin> set s" and "s \<noteq> [] \<and> hd s \<noteq> CHR ''.''" and "CHR 0x5C \<notin> set s"
proof -
  obtain p where s: "s = p @ ''.css''" and v: "ValidName p"
    using assms has_suffix_split by (auto simp: themeFileRE_def ValidName_def)
  then have safe: "c \<noteq> CHR ''/'' \<and> c \<noteq> CHR ''.'' \<and> c \<noteq> CHR 0x5C" if "c \<in> set p" for c
    using theme_char_safe [OF ValidName_chars [OF v that]] by simp
  have ne: "p \<noteq> []" using v by (simp add: ValidName_def themeNameRE_def)
  show "CHR ''/'' \<notin> set s" and "CHR 0x5C \<notin> set s" using safe by (auto simp: s)
  show "s \<noteq> [] \<and> hd s \<noteq> CHR ''.''" using safe [of "hd p"] ne by (simp add: s)
qed

text \<open>
  C39. Whatever the directories hold and the configuration asks for, the theme state is sound: the
  switcher lists the base theme first and then, sorted and without repetition, the themes backed
  by a regular file of one of the two directories, all with safe names; the default, the forced
  theme (if any) and the initially painted one are in the list, and a forced theme is the one
  painted.
\<close>

theorem discoverThemes_sound:
  "let ts = discoverThemes embedded overlay t in
     ts_names ts = baseTheme # ts_files ts \<and> distinct (ts_names ts) \<and> sorted (ts_files ts) \<and>
     list_all ValidName (ts_names ts) \<and>
     list_all (\<lambda>n. list_ex (\<lambda>l. list_ex (\<lambda>e. e = (n @ ''.css'', False)) l)
        (case (embedded, overlay (th_Dir t)) of
           (Some es, Some os) \<Rightarrow> [es, os] | (Some es, None) \<Rightarrow> [es] | (None, Some os) \<Rightarrow> [os] | _ \<Rightarrow> []))
       (ts_files ts) \<and>
     ts_defaultTheme ts \<in> set (ts_names ts) \<and> ts_initial ts \<in> set (ts_names ts) \<and>
     (if ts_forcedTheme ts = [] then ts_initial ts = ts_defaultTheme ts
      else ts_forcedTheme ts \<in> set (ts_names ts) \<and> ts_initial ts = ts_forcedTheme ts)"
proof -
  define cs where "cs = collect embedded @ (if th_Dir t \<noteq> [] then collect (overlay (th_Dir t)) else [])"
  have valid: "ValidName n \<and> n \<noteq> baseTheme" if "n \<in> set cs" for n
    using that by (auto simp: cs_def split: if_splits dest: collect_valid)
  have backed: "(\<exists>l. embedded = Some l \<and> (n @ ''.css'', False) \<in> set l) \<or>
      (\<exists>l. overlay (th_Dir t) = Some l \<and> (n @ ''.css'', False) \<in> set l)" if "n \<in> set cs" for n
    using that by (auto simp: cs_def split: if_splits dest: collect_file)
  define files where "files = sort (remdups cs)"
  have files: "set files = set cs" "distinct files" "sorted files" by (simp_all add: files_def)
  have ts: "discoverThemes embedded overlay t = (let names = baseTheme # files;
          dflt = (if th_Default t \<notin> set names then baseTheme else th_Default t);
          forced = (if th_Forced t \<noteq> [] \<and> th_Forced t \<in> set names then th_Forced t else [])
      in \<lparr>ts_names = names, ts_files = files, ts_initial = (if forced \<noteq> [] then forced else dflt),
          ts_defaultTheme = dflt, ts_forcedTheme = forced, ts_dir = th_Dir t\<rparr>)"
    unfolding discoverThemes_def files_def cs_def Let_def by (rule refl)
  have "list_all ValidName (baseTheme # files)" using files valid ValidName_base by (auto simp: list_all_iff)
  moreover have "distinct (baseTheme # files)" using files valid by auto
  moreover have "list_all (\<lambda>n. list_ex (\<lambda>l. list_ex (\<lambda>e. e = (n @ ''.css'', False)) l)
        (case (embedded, overlay (th_Dir t)) of
           (Some es, Some os) \<Rightarrow> [es, os] | (Some es, None) \<Rightarrow> [es] | (None, Some os) \<Rightarrow> [os] | _ \<Rightarrow> []))
       files"
    using files backed by (fastforce simp: list_all_iff list_ex_iff split: option.splits)
  ultimately show ?thesis using files(3) by (auto simp: ts Let_def)
qed

text \<open>
  The overlay serves only a file of the overlay directory itself: what is looked up is a base
  name without a slash or backslash and without a leading dot, and the answer is that file as CSS.
\<close>

lemma overlay_confined:
  assumes "serveThemeOverlay mime stat themeDir maxAge name w = Some w'" and "rs_sent w = None"
  shows "\<exists>base content. themeDir \<noteq> [] \<and> (name = ''themes/'' @ base \<or> name = base) \<and>
     CHR ''/'' \<notin> set base \<and> CHR 0x5C \<notin> set base \<and> base \<noteq> [] \<and> hd base \<noteq> CHR ''.'' \<and>
     stat themeDir base = Some (NFile content) \<and>
     rp_body (finish r w') = (if is_head r then [] else rs_body w @ content) \<and>
     header_values (rp_header (finish r w')) ''Content-Type'' = [''text/css; charset=utf-8'']"
proof -
  define base where "base = trim_prefix name ''themes/''"
  from assms(1) obtain content where f: "themeFileRE base" and d: "themeDir \<noteq> []"
    and c: "stat themeDir base = Some (NFile content)"
    and w': "w' = serve_file mime base content (set_header ''Content-Type'' ''text/css; charset=utf-8''
                 (set_header ''Cache-Control'' (''max-age='' @ Itoa maxAge) w))"
    by (auto simp: serveThemeOverlay_def base_def Let_def split: if_splits option.splits node.splits)
  have "name = ''themes/'' @ base \<or> name = base"
    by (auto simp: base_def trim_prefix_def elim: has_prefixE)
  with themeFileRE_chars [OF f] d c assms(2) show ?thesis
    by (intro exI [of _ base] exI [of _ content]) (simp add: w' serve_file_def finish_def)
qed

lemma overlay_confined_witness:
  "\<exists>w' base. serveThemeOverlay (\<lambda>_. []) (\<lambda>d b. if b = ''night.css'' then Some (NFile ''x'') else None) ''/t'' 9
      ''themes/night.css'' new_response = Some w' \<and> CHR ''/'' \<notin> set base \<and>
      (if base = ''night.css'' then Some (NFile ''x'') else None) = Some (NFile ''x'')"
proof -
  obtain w' where w': "serveThemeOverlay (\<lambda>_. []) (\<lambda>d b. if b = ''night.css'' then Some (NFile ''x'') else None) ''/t'' 9
      ''themes/night.css'' new_response = Some w'"
    by (simp add: serveThemeOverlay_def trim_prefix_def has_prefix_def themeFileRE_def has_suffix_def
        trim_suffix_def themeNameRE_def theme_start_char_def theme_char_def less_eq_char_def)
  from overlay_confined [OF w' new_response_simps(1), of undefined] obtain base content where "CHR ''/'' \<notin> set base"
    and "(if base = ''night.css'' then Some (NFile ''x'') else None) = Some (NFile content)" by blast
  with w' show ?thesis by (auto split: if_splits)
qed

end
