(* ===== verification/Keygen.thy ===== *)
theory Keygen
  imports Go_Utf8
begin

text \<open>
  \<open>internal/keygen/keygen.go\<close>: the three key generators. The source of randomness is a
  parameter \<open>ri\<close> over a state \<open>'r\<close>: \<open>ri n r\<close> is \<open>rand.Int(rand.Reader, n)\<close>, which draws a number
  below \<open>n\<close> or fails. A failure, and an argument that is not positive, are panics.
  \<open>EntropyBits\<close> is in \<open>Entropy\<close>.
\<close>

section \<open>Randomness\<close>

type_synonym 'r rand_int = "nat \<Rightarrow> 'r \<Rightarrow> nat option \<times> 'r"

text \<open>What \<open>crypto/rand\<close> promises of a number it returns; \<open>rand_total\<close>: and it never fails.\<close>

definition rand_total :: "'r rand_int \<Rightarrow> bool" where
  "rand_total ri \<longleftrightarrow> (\<forall>n r. 0 < n \<longrightarrow> (\<exists>v r'. ri n r = (Some v, r') \<and> v < n))"

definition randInt :: "'r rand_int \<Rightarrow> go_int \<Rightarrow> 'r \<Rightarrow> go_int or_panic \<times> 'r" where
  "randInt ri n r =
     (if n \<le> 0 then (Inl ''crypto/rand: argument to Int is <= 0'', r)
      else (case ri (nat n) r of
          (None, r) \<Rightarrow> (Inl ''keygen: crypto/rand failure: '', r)
        | (Some v, r) \<Rightarrow> (Inr (int v), r)))"

text \<open>\<open>xs[randInt(len(xs))]\<close>\<close>

definition pick :: "'r rand_int \<Rightarrow> 'a list \<Rightarrow> 'r \<Rightarrow> 'a or_panic \<times> 'r" where
  "pick ri xs r = (case randInt ri (int (length xs)) r of
      (Inl p, r) \<Rightarrow> (Inl p, r)
    | (Inr i, r) \<Rightarrow> (go_index xs i, r))"

lemma pick_in: "pick ri xs r = (Inr x, r') \<Longrightarrow> x \<in> set xs"
  by (auto simp: pick_def split: prod.splits sum.splits dest: go_index_InrD)

lemma pick_total:
  assumes "rand_total ri" and "xs \<noteq> []"
  obtains x r' where "pick ri xs r = (Inr x, r')" and "x \<in> set xs"
proof -
  from assms obtain v r' where "ri (length xs) r = (Some v, r')" and "v < length xs"
    unfolding rand_total_def by (metis length_greater_0_conv)
  then have "pick ri xs r = (Inr (xs ! v), r')" using assms(2) by (simp add: pick_def randInt_def)
  with that pick_in [OF this] show thesis by blast
qed

section \<open>Generators\<close>

text \<open>The keyspace is a list of runes, each as the bytes \<open>WriteRune\<close> emits for it.\<close>

datatype generator = Random "string list" | Phonetic | Dictionary "string list"

definition defaultKeyspace :: string where
  "defaultKeyspace = ''ABCDEFGHIJKLMNOPQRSTUVWXYZabcdefghijklmnopqrstuvwxyz0123456789''"

definition NewRandom :: "string \<Rightarrow> generator" where
  "NewRandom keyspace = Random (runes (if keyspace = [] then defaultKeyspace else keyspace))"

definition NewPhonetic :: generator where
  "NewPhonetic = Phonetic"

definition vowels :: string where "vowels = ''aeiou''"
definition consonants :: string where "consonants = ''bcdfghjklmnpqrstvwxyz''"

definition syllableTemplates :: "string list" where
  "syllableTemplates = [''cv'', ''cvc'', ''vc'', ''cvv'', ''ccv'']"

text \<open>The loop of the random and of the dictionary generator: \<open>length\<close> draws, concatenated.\<close>

fun pick_loop :: "'r rand_int \<Rightarrow> string list \<Rightarrow> nat \<Rightarrow> string \<Rightarrow> 'r \<Rightarrow> string or_panic \<times> 'r" where
  "pick_loop ri xs 0 b r = (Inr b, r)"
| "pick_loop ri xs (Suc n) b r = (case pick ri xs r of
      (Inl p, r) \<Rightarrow> (Inl p, r)
    | (Inr x, r) \<Rightarrow> pick_loop ri xs n (b @ x) r)"

text \<open>The inner loop of the phonetic generator, over one template.\<close>

fun fill_template ::
  "'r rand_int \<Rightarrow> go_int \<Rightarrow> string \<Rightarrow> string \<Rightarrow> 'r \<Rightarrow> string or_panic \<times> 'r" where
  "fill_template ri len [] b r = (Inr b, r)"
| "fill_template ri len (c # tmpl) b r =
     (if int (length b) < len
      then (case pick ri (if c = CHR ''c'' then consonants else vowels) r of
          (Inl p, r) \<Rightarrow> (Inl p, r)
        | (Inr x, r) \<Rightarrow> fill_template ri len tmpl (b @ [x]) r)
      else (Inr b, r))"

lemma fill_template_grows:
  "fill_template ri len tmpl b r = (Inr b', r') \<Longrightarrow> length b \<le> length b' \<and>
     (int (length b) < len \<and> tmpl \<noteq> [] \<longrightarrow> length b < length b')"
  by (induction ri len tmpl b r rule: fill_template.induct)
    (fastforce split: if_splits prod.splits sum.splits)+

lemma template_nonempty: "t \<in> set syllableTemplates \<Longrightarrow> t \<noteq> []"
  by (auto simp: syllableTemplates_def)

function phonetic_loop :: "'r rand_int \<Rightarrow> go_int \<Rightarrow> string \<Rightarrow> 'r \<Rightarrow> string or_panic \<times> 'r" where
  "phonetic_loop ri len b r =
     (if int (length b) < len
      then (case pick ri syllableTemplates r of
          (Inl p, r) \<Rightarrow> (Inl p, r)
        | (Inr tmpl, r) \<Rightarrow> (case fill_template ri len tmpl b r of
            (Inl p, r) \<Rightarrow> (Inl p, r)
          | (Inr b, r) \<Rightarrow> phonetic_loop ri len b r))
      else (Inr b, r))"
  by pat_completeness auto
termination
proof (relation "measure (\<lambda>(_, len, b, _). nat (len - int (length b)))", goal_cases)
  case (2 ri len b r x r1 t x2 r2 b')
  then have "t \<noteq> []" using pick_in [of ri syllableTemplates r t r1] template_nonempty by simp
  with 2 fill_template_grows [of ri len t b r1 b' r2] show ?case by simp
qed simp

definition slice_to :: "string \<Rightarrow> go_int \<Rightarrow> string or_panic" where
  "slice_to s n = (if 0 \<le> n \<and> n \<le> int (length s) then Inr (take (nat n) s)
                   else Inl ''slice bounds out of range'')"

definition Random_CreateKey :: "'r rand_int \<Rightarrow> string list \<Rightarrow> go_int \<Rightarrow> 'r \<Rightarrow> string or_panic \<times> 'r" where
  [simp]: "Random_CreateKey ri keyspace len r = pick_loop ri keyspace (nat len) [] r"

definition Phonetic_CreateKey :: "'r rand_int \<Rightarrow> go_int \<Rightarrow> 'r \<Rightarrow> string or_panic \<times> 'r" where
  [simp]: "Phonetic_CreateKey ri len r =
     (if len < 0 then (Inl ''strings.Builder.Grow: negative count'', r)
      else (case phonetic_loop ri len [] r of
          (Inl p, r) \<Rightarrow> (Inl p, r)
        | (Inr b, r) \<Rightarrow> (slice_to b len, r)))"

definition Dictionary_CreateKey :: "'r rand_int \<Rightarrow> string list \<Rightarrow> go_int \<Rightarrow> 'r \<Rightarrow> string or_panic \<times> 'r" where
  [simp]: "Dictionary_CreateKey ri words len r = pick_loop ri words (nat len) [] r"

fun CreateKey :: "'r rand_int \<Rightarrow> generator \<Rightarrow> go_int \<Rightarrow> 'r \<Rightarrow> string or_panic \<times> 'r" where
  "CreateKey ri (Random keyspace) len r = Random_CreateKey ri keyspace len r"
| "CreateKey ri Phonetic len r = Phonetic_CreateKey ri len r"
| "CreateKey ri (Dictionary words) len r = Dictionary_CreateKey ri words len r"

section \<open>Construction\<close>

datatype keygen_error =
    DictionaryNoPath
  | DictionaryOpen string
  | DictionaryRead string
  | DictionaryEmpty string
  | UnknownGenerator string

text \<open>
  \<open>openFile\<close> gives the bytes of the file and whether reading them ended in an error; \<open>None\<close> is a
  failing \<open>os.Open\<close>.
\<close>

definition NewDictionary ::
  "(string \<Rightarrow> (string \<times> bool) option) \<Rightarrow> string \<Rightarrow> keygen_error + generator" where
  "NewDictionary openFile path =
     (if path = [] then Inl DictionaryNoPath
      else (case openFile path of
          None \<Rightarrow> Inl (DictionaryOpen path)
        | Some (data, failed) \<Rightarrow>
            let words = filter (\<lambda>w. w \<noteq> []) (map trim_space (scan_lines data))
            in if failed \<or> scan_too_long data then Inl (DictionaryRead path)
               else if words = [] then Inl (DictionaryEmpty path)
               else Inr (Dictionary words)))"

definition New ::
  "(string \<Rightarrow> (string \<times> bool) option) \<Rightarrow> string \<Rightarrow> string \<Rightarrow> keygen_error + generator" where
  "New openFile genType dictPath =
     (if genType = ''random'' then Inr (NewRandom [])
      else if genType = ''dictionary'' then NewDictionary openFile dictPath
      else if genType = ''phonetic'' \<or> genType = [] then Inr NewPhonetic
      else Inl (UnknownGenerator genType))"

section \<open>What the loops produce\<close>

lemma pick_loop_words:
  "pick_loop ri xs n b r = (Inr k, r') \<Longrightarrow>
   \<exists>ws. length ws = n \<and> set ws \<subseteq> set xs \<and> k = b @ concat ws"
proof (induction n arbitrary: b r)
  case 0
  then show ?case by simp
next
  case (Suc n)
  then obtain x r1 where p: "pick ri xs r = (Inr x, r1)" and "pick_loop ri xs n (b @ x) r1 = (Inr k, r')"
    by (auto split: prod.splits sum.splits)
  with Suc.IH obtain ws where "length ws = n" "set ws \<subseteq> set xs" "k = (b @ x) @ concat ws" by blast
  with pick_in [OF p] show ?case by (intro exI [of _ "x # ws"]) auto
qed

lemma pick_loop_total:
  assumes "rand_total ri" and "xs \<noteq> []"
  shows "\<exists>k r'. pick_loop ri xs n b r = (Inr k, r')"
proof (induction n arbitrary: b r)
  case (Suc n)
  from assms obtain x r1 where "pick ri xs r = (Inr x, r1)" by (rule pick_total)
  with Suc show ?case by simp
qed simp

definition phonetic_char :: "char \<Rightarrow> bool" where
  "phonetic_char c \<longleftrightarrow> byte_in (CHR ''a'') (CHR ''z'') c"

lemma phonetic_letters: "c \<in> set vowels \<union> set consonants \<Longrightarrow> phonetic_char c"
  by (auto simp: vowels_def consonants_def phonetic_char_def less_eq_char_def)

lemma letters_nonempty: "vowels \<noteq> []" "consonants \<noteq> []" "syllableTemplates \<noteq> []"
  by (simp_all add: vowels_def consonants_def syllableTemplates_def)

lemma fill_template_chars:
  "fill_template ri len tmpl b r = (Inr b', r') \<Longrightarrow> list_all phonetic_char b \<Longrightarrow>
   list_all phonetic_char b' \<and> int (length b') \<le> max len (int (length b))"
proof (induction ri len tmpl b r rule: fill_template.induct)
  case (2 ri len c tmpl b r)
  show ?case
  proof (cases "int (length b) < len")
    case True
    with 2(2) obtain x r1 where p: "pick ri (if c = CHR ''c'' then consonants else vowels) r = (Inr x, r1)"
      and f: "fill_template ri len tmpl (b @ [x]) r1 = (Inr b', r')"
      by (auto split: prod.splits sum.splits)
    from pick_in [OF p] have "phonetic_char x" by (intro phonetic_letters) (auto split: if_splits)
    with 2(1) [OF True p [symmetric] refl f] 2(3) True show ?thesis by simp
  next
    case False
    with 2(2,3) show ?thesis by simp
  qed
qed simp

lemma fill_template_total:
  assumes "rand_total ri"
  shows "\<exists>b' r'. fill_template ri len tmpl b r = (Inr b', r')"
proof (induction tmpl arbitrary: b r)
  case (Cons c tmpl)
  have "(if c = CHR ''c'' then consonants else vowels) \<noteq> []" by (simp add: letters_nonempty)
  with assms obtain x r1 where "pick ri (if c = CHR ''c'' then consonants else vowels) r = (Inr x, r1)"
    by (rule pick_total)
  with Cons show ?case by simp
qed simp

declare phonetic_loop.simps [simp del]

lemma phonetic_loop_key:
  "phonetic_loop ri len b r = (Inr k, r') \<Longrightarrow> list_all phonetic_char b \<Longrightarrow> int (length b) \<le> len \<Longrightarrow>
   list_all phonetic_char k \<and> int (length k) = len"
proof (induction ri len b r rule: phonetic_loop.induct)
  case (1 ri len b r)
  show ?case
  proof (cases "int (length b) < len")
    case True
    with 1(2) obtain t r1 b1 r2 where p: "pick ri syllableTemplates r = (Inr t, r1)"
      and f: "fill_template ri len t b r1 = (Inr b1, r2)"
      and l: "phonetic_loop ri len b1 r2 = (Inr k, r')"
      by (auto simp: phonetic_loop.simps [of ri len b r] split: prod.splits sum.splits)
    from fill_template_chars [OF f 1(3)] True
    have "list_all phonetic_char b1" and "int (length b1) \<le> len" by simp_all
    with 1(1) [OF True p [symmetric] refl f [symmetric] refl l] show ?thesis by simp
  next
    case False
    with 1(2-4) show ?thesis by (simp add: phonetic_loop.simps [of ri len b r])
  qed
qed

lemma phonetic_loop_total:
  assumes "rand_total ri"
  shows "\<exists>k r'. phonetic_loop ri len b r = (Inr k, r')"
proof (induction "nat (len - int (length b))" arbitrary: b r rule: less_induct)
  case less
  show ?case
  proof (cases "int (length b) < len")
    case True
    from assms letters_nonempty(3) obtain t r1 where p: "pick ri syllableTemplates r = (Inr t, r1)"
      and t: "t \<in> set syllableTemplates" by (rule pick_total)
    from fill_template_total [OF assms] obtain b1 r2 where f: "fill_template ri len t b r1 = (Inr b1, r2)"
      by blast
    from fill_template_grows [OF f] True template_nonempty [OF t]
    have "nat (len - int (length b1)) < nat (len - int (length b))" by simp
    from less [OF this, of r2] p f True show ?thesis by (simp add: phonetic_loop.simps [of ri len b r])
  next
    case False
    then show ?thesis by (simp add: phonetic_loop.simps [of ri len b r])
  qed
qed

section \<open>The interface\<close>

text \<open>
  What the handler relies on: the keys of a generator have a shape, \<open>good len k\<close>, and with a
  working source of randomness a key is always produced.
\<close>

locale key_source =
  fixes ri :: "'r rand_int"
    and gen :: generator
    and good :: "go_int \<Rightarrow> string \<Rightarrow> bool"
  assumes key_good: "0 \<le> len \<Longrightarrow> CreateKey ri gen len r = (Inr k, r') \<Longrightarrow> good len k"
    and key_made: "0 \<le> len \<Longrightarrow> rand_total ri \<Longrightarrow> \<not> isl (fst (CreateKey ri gen len r))"
begin

lemma key_total:
  assumes "0 \<le> len" and "rand_total ri"
  obtains k r' where "CreateKey ri gen len r = (Inr k, r')" and "good len k"
proof -
  obtain x r' where c: "CreateKey ri gen len r = (x, r')" by (cases "CreateKey ri gen len r")
  with key_made [OF assms, of r] obtain k where "x = Inr k" by (cases x) auto
  with c key_good [OF assms(1)] that show thesis by blast
qed

end

definition keyspace_char :: "char \<Rightarrow> bool" where
  "keyspace_char c \<longleftrightarrow> byte_in (CHR ''0'') (CHR ''9'') c \<or> byte_in (CHR ''A'') (CHR ''Z'') c \<or>
     byte_in (CHR ''a'') (CHR ''z'') c"

lemma defaultKeyspace_chars: "list_all keyspace_char defaultKeyspace"
  by (simp add: defaultKeyspace_def keyspace_char_def less_eq_char_def)

lemma defaultKeyspace_runes: "runes defaultKeyspace = map (\<lambda>c. [c]) defaultKeyspace"
  by (rule runes_ascii) (simp add: defaultKeyspace_def ascii_def in_bytes_def)

lemma concat_singles: "set ws \<subseteq> (\<lambda>c. [c]) ` A \<Longrightarrow> length (concat ws) = length ws \<and> set (concat ws) \<subseteq> A"
  by (induction ws) auto

lemma NewRandom_default: "NewRandom [] = Random (map (\<lambda>c. [c]) defaultKeyspace)"
  by (simp add: NewRandom_def defaultKeyspace_runes)

interpretation random_keys: key_source ri "NewRandom []"
  "\<lambda>len k. int (length k) = len \<and> list_all keyspace_char k" for ri
proof (unfold_locales, goal_cases)
  case (1 len r k r')
  then obtain ws where "length ws = nat len" "set ws \<subseteq> (\<lambda>c. [c]) ` set defaultKeyspace" "k = concat ws"
    by (auto simp: NewRandom_default dest!: pick_loop_words)
  with 1 concat_singles [of ws "set defaultKeyspace"] show ?case
    using defaultKeyspace_chars by (auto simp: list_all_iff)
next
  case (2 len r)
  then show ?case
    using pick_loop_total [of ri "map (\<lambda>c. [c]) defaultKeyspace" "nat len" "[]" r]
    by (auto simp: NewRandom_default defaultKeyspace_def)
qed

interpretation phonetic_keys: key_source ri NewPhonetic
  "\<lambda>len k. int (length k) = len \<and> list_all phonetic_char k" for ri
proof (unfold_locales, goal_cases)
  case (1 len r k r')
  then obtain b where "phonetic_loop ri len [] r = (Inr b, r')" "slice_to b len = Inr k"
    by (auto simp: NewPhonetic_def split: prod.splits sum.splits)
  with phonetic_loop_key [of ri len "[]" r b r'] 1(1) show ?case
    by (auto simp: slice_to_def split: if_splits)
next
  case (2 len r)
  obtain b r' where b: "phonetic_loop ri len [] r = (Inr b, r')"
    using phonetic_loop_total [OF 2(2)] by blast
  with phonetic_loop_key [OF b] 2(1) show ?case by (simp add: NewPhonetic_def slice_to_def)
qed

interpretation dictionary_keys: key_source ri "Dictionary (w # ws)"
  "\<lambda>len k. \<exists>ks. int (length ks) = len \<and> set ks \<subseteq> set (w # ws) \<and> k = concat ks" for ri w ws
proof (unfold_locales, goal_cases)
  case (1 len r k r')
  then show ?case by (auto dest!: pick_loop_words simp: int_eq_iff)
next
  case (2 len r)
  then show ?case using pick_loop_total [of ri "w # ws" "nat len" "[]" r] by auto
qed

section \<open>Properties\<close>

definition first_rand :: "unit rand_int" where
  "first_rand n r = (Some 0, r)"

lemma first_rand_total: "rand_total first_rand"
  by (simp add: rand_total_def first_rand_def)

text \<open>
  C35. With a working source of randomness the default and the phonetic generator always return:
  a key of exactly the requested length, of letters and digits, respectively lower-case letters.
  So no key holds a dot, a slash or anything else an URL would have to escape.
\<close>

theorem CreateKey_returns:
  assumes "rand_total ri" and "0 \<le> len"
  shows "(\<exists>k r'. CreateKey ri (NewRandom []) len r = (Inr k, r') \<and>
      int (length k) = len \<and> list_all keyspace_char k) \<and>
    (\<exists>k r'. CreateKey ri NewPhonetic len r = (Inr k, r') \<and>
      int (length k) = len \<and> list_all phonetic_char k)"
proof
  show "\<exists>k r'. CreateKey ri (NewRandom []) len r = (Inr k, r') \<and>
      int (length k) = len \<and> list_all keyspace_char k"
    by (rule random_keys.key_total [OF assms(2,1), of r]) (rule exI, rule exI, erule (1) conjI)
  show "\<exists>k r'. CreateKey ri NewPhonetic len r = (Inr k, r') \<and>
      int (length k) = len \<and> list_all phonetic_char k"
    by (rule phonetic_keys.key_total [OF assms(2,1), of r]) (rule exI, rule exI, erule (1) conjI)
qed

lemma CreateKey_returns_witness:
  "\<exists>k r'. CreateKey first_rand NewPhonetic 7 () = (Inr k, r') \<and> int (length k) = 7 \<and> list_all phonetic_char k"
proof -
  have "0 \<le> (7 :: go_int)" by simp
  from CreateKey_returns [OF first_rand_total this, of "()"] show ?thesis by (rule conjunct2)
qed

text \<open>
  A source that plays back a list of draws; each draw must be below the bound it is asked for.
\<close>

fun draws :: "nat list rand_int" where
  "draws n [] = (None, [])"
| "draws n (d # ds) = (if d < n then Some d else None, ds)"

lemma pick_loop_draws:
  assumes "set ds \<subseteq> {..<length xs}"
  shows "fst (pick_loop draws xs (length ds) b ds) = Inr (b @ concat (map (\<lambda>d. xs ! d) ds))"
  using assms by (induction ds arbitrary: b) (auto simp: pick_def randInt_def)

lemma concat_map_singles: "concat (map (\<lambda>d. map (\<lambda>c. [c]) xs ! d) ds) = map (\<lambda>d. xs ! d) ds"
  if "set ds \<subseteq> {..<length xs}"
  using that by (induction ds) auto

lemma bij_map_nth:
  assumes "distinct xs"
  shows "bij_betw (map (\<lambda>d. xs ! d)) {ds. length ds = n \<and> set ds \<subseteq> {..<length xs}}
     {k. length k = n \<and> set k \<subseteq> set xs}"
proof (rule bij_betwI')
  fix ds es
  assume "ds \<in> {ds. length ds = n \<and> set ds \<subseteq> {..<length xs}}" "es \<in> {ds. length ds = n \<and> set ds \<subseteq> {..<length xs}}"
  then have "set ds \<subseteq> {..<length xs}" and "set es \<subseteq> {..<length xs}" and "length ds = length es"
    by simp_all
  then have "inj_on ((!) xs) (set ds \<union> set es)" by (intro inj_on_nth [OF assms]) auto
  then show "map ((!) xs) ds = map ((!) xs) es \<longleftrightarrow> ds = es" by (rule inj_on_map_eq_map)
next
  fix k assume "k \<in> {k. length k = n \<and> set k \<subseteq> set xs}"
  then have k: "length k = n" "\<forall>c \<in> set k. \<exists>d < length xs. xs ! d = c"
    by (auto simp: in_set_conv_nth [of _ xs])
  then obtain f where "\<forall>c \<in> set k. f c < length xs \<and> xs ! f c = c" by metis
  with k(1) show "\<exists>ds \<in> {ds. length ds = n \<and> set ds \<subseteq> {..<length xs}}. k = map ((!) xs) ds"
    by (intro bexI [of _ "map f k"]) (auto simp: map_idI)
qed auto

text \<open>
  C34. The default generator has no bias: it maps the sequences of draws one to one onto the
  keys of the requested length over its 62 characters, so uniform draws give a uniform key, and
  every key can occur.
\<close>

theorem random_key_unbiased:
  "bij_betw (\<lambda>ds. fst (CreateKey draws (NewRandom []) (int n) ds))
     {ds. length ds = n \<and> set ds \<subseteq> {..<62}}
     (Inr ` {k. length k = n \<and> set k \<subseteq> set defaultKeyspace})"
proof -
  have len: "length defaultKeyspace = 62" and dist: "distinct defaultKeyspace"
    by (simp_all add: defaultKeyspace_def)
  have key: "fst (CreateKey draws (NewRandom []) (int n) ds) = Inr (map (\<lambda>d. defaultKeyspace ! d) ds)"
    if "ds \<in> {ds. length ds = n \<and> set ds \<subseteq> {..<62}}" for ds
    using that pick_loop_draws [of ds "map (\<lambda>c. [c]) defaultKeyspace" "[]"]
      concat_map_singles [of ds defaultKeyspace] len
    by (simp add: NewRandom_default)
  have "bij_betw (Inr \<circ> map (\<lambda>d. defaultKeyspace ! d)) {ds. length ds = n \<and> set ds \<subseteq> {..<62}}
     (Inr ` {k. length k = n \<and> set k \<subseteq> set defaultKeyspace})"
    using bij_map_nth [OF dist, of n] len
    by (auto simp: bij_betw_def image_comp [symmetric] intro: comp_inj_on)
  then show ?thesis by (rule bij_betw_cong [THEN iffD2, rotated]) (simp add: key)
qed

end
