(* ===== verification/Window_Budget.thy ===== *)
theory Window_Budget
  imports Prelude
begin

text \<open>
  The contract of a per-client fixed-window budget, and what it buys. A limiter takes events;
  each belongs to a client, happens at a time and costs an amount; it is admitted or refused.
  Both budgets of gopaste's rate limiter (requests and bytes) satisfy the contract, so the
  bound of this theory holds of each.
\<close>

locale window_budget =
  fixes exec :: "'l \<Rightarrow> 'e \<Rightarrow> bool \<times> 'l"
    and client :: "'e \<Rightarrow> string"
    and at :: "'e \<Rightarrow> int"
    and cost :: "'e \<Rightarrow> int"
    and used :: "'l \<Rightarrow> string \<Rightarrow> int \<Rightarrow> (int \<times> int) option" \<comment> \<open>consumed so far, end of window\<close>
    and cap :: "'l \<Rightarrow> int"
    and len :: "'l \<Rightarrow> int"
    and invar :: "'l \<Rightarrow> bool"
    and fits :: "'e \<Rightarrow> bool"
  assumes exec_invar: "invar l \<Longrightarrow> fits e \<Longrightarrow> exec l e = (b, l') \<Longrightarrow> invar l'"
    and exec_cap: "exec l e = (b, l') \<Longrightarrow> cap l' = cap l"
    and exec_len: "exec l e = (b, l') \<Longrightarrow> len l' = len l"
    and exec_self: "invar l \<Longrightarrow> fits e \<Longrightarrow> exec l e = (b, l') \<Longrightarrow>
        used l' (client e) (at e) = used l (client e) (at e) \<and> (b \<longrightarrow> cost e = 0) \<or>
        (case (case used l (client e) (at e) of None \<Rightarrow> (0, at e + len l) | Some p \<Rightarrow> p) of
           (u, r) \<Rightarrow> (b \<longrightarrow> u + cost e \<le> cap l) \<and>
             used l' (client e) (at e) = Some (if b then u + cost e else u, r))"
    and exec_other: "invar l \<Longrightarrow> fits e \<Longrightarrow> exec l e = (b, l') \<Longrightarrow> c \<noteq> client e \<Longrightarrow>
        used l' c (at e) = used l c (at e)"
    and used_bounds: "invar l \<Longrightarrow> used l c t = Some (u, r) \<Longrightarrow> 0 \<le> u \<and> u \<le> cap l \<and> t \<le> r"
    and used_later: "invar l \<Longrightarrow> t \<le> t' \<Longrightarrow> used l c t' =
        (case used l c t of None \<Rightarrow> None | Some (u, r) \<Rightarrow> if r < t' then None else Some (u, r))"
    and cap_nonneg: "invar l \<Longrightarrow> 0 \<le> cap l"
    and cost_nonneg: "fits e \<Longrightarrow> 0 \<le> cost e"
begin

text \<open>What a client gets admitted by a run at times in \<open>P\<close>.\<close>

fun admitted :: "'l \<Rightarrow> string \<Rightarrow> (int \<Rightarrow> bool) \<Rightarrow> 'e list \<Rightarrow> int" where
  "admitted l c P [] = 0"
| "admitted l c P (e # es) =
     (case exec l e of (b, l') \<Rightarrow>
        (if b \<and> client e = c \<and> P (at e) then cost e else 0) + admitted l' c P es)"

text \<open>
  How much can still be admitted in \<open>[a, a + len]\<close> from a state at \<open>now\<close>: a live window that
  reaches beyond the interval leaves what it has not used; one that ends inside it leaves that
  and one more full window; and a client without a live window gets one full window when the
  interval has begun, and at most two before.
\<close>

definition room :: "int \<Rightarrow> string \<Rightarrow> int \<Rightarrow> 'l \<Rightarrow> int" where
  "room a c now l = (case used l c now of
      Some (u, r) \<Rightarrow> if a + len l \<le> r then cap l - u
                    else if a \<le> r then 2 * cap l - u else 2 * cap l
    | None \<Rightarrow> if a \<le> now then cap l else 2 * cap l)"

lemma room_nonneg: "invar l \<Longrightarrow> 0 \<le> room a c now l"
  using cap_nonneg [of l]
  by (auto simp: room_def split: option.splits dest: used_bounds)

lemma room_le_twice: "invar l \<Longrightarrow> room a c now l \<le> 2 * cap l"
  using cap_nonneg [of l]
  by (auto simp: room_def split: option.splits dest: used_bounds)

lemma room_later:
  assumes "invar l" and "now \<le> t" and "t \<le> a + len l"
  shows "room a c t l \<le> room a c now l"
  using cap_nonneg [OF assms(1)] assms
  by (auto simp: room_def used_later [OF assms(1,2)] split: option.splits dest: used_bounds)

lemma room_step:
  assumes inv: "invar l" and fits: "fits e" and ex: "exec l e = (b, l')" and "at e \<le> a + len l"
  shows "(if b \<and> client e = c \<and> a \<le> at e then cost e else 0) + room a c (at e) l' \<le> room a c (at e) l"
proof (cases "client e = c")
  case False
  then have "used l' c (at e) = used l c (at e)"
    using exec_other [OF inv fits ex, of c] by simp
  moreover have "cap l' = cap l" and "len l' = len l"
    using ex by (rule exec_cap, rule exec_len)
  ultimately show ?thesis using False by (simp add: room_def split: option.split)
next
  case True
  note self = exec_self [OF inv fits ex]
  have "0 \<le> cost e" using fits by (rule cost_nonneg)
  with True self cap_nonneg [OF inv] assms(4) show ?thesis
    using used_bounds [OF inv, of "client e" "at e"]
    by (auto simp: room_def exec_cap [OF ex] exec_len [OF ex] split: option.splits)
qed

lemma admitted_outside: "\<forall>e \<in> set es. \<not> P (at e) \<Longrightarrow> admitted l c P es = 0"
  by (induction es arbitrary: l) (auto split: prod.splits)

lemma admitted_le_room:
  assumes "invar l" and "\<forall>e \<in> set es. fits e" and "sorted (now # map at es)"
  shows "admitted l c (\<lambda>t. a \<le> t \<and> t \<le> a + len l) es \<le> room a c now l"
  using assms
proof (induction es arbitrary: l now)
  case Nil
  then show ?case by (simp add: room_nonneg)
next
  case (Cons e es)
  obtain b l' where ex: "exec l e = (b, l')" by (cases "exec l e")
  show ?case
  proof (cases "at e \<le> a + len l")
    case False
    with Cons.prems(3) have "\<forall>e' \<in> set (e # es). \<not> (a \<le> at e' \<and> at e' \<le> a + len l)"
      by force
    then show ?thesis
      using admitted_outside [of "e # es" "\<lambda>t. a \<le> t \<and> t \<le> a + len l" l c]
        room_nonneg [OF Cons.prems(1)] by simp
  next
    case True
    from Cons.prems ex have inv': "invar l'" by (auto intro: exec_invar)
    with Cons have "admitted l' c (\<lambda>t. a \<le> t \<and> t \<le> a + len l') es \<le> room a c (at e) l'"
      by simp
    moreover have "len l' = len l" using ex by (rule exec_len)
    moreover have "room a c (at e) l \<le> room a c now l"
      using Cons.prems True by (intro room_later) auto
    moreover have "(if b \<and> client e = c \<and> a \<le> at e then cost e else 0) + room a c (at e) l'
        \<le> room a c (at e) l"
      using Cons.prems True ex by (intro room_step) auto
    ultimately show ?thesis using ex True by (simp split: if_splits)
  qed
qed

text \<open>
  The fixed-window bound: in no interval as long as the window does a client get more than two
  budgets, whatever the others do.
\<close>

theorem admitted_twice:
  assumes "invar l" and "\<forall>e \<in> set es. fits e" and "sorted (map at es)"
  shows "admitted l c (\<lambda>t. a \<le> t \<and> t \<le> a + len l) es \<le> 2 * cap l"
proof (cases es)
  case Nil
  with cap_nonneg [OF assms(1)] show ?thesis by simp
next
  case (Cons e es')
  with assms have "admitted l c (\<lambda>t. a \<le> t \<and> t \<le> a + len l) es \<le> room a c (at e) l"
    by (intro admitted_le_room) auto
  with room_le_twice [OF assms(1), of a c "at e"] show ?thesis by simp
qed

end

end
