(* ===== verification/Rate_Limit.thy ===== *)
theory Rate_Limit
  imports Config Window_Budget
begin

text \<open>
  \<open>internal/handler/ratelimit.go\<close>: the per-client fixed-window limiter. Times and durations are
  nanoseconds; a \<open>time.Time\<close> is an unbounded integer, a \<open>time.Duration\<close> is 64 bit. Every
  operation runs under the limiter's mutex, so it is one atomic step here; it takes the
  \<open>time.Now()\<close> its caller read.

  The lemmas show the budget invariant, that the answer for a client does not depend on the
  traffic of the others, and how much a client gets through in any interval of one window.
\<close>

section \<open>State and operations\<close>

record window =
  win_count :: go_int
  win_bytes :: go_int
  win_reset :: int

record rateLimiter =
  lim_max :: go_int
  lim_maxBytes :: go_int
  lim_window :: go_int
  lim_trustedProxies :: go_int
  lim_windows :: "(string, window) fmap"

definition newRateLimiter :: "RateLimit \<Rightarrow> go_int \<Rightarrow> rateLimiter" where
  "newRateLimiter rl trustedProxies = \<lparr>
     lim_max = rl_TotalRequests rl,
     lim_maxBytes = rl_MaxBytes rl,
     lim_window = wrap64 (rl_Every rl * 1000000),
     lim_trustedProxies = trustedProxies,
     lim_windows = fmempty\<rparr>"

text \<open>\<open>now.After(win.reset)\<close>.\<close>

definition expired :: "int \<Rightarrow> window \<Rightarrow> bool" where
  "expired now win \<longleftrightarrow> win_reset win < now"

definition sweep :: "rateLimiter \<Rightarrow> int \<Rightarrow> rateLimiter" where
  "sweep l now =
     (if fcard (fmdom (lim_windows l)) < 1024 then l
      else l\<lparr>lim_windows := fm_sweep (expired now) (lim_windows l)\<rparr>)"

text \<open>
  \<open>getWindow\<close> returns a pointer into the map. The sweep that follows the creation of a window
  may drop that very window (when the window length is negative it is born expired); the
  caller's pointer then refers to a window the map no longer holds, and its update is lost.
  So the model returns the window, and \<open>put_window\<close> writes it back only where the map still
  holds the client's entry.
\<close>

definition getWindow :: "rateLimiter \<Rightarrow> string \<Rightarrow> int \<Rightarrow> window \<times> rateLimiter" where
  "getWindow l ip now =
     (let fresh = \<lparr>win_count = 0, win_bytes = 0, win_reset = now + lim_window l\<rparr>;
          renew = (fresh, sweep (l\<lparr>lim_windows := fmupd ip fresh (lim_windows l)\<rparr>) now)
      in case fmlookup (lim_windows l) ip of
           None \<Rightarrow> renew
         | Some win \<Rightarrow> if expired now win then renew else (win, l))"

definition put_window :: "rateLimiter \<Rightarrow> string \<Rightarrow> window \<Rightarrow> rateLimiter" where
  "put_window l ip win =
     (case fmlookup (lim_windows l) ip of
        None \<Rightarrow> l
      | Some _ \<Rightarrow> l\<lparr>lim_windows := fmupd ip win (lim_windows l)\<rparr>)"

definition allow :: "rateLimiter \<Rightarrow> string \<Rightarrow> int \<Rightarrow> bool \<times> rateLimiter" where
  "allow l ip now =
     (let (win, l) = getWindow l ip now
      in if lim_max l \<le> win_count win then (False, l)
         else (True, put_window l ip (win\<lparr>win_count := wrap64 (win_count win + 1)\<rparr>)))"

definition chargeBytes :: "rateLimiter \<Rightarrow> string \<Rightarrow> go_int \<Rightarrow> int \<Rightarrow> bool \<times> rateLimiter" where
  "chargeBytes l ip n now =
     (if lim_maxBytes l \<le> 0 \<or> lim_window l \<le> 0 then (True, l)
      else
        let (win, l) = getWindow l ip now
        in if lim_maxBytes l < wrap64 (win_bytes win + n) then (False, l)
           else (True, put_window l ip (win\<lparr>win_bytes := wrap64 (win_bytes win + n)\<rparr>)))"

text \<open>
  The guard of \<open>middleware\<close>: with the request count disabled the next handler is called
  directly, otherwise \<open>allow\<close> decides.
\<close>

definition limiter_passes :: "rateLimiter \<Rightarrow> string \<Rightarrow> int \<Rightarrow> bool \<times> rateLimiter" where
  "limiter_passes l ip now =
     (if lim_max l \<le> 0 \<or> lim_window l \<le> 0 then (True, l) else allow l ip now)"

section \<open>What the limiter knows about a client\<close>

text \<open>
  \<open>view l ip t\<close> is the client's window as an operation at \<open>t\<close> sees it: the stored one unless it
  has expired. \<open>cur l ip t\<close> is the window that operation works on.
\<close>

definition view :: "rateLimiter \<Rightarrow> string \<Rightarrow> int \<Rightarrow> window option" where
  "view l ip t = (case fmlookup (lim_windows l) ip of
      None \<Rightarrow> None
    | Some win \<Rightarrow> if expired t win then None else Some win)"

definition fresh_window :: "rateLimiter \<Rightarrow> int \<Rightarrow> window" where
  "fresh_window l t = \<lparr>win_count = 0, win_bytes = 0, win_reset = t + lim_window l\<rparr>"

definition cur :: "rateLimiter \<Rightarrow> string \<Rightarrow> int \<Rightarrow> window" where
  "cur l ip t = (case view l ip t of None \<Rightarrow> fresh_window l t | Some win \<Rightarrow> win)"

definition same_config :: "rateLimiter \<Rightarrow> rateLimiter \<Rightarrow> bool" where
  "same_config l l' \<longleftrightarrow> lim_max l' = lim_max l \<and> lim_maxBytes l' = lim_maxBytes l \<and>
     lim_window l' = lim_window l \<and> lim_trustedProxies l' = lim_trustedProxies l"

lemma same_config_refl [simp]: "same_config l l"
  by (simp add: same_config_def)

lemma same_config_trans: "same_config l l' \<Longrightarrow> same_config l' l'' \<Longrightarrow> same_config l l''"
  by (simp add: same_config_def)

lemma same_config_sweep [frame_simps]: "same_config l (sweep l now)"
  by (simp add: sweep_def same_config_def)

lemma same_config_put [frame_simps]: "same_config l (put_window l ip w)"
  by (simp add: put_window_def same_config_def split: option.splits)

lemma same_config_upd [frame_simps]: "same_config l (l\<lparr>lim_windows := m\<rparr>)"
  by (simp add: same_config_def)

lemma same_config_getWindow [frame_simps]: "same_config l (snd (getWindow l ip now))"
  by (auto simp: getWindow_def Let_def same_config_def sweep_def split: option.splits)

lemma same_config_allow [frame_simps]: "same_config l (snd (allow l ip now))"
  using same_config_getWindow [of l ip now]
  by (auto simp: allow_def Let_def split: prod.splits intro: same_config_trans same_config_put)

lemma same_config_chargeBytes [frame_simps]: "same_config l (snd (chargeBytes l ip n now))"
  using same_config_getWindow [of l ip now]
  by (auto simp: chargeBytes_def Let_def split: prod.splits intro: same_config_trans same_config_put)

lemma same_config_passes [frame_simps]: "same_config l (snd (limiter_passes l ip now))"
  by (simp add: limiter_passes_def same_config_allow)

lemma view_not_expired: "view l ip t = Some w \<Longrightarrow> t \<le> win_reset w"
  by (auto simp: view_def expired_def split: option.splits if_splits)

lemma view_later: "t \<le> t' \<Longrightarrow>
    view l ip t' = (case view l ip t of None \<Rightarrow> None | Some w \<Rightarrow> if win_reset w < t' then None else Some w)"
  by (auto simp: view_def expired_def split: option.splits)

text \<open>Sweeping drops only windows the next access would have rolled over anyway.\<close>

lemma view_sweep: "now \<le> t \<Longrightarrow> view (sweep l now) ip t = view l ip t"
  by (auto simp: view_def sweep_def expired_def split: option.splits)

lemma view_upd:
  "view (l\<lparr>lim_windows := fmupd ip w (lim_windows l)\<rparr>) c t =
     (if c = ip then if expired t w then None else Some w else view l c t)"
  by (simp add: view_def)

lemma getWindow_eq:
  "getWindow l ip now =
     (case view l ip now of
        Some w \<Rightarrow> (w, l)
      | None \<Rightarrow> (fresh_window l now,
          sweep (l\<lparr>lim_windows := fmupd ip (fresh_window l now) (lim_windows l)\<rparr>) now))"
  by (auto simp: getWindow_def view_def fresh_window_def Let_def split: option.splits)

lemma getWindow_cur:
  "getWindow l ip now = (w, l') \<Longrightarrow> w = cur l ip now"
  by (auto simp: getWindow_eq cur_def split: option.splits)

lemma cur_not_expired: "0 < lim_window l \<Longrightarrow> \<not> expired now (cur l ip now)"
  by (auto simp: cur_def fresh_window_def expired_def view_def split: option.splits)

lemma getWindow_view:
  assumes "getWindow l ip now = (w, l')" and "0 < lim_window l" and "now \<le> t"
  shows "view l' c t = (if c = ip then if expired t w then None else Some w else view l c t)"
proof (cases "view l ip now")
  case None
  with assms(1) have "w = fresh_window l now"
    and "l' = sweep (l\<lparr>lim_windows := fmupd ip w (lim_windows l)\<rparr>) now"
    by (auto simp: getWindow_eq)
  then show ?thesis using assms(3) by (simp add: view_sweep view_upd)
next
  case (Some w1)
  with assms(1) have "w1 = w" and "l' = l" by (auto simp: getWindow_eq)
  with Some assms(3) show ?thesis by (simp add: view_later [of now t l ip] expired_def)
qed

lemma view_imp_lookup: "view l ip t = Some w \<Longrightarrow> fmlookup (lim_windows l) ip = Some w"
  by (auto simp: view_def split: option.splits if_splits)

lemma view_put:
  assumes "view l ip now = Some w" and "now \<le> t"
  shows "view (put_window l ip w') c t =
     (if c = ip then if expired t w' then None else Some w' else view l c t)"
  using view_imp_lookup [OF assms(1)] by (simp add: put_window_def view_upd)

text \<open>One step on the window the map holds: get it, change it, write it back.\<close>

lemma update_view:
  assumes "getWindow l ip now = (w, l1)" and "0 < lim_window l" and "now \<le> t"
  shows "view (put_window l1 ip w') c t =
     (if c = ip then if expired t w' then None else Some w' else view l c t)"
proof -
  from assms have "view l1 ip now = Some w"
    by (metis getWindow_view getWindow_cur cur_not_expired order_refl)
  from view_put [OF this assms(3), of w' c] getWindow_view [OF assms, of c]
  show ?thesis by simp
qed

section \<open>Allow and chargeBytes as steps on the view\<close>

lemma allow_cases:
  assumes "allow l ip now = (b, l')"
  obtains w l1 where "getWindow l ip now = (w, l1)" and "b \<longleftrightarrow> win_count w < lim_max l"
    and "l' = (if b then put_window l1 ip (w\<lparr>win_count := wrap64 (win_count w + 1)\<rparr>) else l1)"
proof -
  obtain w l1 where g: "getWindow l ip now = (w, l1)" by (cases "getWindow l ip now")
  moreover have "lim_max l1 = lim_max l"
    using same_config_getWindow [of l ip now] g by (simp add: same_config_def)
  ultimately show thesis
    using assms that by (auto simp: allow_def split: if_splits)
qed

lemma chargeBytes_cases:
  assumes "chargeBytes l ip n now = (b, l')" and "0 < lim_maxBytes l" and "0 < lim_window l"
  obtains w l1 where "getWindow l ip now = (w, l1)"
    and "b \<longleftrightarrow> wrap64 (win_bytes w + n) \<le> lim_maxBytes l"
    and "l' = (if b then put_window l1 ip (w\<lparr>win_bytes := wrap64 (win_bytes w + n)\<rparr>) else l1)"
proof -
  obtain w l1 where g: "getWindow l ip now = (w, l1)" by (cases "getWindow l ip now")
  moreover have "lim_maxBytes l1 = lim_maxBytes l"
    using same_config_getWindow [of l ip now] g by (simp add: same_config_def)
  ultimately show thesis
    using assms that by (auto simp: chargeBytes_def split: if_splits)
qed

lemma allow_view:
  assumes "allow l ip now = (b, l')" and "0 < lim_window l" and "now \<le> t"
  shows "b \<longleftrightarrow> win_count (cur l ip now) < lim_max l"
    and "view l' c t =
      (if c = ip then
         let w = (if b then (cur l ip now)\<lparr>win_count := wrap64 (win_count (cur l ip now) + 1)\<rparr>
                  else cur l ip now)
         in if expired t w then None else Some w
       else view l c t)"
proof -
  from assms(1) obtain w l1 where g: "getWindow l ip now = (w, l1)"
    and b: "b \<longleftrightarrow> win_count w < lim_max l"
    and l': "l' = (if b then put_window l1 ip (w\<lparr>win_count := wrap64 (win_count w + 1)\<rparr>) else l1)"
    by (rule allow_cases)
  from g have w: "w = cur l ip now" by (rule getWindow_cur)
  from b w show "b \<longleftrightarrow> win_count (cur l ip now) < lim_max l" by simp
  show "view l' c t =
      (if c = ip then
         let w = (if b then (cur l ip now)\<lparr>win_count := wrap64 (win_count (cur l ip now) + 1)\<rparr>
                  else cur l ip now)
         in if expired t w then None else Some w
       else view l c t)"
    using l' w by (simp add: getWindow_view [OF g assms(2,3)] update_view [OF g assms(2,3)])
qed

lemma chargeBytes_view:
  assumes "chargeBytes l ip n now = (b, l')" and "0 < lim_maxBytes l" and "0 < lim_window l"
    and "now \<le> t"
  shows "b \<longleftrightarrow> wrap64 (win_bytes (cur l ip now) + n) \<le> lim_maxBytes l"
    and "view l' c t =
      (if c = ip then
         let w = (if b then (cur l ip now)\<lparr>win_bytes := wrap64 (win_bytes (cur l ip now) + n)\<rparr>
                  else cur l ip now)
         in if expired t w then None else Some w
       else view l c t)"
proof -
  from assms(1-3) obtain w l1 where g: "getWindow l ip now = (w, l1)"
    and b: "b \<longleftrightarrow> wrap64 (win_bytes w + n) \<le> lim_maxBytes l"
    and l': "l' = (if b then put_window l1 ip (w\<lparr>win_bytes := wrap64 (win_bytes w + n)\<rparr>) else l1)"
    by (rule chargeBytes_cases)
  from g have w: "w = cur l ip now" by (rule getWindow_cur)
  from b w show "b \<longleftrightarrow> wrap64 (win_bytes (cur l ip now) + n) \<le> lim_maxBytes l" by simp
  show "view l' c t =
      (if c = ip then
         let w = (if b then (cur l ip now)\<lparr>win_bytes := wrap64 (win_bytes (cur l ip now) + n)\<rparr>
                  else cur l ip now)
         in if expired t w then None else Some w
       else view l c t)"
    using l' w by (simp add: getWindow_view [OF g assms(3,4)] update_view [OF g assms(3,4)])
qed

section \<open>The budget invariant\<close>

text \<open>No stored window has counted more than its budget.\<close>

definition window_ok :: "rateLimiter \<Rightarrow> window \<Rightarrow> bool" where
  "window_ok l w \<longleftrightarrow> 0 \<le> win_count w \<and> win_count w \<le> max 0 (lim_max l) \<and>
     0 \<le> win_bytes w \<and> win_bytes w \<le> max 0 (lim_maxBytes l)"

definition limiter_ok :: "rateLimiter \<Rightarrow> bool" where
  "limiter_ok l \<longleftrightarrow> in_int64 (lim_max l) \<and> in_int64 (lim_maxBytes l) \<and>
     (\<forall>ip w. fmlookup (lim_windows l) ip = Some w \<longrightarrow> window_ok l w)"

lemma limiter_ok_new:
  "in_int64 (rl_TotalRequests rl) \<Longrightarrow> in_int64 (rl_MaxBytes rl) \<Longrightarrow> limiter_ok (newRateLimiter rl p)"
  by (simp add: limiter_ok_def newRateLimiter_def)

lemma window_ok_fresh [simp]: "window_ok l (fresh_window l' now)"
  by (simp add: window_ok_def fresh_window_def)

lemma window_ok_cong: "same_config l l' \<Longrightarrow> window_ok l' w = window_ok l w"
  by (simp add: window_ok_def same_config_def)

lemma limiter_okI:
  assumes "limiter_ok l" and "same_config l l'"
    and "\<And>ip w. fmlookup (lim_windows l') ip = Some w \<Longrightarrow> window_ok l w"
  shows "limiter_ok l'"
  using assms by (auto simp: limiter_ok_def window_ok_cong) (simp_all add: same_config_def)

lemma cur_ok: "limiter_ok l \<Longrightarrow> window_ok l (cur l ip now)"
  by (auto simp: cur_def limiter_ok_def split: option.splits dest: view_imp_lookup)

lemma limiter_ok_upd:
  "limiter_ok l \<Longrightarrow> window_ok l w \<Longrightarrow> limiter_ok (l\<lparr>lim_windows := fmupd ip w (lim_windows l)\<rparr>)"
  by (rule limiter_okI) (auto simp: same_config_upd limiter_ok_def split: if_splits)

lemma limiter_ok_put: "limiter_ok l \<Longrightarrow> window_ok l w \<Longrightarrow> limiter_ok (put_window l ip w)"
  by (auto simp: put_window_def limiter_ok_upd split: option.splits)

lemma limiter_ok_sweep: "limiter_ok l \<Longrightarrow> limiter_ok (sweep l now)"
  by (rule limiter_okI [OF _ same_config_sweep])
    (auto simp: sweep_def limiter_ok_def split: if_splits option.splits)

lemma getWindow_ok:
  assumes "limiter_ok l" and "getWindow l ip now = (w, l')"
  shows "limiter_ok l'" and "window_ok l' w"
proof -
  from assms show "limiter_ok l'"
    by (auto simp: getWindow_eq limiter_ok_sweep limiter_ok_upd split: option.splits)
  from assms(2) have "same_config l l'" using same_config_getWindow [of l ip now] by simp
  with cur_ok [OF assms(1), of ip now] getWindow_cur [OF assms(2)]
  show "window_ok l' w" by (simp add: window_ok_cong)
qed

lemma allow_ok: "limiter_ok l \<Longrightarrow> limiter_ok (snd (allow l ip now))"
proof -
  assume ok: "limiter_ok l"
  obtain w l1 where g: "getWindow l ip now = (w, l1)" by (cases "getWindow l ip now")
  note ok1 = getWindow_ok [OF ok g]
  have "win_count w < lim_max l1 \<Longrightarrow> window_ok l1 (w\<lparr>win_count := wrap64 (win_count w + 1)\<rparr>)"
    using ok1 by (auto simp: window_ok_def limiter_ok_def in_int64_def wrap64_nonneg)
  with ok1 g show ?thesis by (auto simp: allow_def intro: limiter_ok_put)
qed

lemma chargeBytes_ok:
  assumes ok: "limiter_ok l" and "0 \<le> n" and "n < 2 ^ 62" and "lim_maxBytes l < 2 ^ 62"
  shows "limiter_ok (snd (chargeBytes l ip n now))"
proof -
  obtain w l1 where g: "getWindow l ip now = (w, l1)" by (cases "getWindow l ip now")
  note ok1 = getWindow_ok [OF ok g]
  have "lim_maxBytes l1 = lim_maxBytes l"
    using same_config_getWindow [of l ip now] g by (simp add: same_config_def)
  then have "0 < lim_maxBytes l \<Longrightarrow> wrap64 (win_bytes w + n) = win_bytes w + n"
    using ok1 assms(2-4) by (auto simp: window_ok_def intro!: wrap64_nonneg)
  then have "0 < lim_maxBytes l \<Longrightarrow> wrap64 (win_bytes w + n) \<le> lim_maxBytes l1 \<Longrightarrow>
      window_ok l1 (w\<lparr>win_bytes := wrap64 (win_bytes w + n)\<rparr>)"
    using ok1 assms(2) by (auto simp: window_ok_def)
  with ok1 ok g show ?thesis by (auto simp: chargeBytes_def intro: limiter_ok_put)
qed

section \<open>Runs\<close>

text \<open>
  The limiter under any interleaving of its two entry points: a request passing the middleware,
  and a paste charging its bytes.
\<close>

datatype lim_event = Request string int | Charge string go_int int

fun ev_client :: "lim_event \<Rightarrow> string" where
  "ev_client (Request ip _) = ip"
| "ev_client (Charge ip _ _) = ip"

fun ev_time :: "lim_event \<Rightarrow> int" where
  "ev_time (Request _ now) = now"
| "ev_time (Charge _ _ now) = now"

fun ev_requests :: "lim_event \<Rightarrow> int" where
  "ev_requests (Request _ _) = 1"
| "ev_requests (Charge _ _ _) = 0"

fun ev_bytes :: "lim_event \<Rightarrow> int" where
  "ev_bytes (Request _ _) = 0"
| "ev_bytes (Charge _ n _) = n"

definition ev_fits :: "lim_event \<Rightarrow> bool" where
  "ev_fits e \<longleftrightarrow> 0 \<le> ev_bytes e \<and> ev_bytes e < 2 ^ 62"

fun lim_exec :: "rateLimiter \<Rightarrow> lim_event \<Rightarrow> bool \<times> rateLimiter" where
  "lim_exec l (Request ip now) = limiter_passes l ip now"
| "lim_exec l (Charge ip n now) = chargeBytes l ip n now"

lemma lim_exec_config: "same_config l (snd (lim_exec l e))"
  by (cases e) (simp_all add: same_config_passes same_config_chargeBytes)

lemma lim_exec_ok:
  "limiter_ok l \<Longrightarrow> lim_maxBytes l < 2 ^ 62 \<Longrightarrow> ev_fits e \<Longrightarrow> limiter_ok (snd (lim_exec l e))"
  by (cases e) (simp_all add: limiter_passes_def allow_ok chargeBytes_ok ev_fits_def)

lemma lim_exec_other:
  assumes "lim_exec l e = (b, l')" and "0 < lim_window l" and "c \<noteq> ev_client e" and "ev_time e \<le> t"
  shows "view l' c t = view l c t"
proof (cases e)
  case (Request ip now)
  with assms show ?thesis
    by (auto simp: limiter_passes_def allow_view(2) split: if_splits)
next
  case (Charge ip n now)
  show ?thesis
  proof (cases "0 < lim_maxBytes l")
    case True
    with assms Charge show ?thesis by (auto simp: chargeBytes_view(2))
  next
    case False
    with assms Charge show ?thesis by (auto simp: chargeBytes_def)
  qed
qed

definition limits_ok :: "rateLimiter \<Rightarrow> bool" where
  "limits_ok l \<longleftrightarrow> limiter_ok l \<and> 0 < lim_window l \<and> lim_maxBytes l < 2 ^ 62"

definition used_requests :: "rateLimiter \<Rightarrow> string \<Rightarrow> int \<Rightarrow> (int \<times> int) option" where
  "used_requests l c t = map_option (\<lambda>w. (win_count w, win_reset w)) (view l c t)"

definition used_bytes :: "rateLimiter \<Rightarrow> string \<Rightarrow> int \<Rightarrow> (int \<times> int) option" where
  "used_bytes l c t = map_option (\<lambda>w. (win_bytes w, win_reset w)) (view l c t)"

lemma limits_ok_exec: "limits_ok l \<Longrightarrow> ev_fits e \<Longrightarrow> limits_ok (snd (lim_exec l e))"
  using lim_exec_config [of l e] lim_exec_ok [of l e]
  by (simp add: limits_ok_def same_config_def)

lemma view_ok: "limiter_ok l \<Longrightarrow> view l c t = Some w \<Longrightarrow> window_ok l w"
  by (auto simp: limiter_ok_def dest: view_imp_lookup)

lemma chargeBytes_bytes:
  assumes "limits_ok l" and "0 < lim_maxBytes l" and "0 \<le> n" and "n < 2 ^ 62"
  shows "wrap64 (win_bytes (cur l ip now) + n) = win_bytes (cur l ip now) + n"
  using cur_ok [of l ip now] assms
  by (auto simp: limits_ok_def window_ok_def intro!: wrap64_nonneg)

lemma allow_count:
  assumes "limits_ok l" and "win_count (cur l ip now) < lim_max l"
  shows "wrap64 (win_count (cur l ip now) + 1) = win_count (cur l ip now) + 1"
  using cur_ok [of l ip now] assms
  by (auto simp: limits_ok_def limiter_ok_def window_ok_def in_int64_def intro!: wrap64_nonneg)

lemma cur_reset_ge: "0 < lim_window l \<Longrightarrow> now \<le> win_reset (cur l ip now)"
  using cur_not_expired [where l = l and ip = ip and now = now] by (simp add: expired_def)

text \<open>The window after a step at its own time, when the step uses the window.\<close>

lemma request_view:
  assumes "limits_ok l" and "0 < lim_max l" and "lim_exec l (Request ip now) = (b, l')"
  shows "b \<longleftrightarrow> win_count (cur l ip now) < lim_max l"
    and "view l' ip now = Some (if b then (cur l ip now)\<lparr>win_count := win_count (cur l ip now) + 1\<rparr>
                                else cur l ip now)"
proof -
  from assms have a: "allow l ip now = (b, l')" and w: "0 < lim_window l"
    by (auto simp: limiter_passes_def limits_ok_def)
  show b: "b \<longleftrightarrow> win_count (cur l ip now) < lim_max l"
    using allow_view(1) [OF a w order_refl] .
  show "view l' ip now = Some (if b then (cur l ip now)\<lparr>win_count := win_count (cur l ip now) + 1\<rparr>
                               else cur l ip now)"
    using allow_view(2) [OF a w order_refl, of ip] b cur_reset_ge [OF w, where ip = ip and now = now] assms(1)
    by (auto simp: allow_count Let_def expired_def)
qed

lemma charge_view:
  assumes "limits_ok l" and "0 < lim_maxBytes l" and "ev_fits (Charge ip n now)"
    and "lim_exec l (Charge ip n now) = (b, l')"
  shows "b \<longleftrightarrow> win_bytes (cur l ip now) + n \<le> lim_maxBytes l"
    and "view l' ip now = Some (if b then (cur l ip now)\<lparr>win_bytes := win_bytes (cur l ip now) + n\<rparr>
                                else cur l ip now)"
proof -
  from assms have a: "chargeBytes l ip n now = (b, l')" and w: "0 < lim_window l"
    and n: "0 \<le> n" "n < 2 ^ 62"
    by (auto simp: limits_ok_def ev_fits_def)
  note eq = chargeBytes_bytes [OF assms(1,2) n, where ip = ip and now = now]
  show "b \<longleftrightarrow> win_bytes (cur l ip now) + n \<le> lim_maxBytes l"
    using chargeBytes_view(1) [OF a assms(2) w order_refl] eq by simp
  show "view l' ip now = Some (if b then (cur l ip now)\<lparr>win_bytes := win_bytes (cur l ip now) + n\<rparr>
                               else cur l ip now)"
    using chargeBytes_view(2) [OF a assms(2) w order_refl, of ip] eq cur_reset_ge [OF w, where ip = ip and now = now]
    by (auto simp: Let_def expired_def)
qed

lemma charge_disabled: "lim_maxBytes l \<le> 0 \<Longrightarrow> lim_exec l (Charge ip n now) = (True, l)"
  by (simp add: chargeBytes_def)

lemma request_disabled: "lim_max l \<le> 0 \<Longrightarrow> lim_exec l (Request ip now) = (True, l)"
  by (simp add: limiter_passes_def)

text \<open>Both budgets keep the contract of \<open>window_budget\<close>.\<close>

lemma used_requests_self:
  assumes "limits_ok l \<and> 0 < lim_max l" and "ev_fits e" and "lim_exec l e = (b, l')"
  shows "used_requests l' (ev_client e) (ev_time e) = used_requests l (ev_client e) (ev_time e) \<and>
      (b \<longrightarrow> ev_requests e = 0) \<or>
    (case (case used_requests l (ev_client e) (ev_time e) of
             None \<Rightarrow> (0, ev_time e + lim_window l) | Some p \<Rightarrow> p) of
       (u, r) \<Rightarrow> (b \<longrightarrow> u + ev_requests e \<le> lim_max l) \<and>
         used_requests l' (ev_client e) (ev_time e) = Some (if b then u + ev_requests e else u, r))"
proof (cases e)
  case (Request ip now)
  with assms request_view [of l ip now b l'] show ?thesis
    by (auto simp: used_requests_def cur_def fresh_window_def split: option.splits)
next
  case (Charge ip n now)
  show ?thesis
  proof (cases "0 < lim_maxBytes l")
    case True
    with Charge assms charge_view [of l ip n now b l'] show ?thesis
      by (auto simp: used_requests_def cur_def fresh_window_def limits_ok_def window_ok_def
          split: option.splits dest: view_ok)
  next
    case False
    with Charge assms charge_disabled [of l ip n now] show ?thesis by auto
  qed
qed

lemma used_bytes_self:
  assumes "limits_ok l \<and> 0 < lim_maxBytes l" and "ev_fits e" and "lim_exec l e = (b, l')"
  shows "used_bytes l' (ev_client e) (ev_time e) = used_bytes l (ev_client e) (ev_time e) \<and>
      (b \<longrightarrow> ev_bytes e = 0) \<or>
    (case (case used_bytes l (ev_client e) (ev_time e) of
             None \<Rightarrow> (0, ev_time e + lim_window l) | Some p \<Rightarrow> p) of
       (u, r) \<Rightarrow> (b \<longrightarrow> u + ev_bytes e \<le> lim_maxBytes l) \<and>
         used_bytes l' (ev_client e) (ev_time e) = Some (if b then u + ev_bytes e else u, r))"
proof (cases e)
  case (Charge ip n now)
  with assms charge_view [of l ip n now b l'] show ?thesis
    by (auto simp: used_bytes_def cur_def fresh_window_def split: option.splits)
next
  case (Request ip now)
  show ?thesis
  proof (cases "0 < lim_max l")
    case True
    with Request assms request_view [of l ip now b l'] show ?thesis
      by (auto simp: used_bytes_def cur_def fresh_window_def limits_ok_def window_ok_def
          split: option.splits dest: view_ok)
  next
    case False
    with Request assms request_disabled [of l ip now] show ?thesis by auto
  qed
qed

lemma lim_exec_const:
  assumes "lim_exec l e = (b, l')"
  shows "lim_max l' = lim_max l" and "lim_maxBytes l' = lim_maxBytes l" and "lim_window l' = lim_window l"
  using lim_exec_config [of l e] assms by (simp_all add: same_config_def)

lemma limits_ok_step: "limits_ok l \<Longrightarrow> ev_fits e \<Longrightarrow> lim_exec l e = (b, l') \<Longrightarrow> limits_ok l'"
  using limits_ok_exec [of l e] by simp

lemma used_requests_later:
  "t \<le> t' \<Longrightarrow> used_requests l c t' = (case used_requests l c t of
      None \<Rightarrow> None | Some (u, r) \<Rightarrow> if r < t' then None else Some (u, r))"
  by (auto simp: used_requests_def view_later [of t t'] split: option.splits)

lemma used_bytes_later:
  "t \<le> t' \<Longrightarrow> used_bytes l c t' = (case used_bytes l c t of
      None \<Rightarrow> None | Some (u, r) \<Rightarrow> if r < t' then None else Some (u, r))"
  by (auto simp: used_bytes_def view_later [of t t'] split: option.splits)

lemma used_requests_bounds:
  "limits_ok l \<and> 0 < lim_max l \<Longrightarrow> used_requests l c t = Some (u, r) \<Longrightarrow> 0 \<le> u \<and> u \<le> lim_max l \<and> t \<le> r"
  by (auto simp: used_requests_def limits_ok_def window_ok_def dest: view_ok view_not_expired)

lemma used_bytes_bounds:
  "limits_ok l \<and> 0 < lim_maxBytes l \<Longrightarrow> used_bytes l c t = Some (u, r) \<Longrightarrow>
   0 \<le> u \<and> u \<le> lim_maxBytes l \<and> t \<le> r"
  by (auto simp: used_bytes_def limits_ok_def window_ok_def dest: view_ok view_not_expired)

lemma used_other:
  assumes "limits_ok l" and "lim_exec l e = (b, l')" and "c \<noteq> ev_client e"
  shows "used_requests l' c (ev_time e) = used_requests l c (ev_time e)"
    and "used_bytes l' c (ev_time e) = used_bytes l c (ev_time e)"
  using lim_exec_other [OF assms(2) _ assms(3) order_refl] assms(1)
  by (simp_all add: used_requests_def used_bytes_def limits_ok_def)

interpretation requests: window_budget lim_exec ev_client ev_time ev_requests used_requests lim_max
  lim_window "\<lambda>l. limits_ok l \<and> 0 < lim_max l" ev_fits
proof unfold_locales
  fix l e b l'
  assume "limits_ok l \<and> 0 < lim_max l" "ev_fits e" "lim_exec l e = (b, l')"
  then show "limits_ok l' \<and> 0 < lim_max l'" by (auto simp: lim_exec_const intro: limits_ok_step)
next
  fix e assume "ev_fits e" then show "0 \<le> ev_requests e" by (cases e) simp_all
qed (simp_all add: lim_exec_const used_requests_self used_other used_requests_later used_requests_bounds)

interpretation bytes: window_budget lim_exec ev_client ev_time ev_bytes used_bytes lim_maxBytes
  lim_window "\<lambda>l. limits_ok l \<and> 0 < lim_maxBytes l" ev_fits
proof unfold_locales
  fix l e b l'
  assume "limits_ok l \<and> 0 < lim_maxBytes l" "ev_fits e" "lim_exec l e = (b, l')"
  then show "limits_ok l' \<and> 0 < lim_maxBytes l'" by (auto simp: lim_exec_const intro: limits_ok_step)
qed (simp_all add: lim_exec_const used_bytes_self used_other used_bytes_later used_bytes_bounds ev_fits_def)

section \<open>Requests and bytes a client gets through\<close>

fun admitted_requests :: "rateLimiter \<Rightarrow> string \<Rightarrow> (int \<Rightarrow> bool) \<Rightarrow> lim_event list \<Rightarrow> int" where
  "admitted_requests l c P [] = 0"
| "admitted_requests l c P (e # es) =
     (case lim_exec l e of (b, l') \<Rightarrow>
        (if b \<and> ev_client e = c \<and> P (ev_time e) then ev_requests e else 0) + admitted_requests l' c P es)"

fun admitted_bytes :: "rateLimiter \<Rightarrow> string \<Rightarrow> (int \<Rightarrow> bool) \<Rightarrow> lim_event list \<Rightarrow> int" where
  "admitted_bytes l c P [] = 0"
| "admitted_bytes l c P (e # es) =
     (case lim_exec l e of (b, l') \<Rightarrow>
        (if b \<and> ev_client e = c \<and> P (ev_time e) then ev_bytes e else 0) + admitted_bytes l' c P es)"

lemma admitted_requests_eq: "admitted_requests l c P es = requests.admitted l c P es"
  by (induction es arbitrary: l) (simp_all split: prod.split)

lemma admitted_bytes_eq: "admitted_bytes l c P es = bytes.admitted l c P es"
  by (induction es arbitrary: l) (simp_all split: prod.split)

fun decisions :: "rateLimiter \<Rightarrow> string \<Rightarrow> lim_event list \<Rightarrow> bool list" where
  "decisions l c [] = []"
| "decisions l c (e # es) =
     (case lim_exec l e of (b, l') \<Rightarrow> (if ev_client e = c then [b] else []) @ decisions l' c es)"

definition agree :: "string \<Rightarrow> int \<Rightarrow> rateLimiter \<Rightarrow> rateLimiter \<Rightarrow> bool" where
  "agree c t l1 l2 \<longleftrightarrow> same_config l1 l2 \<and> view l1 c t = view l2 c t"

lemma agree_later: "agree c t l1 l2 \<Longrightarrow> t \<le> t' \<Longrightarrow> agree c t' l1 l2"
  by (simp add: agree_def view_later [of t t'])

lemma agree_cur: "agree c t l1 l2 \<Longrightarrow> cur l1 c t = cur l2 c t"
  by (simp add: agree_def cur_def fresh_window_def same_config_def split: option.split)

lemma agree_self:
  assumes "agree (ev_client e) (ev_time e) l1 l2" and "0 < lim_window l1"
    and "lim_exec l1 e = (b1, l1')" and "lim_exec l2 e = (b2, l2')"
  shows "b1 = b2 \<and> agree (ev_client e) (ev_time e) l1' l2'"
proof -
  note cur = agree_cur [OF assms(1)]
  from assms have conf: "same_config l1 l2" and w2: "0 < lim_window l2"
    and conf': "same_config l1' l2'"
    using lim_exec_config [of l1 e] lim_exec_config [of l2 e]
    by (auto simp: agree_def same_config_def)
  have "b1 = b2 \<and> view l1' (ev_client e) (ev_time e) = view l2' (ev_client e) (ev_time e)"
  proof (cases e)
    case (Request ip now)
    show ?thesis
    proof (cases "0 < lim_max l1")
      case True
      with Request assms w2 conf
      have a1: "allow l1 ip now = (b1, l1')" and a2: "allow l2 ip now = (b2, l2')"
        by (simp_all add: limiter_passes_def same_config_def)
      show ?thesis
        using Request cur conf allow_view(1) [OF a1 assms(2) order_refl]
          allow_view(2) [OF a1 assms(2) order_refl, of ip]
          allow_view(1) [OF a2 w2 order_refl] allow_view(2) [OF a2 w2 order_refl, of ip]
        by (simp add: same_config_def)
    next
      case False
      with Request assms conf show ?thesis
        by (auto simp: limiter_passes_def agree_def same_config_def)
    qed
  next
    case (Charge ip n now)
    show ?thesis
    proof (cases "0 < lim_maxBytes l1")
      case True
      moreover from True conf have "0 < lim_maxBytes l2" by (simp add: same_config_def)
      moreover from Charge assms have a1: "chargeBytes l1 ip n now = (b1, l1')"
        and a2: "chargeBytes l2 ip n now = (b2, l2')" by simp_all
      ultimately show ?thesis
        using Charge cur conf chargeBytes_view(1) [OF a1 True assms(2) order_refl]
          chargeBytes_view(2) [OF a1 True assms(2) order_refl, of ip]
          chargeBytes_view(1) [OF a2 _ w2 order_refl] chargeBytes_view(2) [OF a2 _ w2 order_refl, of ip]
        by (simp add: same_config_def)
    next
      case False
      with Charge assms conf show ?thesis
        by (auto simp: chargeBytes_def agree_def same_config_def)
    qed
  qed
  with conf' show ?thesis by (simp add: agree_def)
qed

lemma agree_other:
  assumes "agree c t l1 l2" and "0 < lim_window l1" and "c \<noteq> ev_client e" and "t \<le> ev_time e"
    and "lim_exec l1 e = (b, l1')"
  shows "agree c (ev_time e) l1' l2"
  using agree_later [OF assms(1,4)] lim_exec_other [OF assms(5,2,3) order_refl]
    lim_exec_config [of l1 e] assms(5)
  by (auto simp: agree_def same_config_def)

lemma decisions_agree:
  assumes "agree c t l1 l2" and "0 < lim_window l1" and "sorted (t # map ev_time es)"
  shows "decisions l1 c es = decisions l2 c (filter (\<lambda>e. ev_client e = c) es)"
  using assms
proof (induction es arbitrary: t l1 l2)
  case Nil
  then show ?case by simp
next
  case (Cons e es)
  obtain b1 l1' where e1: "lim_exec l1 e = (b1, l1')" by (cases "lim_exec l1 e")
  obtain b2 l2' where e2: "lim_exec l2 e = (b2, l2')" by (cases "lim_exec l2 e")
  have w: "0 < lim_window l1'" using Cons.prems(2) e1 by (simp add: lim_exec_const)
  show ?case
  proof (cases "ev_client e = c")
    case True
    with Cons.prems have "agree (ev_client e) (ev_time e) l1 l2" by (auto intro: agree_later)
    from agree_self [OF this Cons.prems(2) e1 e2] True
    have "b1 = b2" and "agree c (ev_time e) l1' l2'" by auto
    with Cons.IH [OF _ w, of "ev_time e" l2'] Cons.prems(3) True e1 e2 show ?thesis by simp
  next
    case False
    with Cons.prems e1 have "agree c (ev_time e) l1' l2" by (intro agree_other [of c t l1 l2 e b1]) auto
    with Cons.IH [OF _ w, of "ev_time e" l2] Cons.prems(3) False e1 show ?thesis by simp
  qed
qed

section \<open>Properties\<close>

text \<open>
  The budget holds over any interval, not only within a window, whatever the other clients send and
  wherever the windows fall.
\<close>

lemma client_budget:
  assumes "limits_ok l" and "\<forall>e \<in> set es. ev_fits e" and "sorted (map ev_time es)"
  shows "(0 < lim_max l \<longrightarrow>
      admitted_requests l c (\<lambda>t. a \<le> t \<and> t \<le> a + lim_window l) es \<le> 2 * lim_max l) \<and>
    (0 < lim_maxBytes l \<longrightarrow>
      admitted_bytes l c (\<lambda>t. a \<le> t \<and> t \<le> a + lim_window l) es \<le> 2 * lim_maxBytes l)"
  using requests.admitted_twice [OF _ assms(2,3), of l c a] bytes.admitted_twice [OF _ assms(2,3), of l c a]
    assms(1)
  by (simp add: admitted_requests_eq admitted_bytes_eq)

definition two_per_second :: rateLimiter where
  "two_per_second = newRateLimiter \<lparr>rl_TotalRequests = 2, rl_Every = 1000, rl_MaxBytes = 10\<rparr> 0"

lemma two_per_second_ok: "limits_ok two_per_second"
  using limiter_ok_new [of "\<lparr>rl_TotalRequests = 2, rl_Every = 1000, rl_MaxBytes = 10\<rparr>" 0]
  by (simp add: limits_ok_def two_per_second_def in_int64_def newRateLimiter_def wrap64_nonneg)

lemma two_per_second_simps: "lim_max two_per_second = 2" "lim_maxBytes two_per_second = 10"
    "lim_window two_per_second = 1000000000"
  by (simp_all add: two_per_second_def newRateLimiter_def wrap64_nonneg)

text \<open>
  C16. Clients cannot disturb each other: the answers a client gets are those it would get if it
  were the only one, whatever the others send in between, sweeps of the table included.
\<close>

theorem client_isolation:
  assumes "0 < lim_window l" and "sorted (map ev_time es)"
  shows "decisions l c es = decisions l c (filter (\<lambda>e. ev_client e = c) es)"
proof (cases es)
  case (Cons e es')
  with assms show ?thesis by (intro decisions_agree [of c "ev_time e"]) (auto simp: agree_def)
qed simp

lemma client_isolation_witness:
  "decisions two_per_second ''a'' [Request ''a'' 0, Request ''b'' 1, Request ''b'' 2, Request ''b'' 3, Request ''a'' 4] =
   decisions two_per_second ''a'' [Request ''a'' 0, Request ''a'' 4]"
  using client_isolation [of two_per_second
      "[Request ''a'' 0, Request ''b'' 1, Request ''b'' 2, Request ''b'' 3, Request ''a'' 4]" "''a''"]
  by (simp add: two_per_second_simps)

text \<open>Requests of one client within its current window are let through in order, up to the budget.\<close>

lemma burst_view:
  assumes "limits_ok l" and "0 < lim_max l" and "view l c t = Some w"
    and "sorted (t # ts)" and "\<forall>u \<in> set ts. u \<le> win_reset w"
  shows "decisions l c (map (Request c) ts) =
     map (\<lambda>i. win_count w + int i < lim_max l) [0..<length ts]"
  using assms
proof (induction ts arbitrary: l t w)
  case (Cons u ts)
  obtain b l' where e: "lim_exec l (Request c u) = (b, l')" by (cases "lim_exec l (Request c u)")
  have cur: "cur l c u = w"
    using Cons.prems by (simp add: cur_def view_later [of t u] expired_def)
  note r = request_view [OF Cons.prems(1,2) e, unfolded cur]
  let ?w = "if b then w\<lparr>win_count := win_count w + 1\<rparr> else w"
  have l': "limits_ok l'" "lim_max l' = lim_max l"
    using limits_ok_step [OF Cons.prems(1) _ e] lim_exec_const [OF e] by (simp_all add: ev_fits_def)
  have "decisions l' c (map (Request c) ts) = map (\<lambda>i. win_count ?w + int i < lim_max l') [0..<length ts]"
    using Cons.prems l' r(2) by (intro Cons.IH [of l' u]) auto
  also have "\<dots> = map (\<lambda>i. win_count w + int (Suc i) < lim_max l) [0..<length ts]"
    using r(1) l'(2) by auto
  finally show ?case
    using e r(1) by (simp add: upt_rec [of 0 "Suc _"] map_Suc_upt [symmetric] del: upt_Suc)
qed simp

text \<open>
  The budget is also granted: a client with no window of its own that sends any number of
  requests within one window length gets exactly the first \<open>max\<close> of them through.
\<close>

lemma burst_admitted:
  assumes "limits_ok l" and "0 < lim_max l" and "view l c t = None"
    and "sorted (t # ts)" and "\<forall>u \<in> set ts. u \<le> t + lim_window l"
  shows "decisions l c (map (Request c) (t # ts)) = map (\<lambda>i. int i < lim_max l) [0..<Suc (length ts)]"
proof -
  obtain b l' where e: "lim_exec l (Request c t) = (b, l')" by (cases "lim_exec l (Request c t)")
  have cur: "cur l c t = fresh_window l t" using assms(3) by (simp add: cur_def)
  note r = request_view [OF assms(1,2) e, unfolded cur]
  have b: b using r(1) assms(2) by (simp add: fresh_window_def)
  have l': "limits_ok l'" "lim_max l' = lim_max l"
    using limits_ok_step [OF assms(1) _ e] lim_exec_const [OF e] by (simp_all add: ev_fits_def)
  have "decisions l' c (map (Request c) ts) =
      map (\<lambda>i. win_count ((fresh_window l t)\<lparr>win_count := 1\<rparr>) + int i < lim_max l') [0..<length ts]"
    using r(2) b l' assms by (intro burst_view [of l' c t]) (auto simp: fresh_window_def)
  then show ?thesis
    using e b l'(2) assms(2) by (simp add: upt_rec [of 0 "Suc _"] map_Suc_upt [symmetric] add.commute del: upt_Suc)
qed

lemma burst_admitted_witness:
  "decisions two_per_second ''a'' (map (Request ''a'') [5, 5, 900, 901]) = [True, True, False, False]"
  using burst_admitted [of two_per_second "''a''" 5 "[5, 900, 901]"] two_per_second_ok
  by (simp add: two_per_second_simps view_def upt_rec) (simp add: two_per_second_def newRateLimiter_def)

end
