(* ===== verification/Store.thy ===== *)
theory Store
  imports Config
begin

text \<open>
  \<open>internal/store/store.go\<close>: the interface every backend implements, and the contract its
  callers rely on, as a locale. What an operation reads from outside the store (the clock, and
  which of its calls to the backend fail) is an \<open>io_env\<close> argument; what it changes is returned.

  A paste lives in a \<^emph>\<open>slot\<close>: the key itself in the databases, the hash of the key in the file
  backend. Slots are also the handles of \<open>List\<close> and \<open>Delete\<close>.
\<close>

section \<open>The interface\<close>

datatype store_error = ErrKeyExists | StoreErr string

definition DefaultListLimit :: go_int where
  "DefaultListLimit = 500"

record PasteMeta =
  pm_Key :: string
  pm_Size :: go_int
  pm_Created :: "int option"
  pm_Expiration :: "int option"

record Stats =
  st_Count :: go_int
  st_Bytes :: go_int

text \<open>
  What an operation meets: the process clock (nanoseconds), the database server's clock
  (microseconds), whether its \<open>n\<close>-th call to the backend fails, with which SQLite result code or
  SQLSTATE, and how many bytes of a failing file write reached the disk.
\<close>

record io_env =
  io_now :: int
  io_dbnow :: int
  io_fail :: "nat \<Rightarrow> bool"
  io_sqlite_code :: go_int
  io_sqlstate :: string
  io_written :: nat

definition calm :: "int \<Rightarrow> io_env" where
  "calm t = \<lparr>io_now = t, io_dbnow = t div 1000, io_fail = (\<lambda>_. False), io_sqlite_code = 0,
     io_sqlstate = [], io_written = 0\<rparr>"

definition io_ok :: "io_env \<Rightarrow> bool" where
  "io_ok env \<longleftrightarrow> (\<forall>n. \<not> io_fail env n)"

lemma io_ok_calm [simp]: "io_ok (calm t)"
  by (simp add: io_ok_def calm_def)

lemma calm_simps [simp]: "io_now (calm t) = t" "io_dbnow (calm t) = t div 1000"
    "io_fail (calm t) n = False"
  by (simp_all add: calm_def)

record 's store_ops =
  op_Get :: "io_env \<Rightarrow> string \<Rightarrow> bool \<Rightarrow> 's \<Rightarrow> (store_error + string option) \<times> 's"
  op_Set :: "io_env \<Rightarrow> string \<Rightarrow> string \<Rightarrow> 's \<Rightarrow> store_error option \<times> 's"
  op_List :: "io_env \<Rightarrow> go_int \<Rightarrow> 's \<Rightarrow> (store_error + PasteMeta list) \<times> 's"
  op_Delete :: "io_env \<Rightarrow> string \<Rightarrow> 's \<Rightarrow> (store_error + bool) \<times> 's"
  op_Stats :: "io_env \<Rightarrow> 's \<Rightarrow> (store_error + Stats) \<times> 's"
  op_PurgeExpired :: "io_env \<Rightarrow> 's \<Rightarrow> (store_error + go_int) \<times> 's"

section \<open>The contract\<close>

text \<open>
  \<open>content s h\<close> is what slot \<open>h\<close> holds, expired or not; \<open>live env s h\<close> whether a read at \<open>env\<close>
  sees it; \<open>lasts env env' s\<close> that a paste written at \<open>env\<close> is not yet expired at \<open>env'\<close>; \<open>takes s d\<close>
  whether the store can hold the text \<open>d\<close> at all, as a key or as data.
\<close>

locale paste_store =
  fixes ops :: "'s store_ops"
    and invar :: "'s \<Rightarrow> bool"
    and slot :: "'s \<Rightarrow> string \<Rightarrow> string"
    and content :: "'s \<Rightarrow> string \<Rightarrow> string option"
    and live :: "io_env \<Rightarrow> 's \<Rightarrow> string \<Rightarrow> bool"
    and lasts :: "io_env \<Rightarrow> io_env \<Rightarrow> 's \<Rightarrow> bool"
    and takes :: "'s \<Rightarrow> string \<Rightarrow> bool"
  assumes get_found: "invar s \<Longrightarrow> op_Get ops env k bump s = (Inr found, s') \<Longrightarrow>
        found = (if live env s (slot s k) then content s (slot s k) else None)"
    and get_succeeds: "invar s \<Longrightarrow> io_ok env \<Longrightarrow> \<not> isl (fst (op_Get ops env k bump s)) \<or>
        content s (slot s k) = None"
    and get_content: "invar s \<Longrightarrow> content (snd (op_Get ops env k bump s)) = content s"
    and get_probe: "snd (op_Get ops env k False s) = s"
    and get_invar: "invar s \<Longrightarrow> invar (snd (op_Get ops env k bump s))"
    and get_slot: "slot (snd (op_Get ops env k bump s)) = slot s"
    and set_stores: "invar s \<Longrightarrow> op_Set ops env k d s = (None, s') \<Longrightarrow>
        content s (slot s k) = None \<and> content s' = (content s)(slot s k \<mapsto> d)"
    and set_taken: "invar s \<Longrightarrow> content s (slot s k) \<noteq> None \<Longrightarrow>
        fst (op_Set ops env k d s) \<noteq> None \<and> content (snd (op_Set ops env k d s)) = content s"
    and set_taken_error: "invar s \<Longrightarrow> content s (slot s k) \<noteq> None \<Longrightarrow> io_ok env \<Longrightarrow> takes s d \<Longrightarrow>
        fst (op_Set ops env k d s) = Some ErrKeyExists"
    and set_exists: "invar s \<Longrightarrow> op_Set ops env k d s = (Some ErrKeyExists, s') \<Longrightarrow> content s' = content s"
    and set_other: "invar s \<Longrightarrow> h \<noteq> slot s k \<Longrightarrow> content (snd (op_Set ops env k d s)) h = content s h"
    and set_live: "invar s \<Longrightarrow> op_Set ops env k d s = (None, s') \<Longrightarrow> lasts env env' s' \<Longrightarrow>
        live env' s' (slot s' k)"
    and set_invar: "invar s \<Longrightarrow> invar (snd (op_Set ops env k d s))"
    and set_slot: "slot (snd (op_Set ops env k d s)) = slot s"
    and live_content: "live env s h \<Longrightarrow> content s h \<noteq> None"
begin

text \<open>A read sees exactly the live content of the key's slot.\<close>

lemma get_live:
  assumes "invar s" and "io_ok env" and "live env s (slot s k)"
  obtains d s' where "op_Get ops env k bump s = (Inr (Some d), s')" and "content s (slot s k) = Some d"
proof -
  obtain d where d: "content s (slot s k) = Some d" using live_content [OF assms(3)] by blast
  obtain r s' where g: "op_Get ops env k bump s = (r, s')" by (cases "op_Get ops env k bump s")
  with get_succeeds [OF assms(1,2), of k bump] d obtain found where r: "r = Inr found"
    by (cases r) auto
  with g have "found = Some d" using get_found [OF assms(1), of env k bump found s'] d assms(3) by simp
  with g r d that show thesis by simp
qed

text \<open>What was written is what is read, until it expires.\<close>

lemma get_after_set:
  assumes "invar s" and "op_Set ops env k d s = (None, s1)" and "io_ok env'" and "lasts env env' s1"
  shows "fst (op_Get ops env' k bump s1) = Inr (Some d)"
proof -
  have inv: "invar s1" and slot: "slot s1 = slot s"
    using set_invar [OF assms(1), of env k d] set_slot [of env k d s] assms(2) by simp_all
  have "live env' s1 (slot s1 k)" using set_live [OF assms(1,2,4)] .
  then obtain d' s2 where "op_Get ops env' k bump s1 = (Inr (Some d'), s2)"
    and "content s1 (slot s1 k) = Some d'"
    using get_live [OF inv assms(3)] by blast
  with set_stores [OF assms(1,2)] slot show ?thesis by simp
qed

text \<open>No \<open>Set\<close>, whatever it answers, changes a paste that is stored.\<close>

lemma set_keeps:
  assumes "invar s" and "content s h = Some d"
  shows "content (snd (op_Set ops env k d' s)) h = Some d"
  using set_taken [OF assms(1)] set_other [OF assms(1)] assms(2)
  by (cases "h = slot s k") auto

end

text \<open>
  The operations of the admin console. A handle is a slot: \<open>Delete\<close> empties it and touches no
  other, \<open>PurgeExpired\<close> removes nothing a reader could still see, \<open>List\<close> and \<open>Stats\<close> only read.
\<close>

locale managed_store = paste_store +
  assumes delete_content: "invar s \<Longrightarrow> op_Delete ops env h s = (Inr deleted, s') \<Longrightarrow>
        content s' = (content s)(h := None) \<and> (\<not> deleted \<longrightarrow> content s h = None)"
    and delete_failed: "op_Delete ops env h s = (Inl err, s') \<Longrightarrow> s' = s"
    and delete_invar: "invar s \<Longrightarrow> invar (snd (op_Delete ops env h s))"
    and delete_slot: "slot (snd (op_Delete ops env h s)) = slot s"
    and purge_live: "invar s \<Longrightarrow> live env s h \<Longrightarrow>
        content (snd (op_PurgeExpired ops env s)) h = content s h"
    and purge_removes: "invar s \<Longrightarrow> content (snd (op_PurgeExpired ops env s)) h = content s h \<or>
        content (snd (op_PurgeExpired ops env s)) h = None"
    and purge_invar: "invar s \<Longrightarrow> invar (snd (op_PurgeExpired ops env s))"
    and purge_slot: "slot (snd (op_PurgeExpired ops env s)) = slot s"
    and list_reads: "snd (op_List ops env limit s) = s"
    and stats_reads: "snd (op_Stats ops env s) = s"

section \<open>Runs of operations\<close>

datatype store_call =
    CGet string bool
  | CSet string string
  | CList go_int
  | CDelete string
  | CStats
  | CPurge

fun store_exec :: "'s store_ops \<Rightarrow> io_env \<Rightarrow> store_call \<Rightarrow> 's \<Rightarrow> 's" where
  "store_exec ops env (CGet k b) s = snd (op_Get ops env k b s)"
| "store_exec ops env (CSet k d) s = snd (op_Set ops env k d s)"
| "store_exec ops env (CList n) s = snd (op_List ops env n s)"
| "store_exec ops env (CDelete h) s = snd (op_Delete ops env h s)"
| "store_exec ops env CStats s = snd (op_Stats ops env s)"
| "store_exec ops env CPurge s = snd (op_PurgeExpired ops env s)"

fun store_run :: "'s store_ops \<Rightarrow> (io_env \<times> store_call) list \<Rightarrow> 's \<Rightarrow> 's" where
  "store_run ops [] s = s"
| "store_run ops ((env, c) # cs) s = store_run ops cs (store_exec ops env c s)"

text \<open>A call that may empty a slot: its deletion, or a purge.\<close>

fun removes :: "string \<Rightarrow> store_call \<Rightarrow> bool" where
  "removes h (CDelete h') = (h' = h)"
| "removes h CPurge = True"
| "removes h _ = False"

context managed_store
begin

lemmas invariants = get_invar set_invar delete_invar purge_invar list_reads stats_reads
lemmas slots = get_slot set_slot delete_slot purge_slot list_reads stats_reads

lemma exec_invar: "invar s \<Longrightarrow> invar (store_exec ops env c s)"
  by (cases c) (simp_all add: invariants)

lemma exec_slot: "slot (store_exec ops env c s) = slot s"
  by (cases c) (simp_all add: slots)

lemma run_invar: "invar s \<Longrightarrow> invar (store_run ops cs s)"
  by (induction cs arbitrary: s) (auto simp: exec_invar)

lemma delete_other: "invar s \<Longrightarrow> h \<noteq> h' \<Longrightarrow> content (snd (op_Delete ops env h' s)) h = content s h"
proof -
  assume inv: "invar s" and ne: "h \<noteq> h'"
  obtain r s' where d: "op_Delete ops env h' s = (r, s')" by (cases "op_Delete ops env h' s")
  show ?thesis
  proof (cases r)
    case (Inl e)
    with d have "s' = s" using delete_failed [of env h' s e s'] by simp
    with d show ?thesis by simp
  next
    case (Inr b)
    with delete_content [OF inv] d ne show ?thesis by simp
  qed
qed

text \<open>
  Pastes are immutable: one call leaves a stored paste as it is or, if it may remove it, removes
  it; it never replaces the content.
\<close>

lemma exec_keeps:
  assumes "invar s" and "content s h = Some d" and "\<not> removes h c"
  shows "content (store_exec ops env c s) h = Some d"
  using assms
  by (cases c) (simp_all add: get_content set_keeps delete_other list_reads stats_reads)

lemma run_keeps:
  assumes "invar s" and "content s h = Some d" and "\<forall>(env, c) \<in> set cs. \<not> removes h c"
  shows "content (store_run ops cs s) h = Some d"
  using assms
proof (induction cs arbitrary: s)
  case Nil
  then show ?case by simp
next
  case (Cons p cs)
  obtain env c where p: "p = (env, c)" by (cases p)
  with Cons.prems have "content (store_exec ops env c s) h = Some d" by (auto intro: exec_keeps)
  with Cons p show ?case by (auto intro: exec_invar)
qed

end

end
