(* ===== verification/Handler.thy ===== *)
theory Handler
  imports Login Themes Keygen Rate_Limit Store
begin

text \<open>
  \<open>internal/handler/handler.go\<close>: the paste API, the frontend and the middleware.

  What \<open>Handler\<close> holds for good is the record \<open>server\<close>; what the requests change (the store, the
  limiters, the sessions, the random source) is the record \<open>server_state\<close>. A request is handled
  at \<open>ce_now\<close>, and its \<open>n\<close>-th call of the store meets \<open>ce_io n\<close>. Of the log the lines of the middleware
  are modelled (\<open>sv_log\<close>): they are the ones that name routes, paths and addresses. The messages the
  handlers add about their own errors are not; where these name a key it is by its tag, \<open>keyHash\<close>.
\<close>

section \<open>Dependencies and state\<close>

type_synonym assets = "string \<Rightarrow> node option"

text \<open>
  \<open>wl_parse_host\<close>: the host of a URL that \<open>url.Parse\<close> accepts. \<open>wl_overlay dir base\<close>: the node of that
  name in the theme directory. \<open>wl_admin\<close>: the embedded files of the console. \<open>wl_logs\<close>: the severities
  the global level of the logger lets through.
\<close>

datatype severity = LDebug | LInfo | LError

record 'r web_lib = "'r auth_lib" +
  wl_randint :: "'r rand_int"
  wl_parse_host :: "string \<Rightarrow> string option"
  wl_overlay :: "string \<Rightarrow> string \<Rightarrow> node option"
  wl_mime :: "string \<Rightarrow> string"
  wl_admin :: "string \<Rightarrow> string option"
  wl_logs :: "severity \<Rightarrow> bool"

record 's server =
  h_cfg :: Config
  h_store :: "'s store_ops"
  h_keygen :: generator
  h_auth :: "manager option"
  h_staticKeys :: "string list"
  h_assets :: assets
  h_indexHTML :: string
  h_themeDir :: string

text \<open>The lines \<open>request\<close>, \<open>forwarding headers\<close> and \<open>recovered panic\<close> with their fields.\<close>

datatype log_line =
    Access (ll_route: string) (ll_status: go_int) (ll_ip: string)
  | Forwarding (ll_xff: string) (ll_xRealIP: string) (ll_remoteAddr: string)
  | Recovered (ll_panic: string) (ll_path: string)

definition log_at :: "('r, 'z) web_lib_scheme \<Rightarrow> severity \<Rightarrow> log_line \<Rightarrow> log_line list" where
  "log_at lib sev line = (if wl_logs lib sev then [line] else [])"

text \<open>\<open>sv_pattern\<close> is the field \<open>Pattern\<close> the multiplexer sets in the current request.\<close>

record ('r, 's) server_state = "'r auth_state" +
  sv_store :: 's
  sv_limiter :: rateLimiter
  sv_loginLimiter :: rateLimiter
  sv_pattern :: string
  sv_log :: "log_line list"

record call_env =
  ce_now :: int
  ce_io :: "nat \<Rightarrow> io_env"

type_synonym ('r, 's) endpoint =
  "http_request \<Rightarrow> response \<Rightarrow> ('r, 's) server_state \<Rightarrow> outcome \<times> response \<times> ('r, 's) server_state"

section \<open>Helpers\<close>

definition keyParam :: "string \<Rightarrow> string" where
  "keyParam ident = (case index_byte ident (CHR ''.'') of Some i \<Rightarrow> take i ident | None \<Rightarrow> ident)"

definition writeJSON :: "http_request \<Rightarrow> go_int \<Rightarrow> json \<Rightarrow> response \<Rightarrow> response" where
  "writeJSON r status body w =
     (let w = WriteHeader status (set_header ''Content-Type'' ''application/json'' w)
      in if is_head r then w else write_body (json_encode body @ [CHR 0x0A]) w)"

definition writeError :: "http_request \<Rightarrow> go_int \<Rightarrow> string \<Rightarrow> response \<Rightarrow> response" where
  "writeError r status msg w = writeJSON r status (JObj [(''error'', JStr msg)]) w"

fun corsOrigin :: "string list \<Rightarrow> string \<Rightarrow> string" where
  "corsOrigin [] origin = []"
| "corsOrigin (a # allowlist) origin =
     (if a = ''*'' \<or> a = origin then origin else corsOrigin allowlist origin)"

definition peer_host :: "http_request \<Rightarrow> string" where
  "peer_host r = (case last_index_byte (rq_RemoteAddr r) (CHR '':'') of
      Some i \<Rightarrow> take i (rq_RemoteAddr r) | None \<Rightarrow> rq_RemoteAddr r)"

definition clientIP :: "http_request \<Rightarrow> go_int \<Rightarrow> string" where
  "clientIP r trustedProxies =
     (let xff = header_get r ''X-Forwarded-For'';
          parts = split_byte xff (CHR '','');
          idx = int (length parts) - trustedProxies
      in if 0 < trustedProxies \<and> xff \<noteq> [] \<and> 0 \<le> idx \<and> idx < int (length parts) \<and>
            trim_space (parts ! nat idx) \<noteq> []
         then trim_space (parts ! nat idx) else peer_host r)"

definition writeOriginAllowed :: "('r, 'z) web_lib_scheme \<Rightarrow> 's server \<Rightarrow> http_request \<Rightarrow> bool" where
  "writeOriginAllowed lib h r =
     (let site = header_get r ''Sec-Fetch-Site''; origin = header_get r ''Origin''
      in if site \<in> {''same-origin'', ''same-site'', ''none''} then True
         else if origin = [] then site = []
         else if (case wl_parse_host lib origin of Some host \<Rightarrow> host \<noteq> [] \<and> host = rq_Host r | None \<Rightarrow> False)
         then True
         else corsOrigin (sec_CORSOrigins (cfg_Security (h_cfg h))) origin \<noteq> [])"

text \<open>\<open>Inl\<close>: the response that ends the request.\<close>

definition readBody :: "'s server \<Rightarrow> http_request \<Rightarrow> response \<Rightarrow> response + string" where
  "readBody h r w =
     (let limit = cfg_MaxLength (h_cfg h)
      in if has_prefix (header_get r ''Content-Type'') ''multipart/form-data'' then
           (case rq_multipart r (wrap64 (limit + 2 ^ 20)) of
              None \<Rightarrow> Inl (writeError r 400 ''Paste exceeds the maximum allowed size.'' w)
            | Some form \<Rightarrow> Inr (first_value form ''content''))
         else (case read_limited r (wrap64 (limit + 1)) of
              None \<Rightarrow> Inl (writeError r 500 ''The request body could not be read.'' w)
            | Some b \<Rightarrow> Inr b))"

section \<open>Choosing a key\<close>

datatype chosen = KeyFree string | KeyErr store_error | KeyPanic string

text \<open>
  The loop ends only when the store says that a key is free or fails. \<open>n\<close> counts the store calls
  of the request; the value is \<open>None\<close> when the loop runs forever.
\<close>

partial_function (option) chooseKey ::
  "'r rand_int \<Rightarrow> 's server \<Rightarrow> call_env \<Rightarrow> nat \<Rightarrow> 'r \<Rightarrow> 's \<Rightarrow> (chosen \<times> nat \<times> 'r \<times> 's) option" where
  "chooseKey ri h env n rng s =
     (case CreateKey ri (h_keygen h) (cfg_KeyLength (h_cfg h)) rng of
        (Inl p, rng) \<Rightarrow> Some (KeyPanic p, n, rng, s)
      | (Inr key, rng) \<Rightarrow>
          (case op_Get (h_store h) (ce_io env n) key False s of
             (Inl e, s) \<Rightarrow> Some (KeyErr e, Suc n, rng, s)
           | (Inr None, s) \<Rightarrow> Some (KeyFree key, Suc n, rng, s)
           | (Inr (Some _), s) \<Rightarrow> chooseKey ri h env (Suc n) rng s))"

section \<open>The paste API\<close>

definition bump :: "'s server \<Rightarrow> string \<Rightarrow> bool" where
  "bump h key \<longleftrightarrow> key \<notin> set (h_staticKeys h)"

definition handleGet :: "'s server \<Rightarrow> call_env \<Rightarrow> string \<Rightarrow> ('r, 's) endpoint" where
  "handleGet h env ident r w st =
     (let key = keyParam ident
      in case op_Get (h_store h) (ce_io env 0) key (bump h key) (sv_store st) of
           (Inl e, s) \<Rightarrow> (Returns, writeError r 500 ''The storage backend is unavailable.'' w, st\<lparr>sv_store := s\<rparr>)
         | (Inr None, s) \<Rightarrow> (Returns, writeError r 404 ''No paste exists for that id.'' w, st\<lparr>sv_store := s\<rparr>)
         | (Inr (Some data), s) \<Rightarrow>
             (Returns, writeJSON r 200 (JObj [(''content'', JStr data), (''id'', JStr key)]) w, st\<lparr>sv_store := s\<rparr>))"

definition handleRawGet :: "'s server \<Rightarrow> call_env \<Rightarrow> string \<Rightarrow> ('r, 's) endpoint" where
  "handleRawGet h env ident r w st =
     (let key = keyParam ident
      in case op_Get (h_store h) (ce_io env 0) key (bump h key) (sv_store st) of
           (Inl e, s) \<Rightarrow> (Returns, writeError r 500 ''The storage backend is unavailable.'' w, st\<lparr>sv_store := s\<rparr>)
         | (Inr None, s) \<Rightarrow> (Returns, writeError r 404 ''No paste exists for that id.'' w, st\<lparr>sv_store := s\<rparr>)
         | (Inr (Some data), s) \<Rightarrow>
             let w = WriteHeader 200 (set_header ''Content-Type'' ''text/plain; charset=UTF-8'' w)
             in (Returns, if is_head r then w else write_body data w, st\<lparr>sv_store := s\<rparr>))"

text \<open>The end of \<open>handlePost\<close>, when the data has been accepted: the key and the write.\<close>

definition storePaste :: "('r, 'z) web_lib_scheme \<Rightarrow> 's server \<Rightarrow> call_env \<Rightarrow> string \<Rightarrow> ('r, 's) endpoint" where
  "storePaste lib h env data r w st =
     (case chooseKey (wl_randint lib) h env 0 (at_rng st) (sv_store st) of
        None \<Rightarrow> (Hangs, w, st)
      | Some (KeyPanic p, n, rng, s) \<Rightarrow> (Panics p, w, st\<lparr>at_rng := rng, sv_store := s\<rparr>)
      | Some (KeyErr e, n, rng, s) \<Rightarrow>
          (Returns, writeError r 500 ''The paste could not be stored.'' w, st\<lparr>at_rng := rng, sv_store := s\<rparr>)
      | Some (KeyFree key, n, rng, s) \<Rightarrow>
          (case op_Set (h_store h) (ce_io env n) key data s of
             (Some e, s) \<Rightarrow>
               (Returns, writeError r 500 ''The paste could not be stored.'' w, st\<lparr>at_rng := rng, sv_store := s\<rparr>)
           | (None, s) \<Rightarrow>
               (Returns, writeJSON r 201 (JObj [(''id'', JStr key)]) w, st\<lparr>at_rng := rng, sv_store := s\<rparr>)))"

definition handlePost :: "('r, 'z) web_lib_scheme \<Rightarrow> 's server \<Rightarrow> call_env \<Rightarrow> ('r, 's) endpoint" where
  "handlePost lib h env r w st =
     (if \<not> writeOriginAllowed lib h r
      then (Returns, writeError r 403 ''Cross-origin writes are not permitted.'' w, st)
      else case readBody h r w of
        Inl w \<Rightarrow> (Returns, w, st)
      | Inr data \<Rightarrow>
          if 0 < cfg_MaxLength (h_cfg h) \<and> cfg_MaxLength (h_cfg h) < int (length data)
          then (Returns, writeError r 400 ''Paste exceeds the maximum allowed size.'' w, st)
          else if trim_space data = []
          then (Returns, writeError r 400 ''Paste body must not be empty.'' w, st)
          else
            (case chargeBytes (sv_limiter st) (clientIP r (cfg_TrustedProxyCount (h_cfg h)))
                    (int (length data)) (ce_now env) of
               (False, l) \<Rightarrow>
                 (Returns, writeError r 429 ''You are sending data too quickly; try again shortly.'' w,
                  st\<lparr>sv_limiter := l\<rparr>)
             | (True, l) \<Rightarrow> storePaste lib h env data r w (st\<lparr>sv_limiter := l\<rparr>)))"

section \<open>The frontend\<close>

definition serveIndex :: "'s server \<Rightarrow> http_request \<Rightarrow> response \<Rightarrow> response" where
  "serveIndex h r w =
     (let w = WriteHeader 200 (set_header ''Content-Type'' ''text/html; charset=utf-8'' w)
      in if is_head r then w else write_body (h_indexHTML h) w)"

definition handleFrontend :: "('r, 'z) web_lib_scheme \<Rightarrow> 's server \<Rightarrow> ('r, 's) endpoint" where
  "handleFrontend lib h r w st =
     (let name = trim_prefix (url_path r) ''/'';
          overlaid = (if has_prefix name ''themes/''
            then serveThemeOverlay (wl_mime lib) (wl_overlay lib) (h_themeDir h) (cfg_StaticMaxAge (h_cfg h)) name w
            else None)
      in if name = [] \<or> name = ''index.html'' then (Returns, serveIndex h r w, st)
         else case overlaid of
           Some w \<Rightarrow> (Returns, w, st)
         | None \<Rightarrow> (case h_assets h name of
             Some (NFile content) \<Rightarrow>
               (Returns, serve_file (wl_mime lib) name content
                  (set_header ''Cache-Control'' (''max-age='' @ Itoa (cfg_StaticMaxAge (h_cfg h))) w), st)
           | _ \<Rightarrow> (Returns, serveIndex h r w, st)))"

section \<open>Middleware\<close>

definition recoverPanic :: "('r, 'z) web_lib_scheme \<Rightarrow> ('r, 's) endpoint \<Rightarrow> ('r, 's) endpoint" where
  "recoverPanic lib next_h r w st = (case next_h r w st of
      (Panics p, w, st) \<Rightarrow>
        (Returns, write_body (json_encode (JObj [(''error'', JStr ''Internal server error.'')]))
           (send_header 500 (set_header ''Content-Type'' ''application/json'' w)),
         st\<lparr>sv_log := sv_log st @ log_at lib LError (Recovered p (url_path r))\<rparr>)
    | x \<Rightarrow> x)"

definition frame_ancestors :: "Security \<Rightarrow> string" where
  "frame_ancestors sec = (if sec_FrameAncestors sec = [] then [CHR 0x27] @ ''self'' @ [CHR 0x27]
     else sec_FrameAncestors sec)"

definition csp :: "Security \<Rightarrow> string" where
  "csp sec =
     (let self = [CHR 0x27] @ ''self'' @ [CHR 0x27]; none = [CHR 0x27] @ ''none'' @ [CHR 0x27]
      in ''default-src '' @ self @ ''; script-src '' @ self @ ''; style-src '' @ self @ ''; '' @
         ''img-src '' @ self @ '' data:; font-src '' @ self @ ''; object-src '' @ none @ ''; base-uri '' @ none @ ''; '' @
         ''form-action '' @ self @ ''; frame-ancestors '' @ frame_ancestors sec)"

definition security_fields :: "Security \<Rightarrow> response \<Rightarrow> response" where
  "security_fields sec w =
     (let w = set_header ''X-Content-Type-Options'' ''nosniff'' w;
          w = (if frame_ancestors sec = [CHR 0x27] @ ''self'' @ [CHR 0x27]
               then set_header ''X-Frame-Options'' ''SAMEORIGIN'' w else w);
          w = set_header ''Referrer-Policy'' ''same-origin'' w
      in set_header ''Content-Security-Policy'' (csp sec) w)"

definition cors_fields :: "string \<Rightarrow> response \<Rightarrow> response" where
  "cors_fields origin w =
     set_header ''Access-Control-Allow-Headers'' ''Content-Type''
       (set_header ''Access-Control-Allow-Methods'' ''GET, POST, HEAD, OPTIONS''
         (add_header ''Vary'' ''Origin'' (set_header ''Access-Control-Allow-Origin'' origin w)))"

definition securityHeaders :: "'s server \<Rightarrow> ('r, 's) endpoint \<Rightarrow> ('r, 's) endpoint" where
  "securityHeaders h next_h r w st =
     (let sec = cfg_Security (h_cfg h);
          w = security_fields sec w;
          origin = header_get r ''Origin'';
          allow = (if origin \<noteq> [] then corsOrigin (sec_CORSOrigins sec) origin else [])
      in if allow \<noteq> [] then
           (let w = cors_fields allow w
            in if rq_Method r = ''OPTIONS'' then (Returns, WriteHeader 204 w, st) else next_h r w st)
         else next_h r w st)"

definition limiter_middleware :: "call_env \<Rightarrow> ('r, 's) endpoint \<Rightarrow> ('r, 's) endpoint" where
  "limiter_middleware env next_h r w st =
     (case limiter_passes (sv_limiter st) (clientIP r (lim_trustedProxies (sv_limiter st))) (ce_now env) of
        (True, l) \<Rightarrow> next_h r w (st\<lparr>sv_limiter := l\<rparr>)
      | (False, l) \<Rightarrow>
          (Returns, write_body (json_encode (JObj [(''message'', JStr ''Rate limit exceeded.'')]))
             (WriteHeader 429 (set_header ''Content-Type'' ''application/json'' w)), st\<lparr>sv_limiter := l\<rparr>))"

text \<open>A panic unwinds through the logger: it writes no access line then.\<close>

definition requestLogger ::
  "('r, 'z) web_lib_scheme \<Rightarrow> go_int \<Rightarrow> ('r, 's) endpoint \<Rightarrow> ('r, 's) endpoint" where
  "requestLogger lib trustedProxies next_h r w st =
     (let st = st\<lparr>sv_log := sv_log st @ log_at lib LDebug
            (Forwarding (header_get r ''X-Forwarded-For'') (header_get r ''X-Real-Ip'') (rq_RemoteAddr r))\<rparr>
      in case next_h r (w\<lparr>rs_recorded := 200\<rparr>) (st\<lparr>sv_pattern := []\<rparr>) of
           (Returns, w, st) \<Rightarrow>
             (let route = (if sv_pattern st = [] then rq_Method r @ '' (unmatched)'' else sv_pattern st)
              in (Returns, w, st\<lparr>sv_log := sv_log st @
                    log_at lib LInfo (Access route (rs_recorded w) (clientIP r trustedProxies))\<rparr>))
         | x \<Rightarrow> x)"

fun chain :: "('r, 's) endpoint \<Rightarrow> (('r, 's) endpoint \<Rightarrow> ('r, 's) endpoint) list \<Rightarrow> ('r, 's) endpoint" where
  "chain h [] = h"
| "chain h (mw # mws) = mw (chain h mws)"

text \<open>The tag of a key in the log messages of the handlers: eight hexadecimal digits of its hash.\<close>

definition keyHash :: "(string \<Rightarrow> bytes32) \<Rightarrow> string \<Rightarrow> string" where
  "keyHash sha256 key = hex_encode (take 4 (bytes32_slice (sha256 key)))"

lemma keyHash_tag: "length (keyHash sha256 key) = 8 \<and> set (keyHash sha256 key) \<subseteq> set hex_digits"
  using set_hex_encode by (simp add: keyHash_def)

end
