(* ===== verification/Admin.thy ===== *)
theory Admin
  imports Handler
begin

text \<open>
  \<open>internal/handler/admin.go\<close>, and the assembly of the server in \<open>handler.go\<close>: the routes, the
  multiplexer and the middleware chain of \<open>New\<close>. The multiplexer is the one of \<open>net/http\<close>: a
  pattern matches method and segments, the most specific one wins, a \<open>GET\<close> pattern also serves
  \<open>HEAD\<close>. Paths that are not clean are redirected before any route and are not requests here.
\<close>

section \<open>Console handlers\<close>

definition loginRateLimit :: "'s server \<Rightarrow> call_env \<Rightarrow> ('r, 's) endpoint \<Rightarrow> ('r, 's) endpoint" where
  "loginRateLimit h env next_h r w st =
     (if 0 < lim_max (sv_loginLimiter st) then
        (case allow (sv_loginLimiter st) (clientIP r (cfg_TrustedProxyCount (h_cfg h))) (ce_now env) of
           (True, l) \<Rightarrow> next_h r w (st\<lparr>sv_loginLimiter := l\<rparr>)
         | (False, l) \<Rightarrow>
             (Returns, http_Error ''Too many login attempts. Try again in a minute.'' 429
                (set_header ''Retry-After'' ''60'' w), st\<lparr>sv_loginLimiter := l\<rparr>))
      else next_h r w st)"

definition adminIndex :: "('r, 'z) web_lib_scheme \<Rightarrow> ('r, 's) endpoint" where
  "adminIndex lib r w st = (case wl_admin lib ''index.html'' of
      None \<Rightarrow> (Returns, NotFound w, st)
    | Some b \<Rightarrow> (Returns, write_body b (set_header ''Content-Type'' ''text/html; charset=utf-8'' w), st))"

text \<open>\<open>path.Base\<close> of a clean path; \<open>path.Ext\<close> compared with the two types the console has.\<close>

definition adminAsset :: "('r, 'z) web_lib_scheme \<Rightarrow> ('r, 's) endpoint" where
  "adminAsset lib r w st =
     (let name = last (rq_segments r)
      in case wl_admin lib name of
           None \<Rightarrow> (Returns, NotFound w, st)
         | Some b \<Rightarrow>
             let w = (if has_suffix name ''.css'' then set_header ''Content-Type'' ''text/css; charset=utf-8'' w
                      else if has_suffix name ''.js''
                      then set_header ''Content-Type'' ''text/javascript; charset=utf-8'' w else w)
             in (Returns, write_body b w, st))"

record pasteRow = PasteMeta +
  pr_Builtin :: bool

definition pasteRow_of :: "'s server \<Rightarrow> PasteMeta \<Rightarrow> pasteRow" where
  "pasteRow_of h m = PasteMeta.extend m \<lparr>pr_Builtin = pm_Key m \<in> set (h_staticKeys h)\<rparr>"

definition json_opt :: "int option \<Rightarrow> json" where
  "json_opt x = (case x of None \<Rightarrow> JNull | Some i \<Rightarrow> JNum i)"

definition pasteRow_json :: "pasteRow \<Rightarrow> json" where
  "pasteRow_json row = JObj [(''key'', JStr (pm_Key row)), (''size'', JNum (pm_Size row)),
     (''created'', json_opt (pm_Created row)), (''expiration'', json_opt (pm_Expiration row)),
     (''builtin'', JBool (pr_Builtin row))]"

text \<open>A nil slice is \<open>null\<close>; an identity without groups has one.\<close>

definition identity_json :: "Identity option \<Rightarrow> json" where
  "identity_json i = (let ident = (case i of Some ident \<Rightarrow> ident | None \<Rightarrow> \<lparr>id_User = [], id_Email = [], id_Groups = []\<rparr>)
     in JObj [(''user'', JStr (id_User ident)), (''email'', JStr (id_Email ident)),
       (''groups'', if id_Groups ident = [] then JNull else JArr (map JStr (id_Groups ident)))])"

definition adminListPastes ::
  "('r, 'z) web_lib_scheme \<Rightarrow> 's server \<Rightarrow> manager \<Rightarrow> call_env \<Rightarrow> ('r, 's) endpoint" where
  "adminListPastes lib h m env r w st =
     (case op_List (h_store h) (ce_io env 0) 0 (sv_store st) of
        (Inl e, s) \<Rightarrow> (Returns, writeError r 500 ''Could not list pastes.'' w, st\<lparr>sv_store := s\<rparr>)
      | (Inr metas, s) \<Rightarrow>
          (case op_Stats (h_store h) (ce_io env 1) s of
             (Inl e, s) \<Rightarrow> (Returns, writeError r 500 ''Could not read paste stats.'' w, st\<lparr>sv_store := s\<rparr>)
           | (Inr stats, s) \<Rightarrow>
               let st = st\<lparr>sv_store := s\<rparr>;
                   (ident, st) = manager_Identity (auth_lib.truncate lib) m (ce_now env) r st
               in (Returns, writeJSON r 200 (JObj
                    [(''identity'', identity_json ident),
                     (''pastes'', JArr (map (\<lambda>mta. pasteRow_json (pasteRow_of h mta)) metas)),
                     (''stats'', JObj [(''count'', JNum (st_Count stats)), (''bytes'', JNum (st_Bytes stats))])]) w, st)))"

definition adminDeletePaste :: "'s server \<Rightarrow> call_env \<Rightarrow> string \<Rightarrow> ('r, 's) endpoint" where
  "adminDeletePaste h env key r w st =
     (if key = [] then (Returns, writeError r 400 ''A paste id is required.'' w, st)
      else if key \<in> set (h_staticKeys h)
      then (Returns, writeError r 403 ''Preloaded pastes cannot be deleted.'' w, st)
      else (case op_Delete (h_store h) (ce_io env 0) key (sv_store st) of
          (Inl e, s) \<Rightarrow> (Returns, writeError r 500 ''Could not delete the paste.'' w, st\<lparr>sv_store := s\<rparr>)
        | (Inr False, s) \<Rightarrow> (Returns, writeError r 404 ''No paste exists for that id.'' w, st\<lparr>sv_store := s\<rparr>)
        | (Inr True, s) \<Rightarrow> (Returns, writeJSON r 200 (JObj [(''deleted'', JBool True)]) w, st\<lparr>sv_store := s\<rparr>)))"

definition adminPurge :: "'s server \<Rightarrow> call_env \<Rightarrow> ('r, 's) endpoint" where
  "adminPurge h env r w st =
     (case op_PurgeExpired (h_store h) (ce_io env 0) (sv_store st) of
        (Inl e, s) \<Rightarrow> (Returns, writeError r 500 ''Could not purge expired pastes.'' w, st\<lparr>sv_store := s\<rparr>)
      | (Inr n, s) \<Rightarrow> (Returns, writeJSON r 200 (JObj [(''purged'', JNum n)]) w, st\<lparr>sv_store := s\<rparr>))"

section \<open>Routes\<close>

datatype route =
    RPost | RGet string | RRawGet string | RFrontend
  | RAdminIndex | RAdminAsset string | RLogin | RLoginSubmit | RCallback | RLogout
  | RAdminList | RAdminDelete string | RAdminPurge

text \<open>The part of a path a wildcard segment matches.\<close>

definition wild :: "string \<Rightarrow> bool" where
  "wild s \<longleftrightarrow> s \<noteq> [] \<and> s \<noteq> ''/''"

text \<open>The routes of \<open>registerPublic\<close>, \<open>RFrontend\<close> being the pattern \<open>GET /\<close> that matches every path.\<close>

definition public_route :: "string \<Rightarrow> string list \<Rightarrow> route option" where
  "public_route meth segs =
     (if meth = ''POST'' \<and> segs = [''api'', ''pastes''] then Some RPost
      else if meth = ''GET'' then
        (case segs of
           [a, p, k] \<Rightarrow> if a = ''api'' \<and> p = ''pastes'' \<and> wild k then Some (RGet k) else Some RFrontend
         | [a, p, k, x] \<Rightarrow>
             if a = ''api'' \<and> p = ''pastes'' \<and> wild k \<and> x = ''raw'' then Some (RRawGet k) else Some RFrontend
         | _ \<Rightarrow> Some RFrontend)
      else None)"

text \<open>The routes of \<open>registerAdmin\<close>.\<close>

definition admin_route :: "bool \<Rightarrow> string \<Rightarrow> string list \<Rightarrow> route option" where
  "admin_route local meth segs =
     (if meth = ''GET'' \<and> segs = [''admin''] then Some RAdminIndex
      else if meth = ''GET'' \<and> segs = [''admin'', ''app.css''] then Some (RAdminAsset ''app.css'')
      else if meth = ''GET'' \<and> segs = [''admin'', ''app.js''] then Some (RAdminAsset ''app.js'')
      else if meth = ''GET'' \<and> segs = [''admin'', ''login''] then Some RLogin
      else if meth = ''GET'' \<and> segs = [''admin'', ''callback''] then Some RCallback
      else if (meth = ''GET'' \<or> meth = ''POST'') \<and> segs = [''admin'', ''logout''] then Some RLogout
      else if local \<and> meth = ''POST'' \<and> segs = [''admin'', ''login''] then Some RLoginSubmit
      else if meth = ''GET'' \<and> segs = [''admin'', ''api'', ''pastes''] then Some RAdminList
      else if meth = ''POST'' \<and> segs = [''admin'', ''api'', ''purge''] then Some RAdminPurge
      else (case segs of
          [a, b, c, k] \<Rightarrow>
            if meth = ''DELETE'' \<and> a = ''admin'' \<and> b = ''api'' \<and> c = ''pastes'' \<and> wild k
            then Some (RAdminDelete k) else None
        | _ \<Rightarrow> None))"

definition console :: "'s server \<Rightarrow> manager option" where
  "console h = (case h_auth h of None \<Rightarrow> None | Some m \<Rightarrow> if Enabled m then Some m else None)"

definition mux_route :: "'s server \<Rightarrow> string \<Rightarrow> string list \<Rightarrow> route option" where
  "mux_route h meth segs =
     (let meth = (if meth = ''HEAD'' then ''GET'' else meth)
      in case console h of
           None \<Rightarrow> public_route meth segs
         | Some m \<Rightarrow> (case admin_route (LocalMode m) meth segs of
             Some rt \<Rightarrow> Some rt
           | None \<Rightarrow> public_route meth segs))"

text \<open>The pattern a route was registered with.\<close>

fun route_pattern :: "string \<Rightarrow> route \<Rightarrow> string" where
  "route_pattern meth RPost = ''POST /api/pastes''"
| "route_pattern meth (RGet _) = ''GET /api/pastes/{id}''"
| "route_pattern meth (RRawGet _) = ''GET /api/pastes/{id}/raw''"
| "route_pattern meth RFrontend = ''GET /''"
| "route_pattern meth RAdminIndex = ''GET /admin''"
| "route_pattern meth (RAdminAsset name) = ''GET /admin/'' @ name"
| "route_pattern meth RLogin = ''GET /admin/login''"
| "route_pattern meth RLoginSubmit = ''POST /admin/login''"
| "route_pattern meth RCallback = ''GET /admin/callback''"
| "route_pattern meth RLogout = (if meth = ''POST'' then ''POST /admin/logout'' else ''GET /admin/logout'')"
| "route_pattern meth RAdminList = ''GET /admin/api/pastes''"
| "route_pattern meth (RAdminDelete _) = ''DELETE /admin/api/pastes/{key}''"
| "route_pattern meth RAdminPurge = ''POST /admin/api/purge''"

text \<open>The handler of a route; the console's are behind their gates.\<close>

fun serve_route ::
  "('r, 'z) web_lib_scheme \<Rightarrow> 's server \<Rightarrow> manager \<Rightarrow> call_env \<Rightarrow> route \<Rightarrow> ('r, 's) endpoint" where
  "serve_route lib h m env RPost = handlePost lib h env"
| "serve_route lib h m env (RGet k) = handleGet h env k"
| "serve_route lib h m env (RRawGet k) = handleRawGet h env k"
| "serve_route lib h m env RFrontend = handleFrontend lib h"
| "serve_route lib h m env RAdminIndex = GateUI (auth_lib.truncate lib) m (ce_now env) (adminIndex lib)"
| "serve_route lib h m env (RAdminAsset _) = GateUI (auth_lib.truncate lib) m (ce_now env) (adminAsset lib)"
| "serve_route lib h m env RLogin = auth_Login (auth_lib.truncate lib) m"
| "serve_route lib h m env RLoginSubmit =
     loginRateLimit h env (LoginSubmit (auth_lib.truncate lib) m (ce_now env))"
| "serve_route lib h m env RCallback = auth_Callback (auth_lib.truncate lib) m (ce_now env)"
| "serve_route lib h m env RLogout = auth_Logout (auth_lib.truncate lib) m (ce_now env)"
| "serve_route lib h m env RAdminList =
     GateAPI (auth_lib.truncate lib) m (ce_now env) (adminListPastes lib h m env)"
| "serve_route lib h m env (RAdminDelete k) =
     GateAPI (auth_lib.truncate lib) m (ce_now env) (adminDeletePaste h env k)"
| "serve_route lib h m env RAdminPurge = GateAPI (auth_lib.truncate lib) m (ce_now env) (adminPurge h env)"

text \<open>The manager the routes close over; without a console no route uses it.\<close>

definition no_manager :: manager where
  "no_manager = \<lparr>am_cfg = zero_Auth, am_hmacKey = [], am_oidc = None, am_local = None\<rparr>"

text \<open>
  A method none of the matching patterns has is 405; \<open>GET /\<close> matches every path, so there is no
  other failure.
\<close>

definition allowed_methods :: "'s server \<Rightarrow> string list \<Rightarrow> string list" where
  "allowed_methods h segs =
     filter (\<lambda>meth. mux_route h meth segs \<noteq> None) [''DELETE'', ''GET'', ''HEAD'', ''POST'']"

definition mux :: "('r, 'z) web_lib_scheme \<Rightarrow> 's server \<Rightarrow> call_env \<Rightarrow> ('r, 's) endpoint" where
  "mux lib h env r w st =
     (case mux_route h (rq_Method r) (rq_segments r) of
        None \<Rightarrow> (Returns, http_Error ''Method Not Allowed'' 405
            (set_header ''Allow'' (join '', '' (allowed_methods h (rq_segments r))) w), st)
      | Some rt \<Rightarrow>
          serve_route lib h (case console h of Some m \<Rightarrow> m | None \<Rightarrow> no_manager) env rt r w
            (st\<lparr>sv_pattern := route_pattern (rq_Method r) rt\<rparr>))"

section \<open>The server\<close>

definition root_handler :: "('r, 'z) web_lib_scheme \<Rightarrow> 's server \<Rightarrow> call_env \<Rightarrow> ('r, 's) endpoint" where
  "root_handler lib h env =
     chain (mux lib h env)
       [recoverPanic lib,
        requestLogger lib (cfg_TrustedProxyCount (h_cfg h)),
        securityHeaders h,
        limiter_middleware env]"

text \<open>One request from the accept to the reply.\<close>

definition serve ::
  "('r, 'z) web_lib_scheme \<Rightarrow> 's server \<Rightarrow> call_env \<Rightarrow> http_request \<Rightarrow> ('r, 's) server_state
     \<Rightarrow> reply option \<times> ('r, 's) server_state" where
  "serve lib h env r st = (case root_handler lib h env r new_response st of
      (Hangs, w, st) \<Rightarrow> (None, st)
    | (_, w, st) \<Rightarrow> (Some (finish r w), st))"

text \<open>
  \<open>New\<close>: the static part and the state the server starts in. \<open>read_index\<close> is the embedded
  \<open>index.html\<close>; \<open>None\<close> when it is missing or the template fails.
\<close>

definition handler_New ::
  "(string \<Rightarrow> template_data \<Rightarrow> string option) \<Rightarrow> string option \<Rightarrow> (string \<times> bool) list option \<Rightarrow>
   (string \<Rightarrow> (string \<times> bool) list option) \<Rightarrow> Config \<Rightarrow> 's store_ops \<Rightarrow> generator \<Rightarrow> manager \<Rightarrow> string list \<Rightarrow>
   assets \<Rightarrow> 's \<Rightarrow> 'r \<Rightarrow> ('s server \<times> ('r, 's) server_state) option" where
  "handler_New template read_index embedded overlay cfg ops gen m staticKeys assets s rng =
     Option.bind read_index (\<lambda>index.
       let ts = discoverThemes embedded overlay (cfg_Theme cfg)
       in Option.bind (renderIndex template index ts) (\<lambda>index.
         Some (\<lparr>h_cfg = cfg, h_store = ops, h_keygen = gen, h_auth = Some m, h_staticKeys = staticKeys,
                h_assets = assets, h_indexHTML = index, h_themeDir = ts_dir ts\<rparr>,
               \<lparr>at_sessions = newSessionStore, at_rng = rng, sv_store = s,
                sv_limiter = newRateLimiter (cfg_RateLimit cfg) (cfg_TrustedProxyCount cfg),
                sv_loginLimiter = newRateLimiter
                  \<lparr>rl_TotalRequests = au_LoginRateLimit (cfg_Auth cfg), rl_Every = 60000, rl_MaxBytes = 0\<rparr>
                  (cfg_TrustedProxyCount cfg),
                sv_pattern = [], sv_log = []\<rparr>)))"

end
