(* ===== verification/Paste_Table.thy ===== *)
theory Paste_Table
  imports Store
begin

text \<open>
  The \<open>pastes\<close> table and the SQL statements both database backends issue against it: a list of
  rows, oldest first, and the next identity value. A timestamp is an integer in the unit of the
  backend (seconds for SQLite, microseconds for PostgreSQL). The statements are those of
  \<open>sqlite.go\<close> and \<open>postgres.go\<close>; where the two differ (the units, the identity a failed insert
  consumes) each backend's theory says so.
\<close>

record row =
  row_id :: int
  row_slug :: string
  row_body :: string
  row_created :: int
  row_expires :: "int option"

record table =
  tb_rows :: "row list"
  tb_next :: int

definition empty_table :: table where
  "empty_table = \<lparr>tb_rows = [], tb_next = 1\<rparr>"

section \<open>Statements\<close>

text \<open>\<open>expires_at IS NULL OR expires_at > now\<close>\<close>

definition row_live :: "int \<Rightarrow> row \<Rightarrow> bool" where
  "row_live now r = (case row_expires r of None \<Rightarrow> True | Some e \<Rightarrow> now < e)"

text \<open>\<open>SELECT ... WHERE slug = key AND (expires_at IS NULL OR expires_at > now)\<close>\<close>

definition sql_select :: "string \<Rightarrow> int \<Rightarrow> table \<Rightarrow> row option" where
  "sql_select key now tb = find (\<lambda>r. row_slug r = key \<and> row_live now r) (tb_rows tb)"

text \<open>\<open>INSERT\<close>; \<open>None\<close> is the violation of \<open>slug ... UNIQUE\<close>, which expired rows raise too.\<close>

definition slug_taken :: "string \<Rightarrow> table \<Rightarrow> bool" where
  "slug_taken key tb \<longleftrightarrow> list_ex (\<lambda>r. row_slug r = key) (tb_rows tb)"

definition sql_insert :: "string \<Rightarrow> string \<Rightarrow> int \<Rightarrow> int option \<Rightarrow> table \<Rightarrow> table option" where
  "sql_insert key body created expires tb =
     (if slug_taken key tb then None
      else Some (tb\<lparr>tb_rows := tb_rows tb @
             [\<lparr>row_id = tb_next tb, row_slug = key, row_body = body, row_created = created,
               row_expires = expires\<rparr>],
           tb_next := tb_next tb + 1\<rparr>))"

text \<open>\<open>UPDATE pastes SET expires_at = e WHERE id = i\<close>\<close>

definition sql_touch :: "int \<Rightarrow> int \<Rightarrow> table \<Rightarrow> table" where
  "sql_touch i e tb =
     tb\<lparr>tb_rows := map (\<lambda>r. if row_id r = i then r\<lparr>row_expires := Some e\<rparr> else r) (tb_rows tb)\<rparr>"

text \<open>\<open>SELECT ... WHERE <live> ORDER BY id DESC LIMIT limit\<close>\<close>

definition sql_list :: "int \<Rightarrow> go_int \<Rightarrow> table \<Rightarrow> row list" where
  "sql_list now limit tb =
     take (nat limit) (rev (sort_key row_id (filter (row_live now) (tb_rows tb))))"

text \<open>\<open>DELETE FROM pastes WHERE slug = key\<close>, with the number of rows affected\<close>

definition sql_delete :: "string \<Rightarrow> table \<Rightarrow> nat \<times> table" where
  "sql_delete key tb =
     (length (filter (\<lambda>r. row_slug r = key) (tb_rows tb)),
      tb\<lparr>tb_rows := filter (\<lambda>r. row_slug r \<noteq> key) (tb_rows tb)\<rparr>)"

text \<open>\<open>SELECT count(*), coalesce(sum(octet_length(body)), 0) ... WHERE <live>\<close>\<close>

definition sql_stats :: "int \<Rightarrow> table \<Rightarrow> Stats" where
  "sql_stats now tb =
     (let rs = filter (row_live now) (tb_rows tb)
      in \<lparr>st_Count = int (length rs), st_Bytes = int (sum_list (map (length \<circ> row_body) rs))\<rparr>)"

text \<open>\<open>DELETE FROM pastes WHERE expires_at IS NOT NULL AND expires_at <= now\<close>\<close>

definition sql_purge :: "int \<Rightarrow> table \<Rightarrow> nat \<times> table" where
  "sql_purge now tb =
     (length (filter (\<lambda>r. \<not> row_live now r) (tb_rows tb)),
      tb\<lparr>tb_rows := filter (row_live now) (tb_rows tb)\<rparr>)"

section \<open>The table as a map\<close>

text \<open>Slugs are unique, identities ascend and lie below the next one.\<close>

definition table_ok :: "table \<Rightarrow> bool" where
  "table_ok tb \<longleftrightarrow> distinct (map row_slug (tb_rows tb)) \<and> sorted_wrt (<) (map row_id (tb_rows tb)) \<and>
     (\<forall>r \<in> set (tb_rows tb). row_id r < tb_next tb)"

definition tb_lookup :: "table \<Rightarrow> string \<Rightarrow> row option" where
  "tb_lookup tb key = find (\<lambda>r. row_slug r = key) (tb_rows tb)"

definition tb_content :: "table \<Rightarrow> string \<Rightarrow> string option" where
  "tb_content tb key = map_option row_body (tb_lookup tb key)"

definition tb_live :: "int \<Rightarrow> table \<Rightarrow> string \<Rightarrow> bool" where
  "tb_live now tb key = (case tb_lookup tb key of None \<Rightarrow> False | Some r \<Rightarrow> row_live now r)"

lemma table_ok_empty [simp]: "table_ok empty_table"
  by (simp add: table_ok_def empty_table_def)

lemma find_unique:
  "distinct (map f xs) \<Longrightarrow> x \<in> set xs \<Longrightarrow> find (\<lambda>y. f y = f x) xs = Some x"
  by (induction xs) (auto simp: rev_image_eqI)

lemma find_map_same: "(\<And>x. P (g x) = P x) \<Longrightarrow> find P (map g xs) = map_option g (find P xs)"
  by (induction xs) auto

lemma find_filter_imp: "(\<And>x. P x \<Longrightarrow> Q x) \<Longrightarrow> find P (filter Q xs) = find P xs"
  by (induction xs) auto

lemma find_filter_conj: "find P (filter Q xs) = find (\<lambda>x. Q x \<and> P x) xs"
  by (induction xs) auto

lemma find_conj_unique:
  "distinct (map f xs) \<Longrightarrow> find (\<lambda>x. f x = k \<and> Q x) xs =
     (case find (\<lambda>x. f x = k) xs of None \<Rightarrow> None | Some x \<Rightarrow> if Q x then Some x else None)"
proof (induction xs)
  case Nil
  then show ?case by simp
next
  case (Cons x xs)
  have "f x \<notin> f ` set xs \<Longrightarrow> find (\<lambda>y. f y = f x \<and> Q y) xs = None"
    by (auto simp: find_None_iff rev_image_eqI)
  with Cons show ?case by auto
qed

lemma sql_select_eq:
  "table_ok tb \<Longrightarrow> sql_select key now tb =
     (case tb_lookup tb key of None \<Rightarrow> None | Some r \<Rightarrow> if row_live now r then Some r else None)"
  by (simp add: sql_select_def tb_lookup_def table_ok_def find_conj_unique)

lemma sql_select_SomeD:
  assumes "table_ok tb" and "sql_select key now tb = Some r"
  shows "tb_lookup tb key = Some r" and "row_live now r" and "r \<in> set (tb_rows tb)"
  using assms
  by (auto simp: sql_select_eq tb_lookup_def find_Some_iff split: option.splits if_splits)

lemma slug_taken_lookup: "slug_taken key tb \<longleftrightarrow> tb_lookup tb key \<noteq> None"
  by (auto simp: slug_taken_def tb_lookup_def list_ex_iff find_None_iff)

lemma lookup_slug: "tb_lookup tb key = Some r \<Longrightarrow> row_slug r = key \<and> r \<in> set (tb_rows tb)"
  by (auto simp: tb_lookup_def find_Some_iff)

lemma find_app: "find P (xs @ ys) = (case find P xs of None \<Rightarrow> find P ys | Some x \<Rightarrow> Some x)"
  by (induction xs) auto

lemma insert_lookup:
  "sql_insert key body c e tb = Some tb' \<Longrightarrow>
   tb_lookup tb' h = (if h = key then Some \<lparr>row_id = tb_next tb, row_slug = key, row_body = body,
       row_created = c, row_expires = e\<rparr> else tb_lookup tb h)"
  by (auto simp: sql_insert_def slug_taken_lookup tb_lookup_def find_app split: if_splits option.split)

definition slugs :: "table \<Rightarrow> string set" where
  "slugs tb = set (map row_slug (tb_rows tb))"

lemma content_slugs: "tb_content tb key \<noteq> None \<longleftrightarrow> key \<in> slugs tb"
  by (auto simp: slugs_def tb_content_def tb_lookup_def find_None_iff image_iff)

lemma slugs_empty [simp]: "slugs empty_table = {}"
  by (simp add: slugs_def empty_table_def)

lemma slugs_burn [simp]: "slugs (tb\<lparr>tb_next := n\<rparr>) = slugs tb"
  by (simp add: slugs_def)

lemma slugs_insert: "sql_insert key body c e tb = Some tb' \<Longrightarrow> slugs tb' = insert key (slugs tb)"
  by (auto simp: slugs_def sql_insert_def split: if_splits)

lemma slugs_touch [simp]: "slugs (sql_touch i e tb) = slugs tb"
  by (auto simp: slugs_def sql_touch_def image_iff)

lemma slugs_delete [simp]: "slugs (snd (sql_delete key tb)) = slugs tb - {key}"
  by (auto simp: slugs_def sql_delete_def)

lemma slugs_purge: "slugs (snd (sql_purge now tb)) \<subseteq> slugs tb"
  by (auto simp: slugs_def sql_purge_def)

lemma insert_ok: "table_ok tb \<Longrightarrow> sql_insert key body c e tb = Some tb' \<Longrightarrow> table_ok tb'"
  by (force simp: sql_insert_def table_ok_def slug_taken_def list_ex_iff sorted_wrt_append
      split: if_splits)

lemma touch_lookup:
  "tb_lookup (sql_touch i e tb) h =
     map_option (\<lambda>r. if row_id r = i then r\<lparr>row_expires := Some e\<rparr> else r) (tb_lookup tb h)"
  by (simp add: tb_lookup_def sql_touch_def find_map_same)

lemma touch_content: "tb_content (sql_touch i e tb) = tb_content tb"
  by (auto simp: fun_eq_iff tb_content_def touch_lookup option.map_comp comp_def
      intro: option.map_cong)

lemma touch_maps:
  "map row_slug (tb_rows (sql_touch i e tb)) = map row_slug (tb_rows tb)"
  "map row_id (tb_rows (sql_touch i e tb)) = map row_id (tb_rows tb)"
  by (simp_all add: sql_touch_def)

lemma touch_ok:
  assumes "table_ok tb"
  shows "table_ok (sql_touch i e tb)"
proof -
  have "\<forall>r \<in> set (tb_rows (sql_touch i e tb)). row_id r < tb_next (sql_touch i e tb)"
    using assms by (auto simp: table_ok_def sql_touch_def)
  with assms show ?thesis by (simp add: table_ok_def touch_maps)
qed

lemma filter_ok: "table_ok tb \<Longrightarrow> table_ok (tb\<lparr>tb_rows := filter P (tb_rows tb)\<rparr>)"
  by (auto simp: table_ok_def distinct_map_filter sorted_wrt_map intro: sorted_wrt_filter)

lemma delete_ok: "table_ok tb \<Longrightarrow> table_ok (snd (sql_delete key tb))"
  by (simp add: sql_delete_def filter_ok)

lemma purge_ok: "table_ok tb \<Longrightarrow> table_ok (snd (sql_purge now tb))"
  by (simp add: sql_purge_def filter_ok)

lemma delete_lookup:
  "tb_lookup (snd (sql_delete key tb)) h = (if h = key then None else tb_lookup tb h)"
  by (auto simp: tb_lookup_def sql_delete_def find_None_iff intro!: find_filter_imp)

lemma delete_count: "0 < fst (sql_delete key tb) \<longleftrightarrow> tb_lookup tb key \<noteq> None"
  by (auto simp: sql_delete_def tb_lookup_def find_None_iff filter_empty_conv)

lemma purge_lookup:
  "table_ok tb \<Longrightarrow> tb_lookup (snd (sql_purge now tb)) h =
     (case tb_lookup tb h of None \<Rightarrow> None | Some r \<Rightarrow> if row_live now r then Some r else None)"
  by (simp add: tb_lookup_def sql_purge_def find_filter_conj conj_commute [of "row_live now _"]
      table_ok_def find_conj_unique)

text \<open>The identities ascend in the table, so \<open>ORDER BY id DESC\<close> is the insertion order reversed.\<close>

lemma sql_list_eq:
  assumes "table_ok tb"
  shows "sql_list now limit tb = take (nat limit) (rev (filter (row_live now) (tb_rows tb)))"
proof -
  from assms have "sorted_wrt (\<lambda>r r'. row_id r < row_id r') (tb_rows tb)"
    by (simp add: table_ok_def sorted_wrt_map)
  then have "sorted_wrt (\<lambda>r r'. row_id r < row_id r') (filter (row_live now) (tb_rows tb))"
    by (rule sorted_wrt_filter)
  then have "sorted (map row_id (filter (row_live now) (tb_rows tb)))"
    by (auto simp: sorted_map elim: sorted_wrt_mono_rel [rotated])
  then show ?thesis by (simp add: sql_list_def sort_key_id_if_sorted)
qed

text \<open>The statements on the map view.\<close>

lemma delete_content: "tb_content (snd (sql_delete key tb)) = (tb_content tb)(key := None)"
  by (auto simp: fun_eq_iff tb_content_def delete_lookup)

lemma insert_content:
  "sql_insert key body c e tb = Some tb' \<Longrightarrow> tb_content tb' = (tb_content tb)(key \<mapsto> body)"
  by (auto simp: fun_eq_iff tb_content_def insert_lookup)

lemma insert_iff: "sql_insert key body c e tb = None \<longleftrightarrow> tb_content tb key \<noteq> None"
  by (simp add: sql_insert_def slug_taken_lookup tb_content_def)

lemma insert_free: "sql_insert key body c e tb = Some tb' \<Longrightarrow> tb_content tb key = None"
  by (metis insert_iff option.distinct(1))

lemma insert_live:
  "sql_insert key body c e tb = Some tb' \<Longrightarrow>
   tb_live now tb' key = (case e of None \<Rightarrow> True | Some d \<Rightarrow> now < d)"
  by (simp add: tb_live_def insert_lookup row_live_def)

lemma purge_content:
  "table_ok tb \<Longrightarrow> tb_content (snd (sql_purge now tb)) h = (if tb_live now tb h then tb_content tb h else None)"
  by (auto simp: tb_content_def tb_live_def purge_lookup split: option.splits)

lemma live_content: "tb_live now tb h \<Longrightarrow> tb_content tb h \<noteq> None"
  by (auto simp: tb_live_def tb_content_def split: option.splits)

lemma select_live:
  "table_ok tb \<Longrightarrow> (case sql_select key now tb of None \<Rightarrow> None | Some r \<Rightarrow> Some (row_body r)) =
     (if tb_live now tb key then tb_content tb key else None)"
  by (auto simp: sql_select_eq tb_live_def tb_content_def split: option.splits)

lemmas table_invariants = insert_ok touch_ok delete_ok purge_ok

end
