(* ===== verification/Sqlite_Store.thy ===== *)
theory Sqlite_Store
  imports Paste_Table
begin

text \<open>
  \<open>internal/store/sqlite.go\<close>. The state is the table in the database file and the configured
  lifetime in seconds; timestamps are Unix seconds. Each statement of an operation may fail
  (\<open>io_fail\<close>, numbered in the order the operation issues them).
\<close>

record sqliteStore =
  sq_db :: table
  sq_expire :: go_int

text \<open>\<open>time.Now().Unix()\<close>\<close>

definition unix :: "io_env \<Rightarrow> int" where
  "unix env = io_now env div 1000000000"

text \<open>\<open>disk\<close> gives the table of a database file that already exists.\<close>

definition newSQLite :: "io_env \<Rightarrow> (string \<Rightarrow> table option) \<Rightarrow> Storage \<Rightarrow> store_error + sqliteStore" where
  "newSQLite env disk cfg =
     (let path = (if stg_Path cfg = [] then ''gopaste.db'' else stg_Path cfg)
      in if io_fail env 0 then Inl (StoreErr ''sqlite open'')
         else if io_fail env 1 then Inl (StoreErr ''sqlite init schema'')
         else Inr \<lparr>sq_db = (case disk path of Some tb \<Rightarrow> tb | None \<Rightarrow> empty_table),
                   sq_expire = stg_Expire cfg\<rparr>)"

definition sqlite_Get ::
  "io_env \<Rightarrow> string \<Rightarrow> bool \<Rightarrow> sqliteStore \<Rightarrow> (store_error + string option) \<times> sqliteStore" where
  "sqlite_Get env key bumpExpiry s =
     (let now = unix env
      in if io_fail env 0 then (Inl (StoreErr ''sqlite get''), s)
         else (case sql_select key now (sq_db s) of
             None \<Rightarrow> (Inr None, s)
           | Some r \<Rightarrow>
               if bumpExpiry \<and> 0 < sq_expire s \<and> row_expires r \<noteq> None then
                 let newExp = wrap64 (now + sq_expire s)
                 in if io_fail env 1 then (Inl (StoreErr ''sqlite bump expiry''), s)
                    else (Inr (Some (row_body r)), s\<lparr>sq_db := sql_touch (row_id r) newExp (sq_db s)\<rparr>)
               else (Inr (Some (row_body r)), s)))"

text \<open>
  The result codes of a constraint violation; \<open>SQLITE_CONSTRAINT_UNIQUE\<close> is the one the engine
  gives for a duplicate slug.
\<close>

definition isSQLiteUnique :: "go_int \<Rightarrow> bool" where
  "isSQLiteUnique code \<longleftrightarrow> code = 19 \<or> code = 2067 \<or> code = 1555"

definition sqlite_Set ::
  "io_env \<Rightarrow> string \<Rightarrow> string \<Rightarrow> sqliteStore \<Rightarrow> store_error option \<times> sqliteStore" where
  "sqlite_Set env key data s =
     (let now = unix env;
          expiresAt = (if 0 < sq_expire s then Some (wrap64 (now + sq_expire s)) else None);
          result = (if io_fail env 0 then Inl (io_sqlite_code env)
                    else (case sql_insert key data now expiresAt (sq_db s) of
                        None \<Rightarrow> Inl 2067
                      | Some tb \<Rightarrow> Inr tb))
      in case result of
           Inl code \<Rightarrow> (Some (if isSQLiteUnique code then ErrKeyExists else StoreErr ''sqlite set''), s)
         | Inr tb \<Rightarrow> (None, s\<lparr>sq_db := tb\<rparr>))"

definition sqlite_List ::
  "io_env \<Rightarrow> go_int \<Rightarrow> sqliteStore \<Rightarrow> (store_error + PasteMeta list) \<times> sqliteStore" where
  "sqlite_List env limit s =
     (let limit = (if limit \<le> 0 then DefaultListLimit else limit);
          now = unix env
      in if io_fail env 0 then (Inl (StoreErr ''sqlite list''), s)
         else if io_fail env 1 then (Inl (StoreErr ''sqlite list scan''), s)
         else (Inr (map (\<lambda>r. \<lparr>pm_Key = row_slug r, pm_Size = int (length (row_body r)),
                               pm_Created = Some (row_created r), pm_Expiration = row_expires r\<rparr>)
                     (sql_list now limit (sq_db s))), s))"

definition sqlite_Delete ::
  "io_env \<Rightarrow> string \<Rightarrow> sqliteStore \<Rightarrow> (store_error + bool) \<times> sqliteStore" where
  "sqlite_Delete env key s =
     (if io_fail env 0 then (Inl (StoreErr ''sqlite delete''), s)
      else (case sql_delete key (sq_db s) of (n, tb) \<Rightarrow> (Inr (0 < n), s\<lparr>sq_db := tb\<rparr>)))"

definition sqlite_Stats :: "io_env \<Rightarrow> sqliteStore \<Rightarrow> (store_error + Stats) \<times> sqliteStore" where
  "sqlite_Stats env s =
     (let now = unix env
      in if io_fail env 0 then (Inl (StoreErr ''sqlite stats''), s)
         else (Inr (sql_stats now (sq_db s)), s))"

definition sqlite_PurgeExpired ::
  "io_env \<Rightarrow> sqliteStore \<Rightarrow> (store_error + go_int) \<times> sqliteStore" where
  "sqlite_PurgeExpired env s =
     (let now = unix env
      in if io_fail env 0 then (Inl (StoreErr ''sqlite purge''), s)
         else (case sql_purge now (sq_db s) of (n, tb) \<Rightarrow> (Inr (int n), s\<lparr>sq_db := tb\<rparr>)))"

definition sqlite_ops :: "sqliteStore store_ops" where
  "sqlite_ops = \<lparr>op_Get = sqlite_Get, op_Set = sqlite_Set, op_List = sqlite_List,
     op_Delete = sqlite_Delete, op_Stats = sqlite_Stats, op_PurgeExpired = sqlite_PurgeExpired\<rparr>"

lemma sqlite_ops_simps [simp]:
  "op_Get sqlite_ops = sqlite_Get" "op_Set sqlite_ops = sqlite_Set" "op_List sqlite_ops = sqlite_List"
  "op_Delete sqlite_ops = sqlite_Delete" "op_Stats sqlite_ops = sqlite_Stats"
  "op_PurgeExpired sqlite_ops = sqlite_PurgeExpired"
  by (simp_all add: sqlite_ops_def)

section \<open>The backend keeps the store contract\<close>

definition sqlite_ok :: "sqliteStore \<Rightarrow> bool" where
  "sqlite_ok s \<longleftrightarrow> table_ok (sq_db s)"

definition sqlite_content :: "sqliteStore \<Rightarrow> string \<Rightarrow> string option" where
  "sqlite_content s = tb_content (sq_db s)"

definition sqlite_live :: "io_env \<Rightarrow> sqliteStore \<Rightarrow> string \<Rightarrow> bool" where
  "sqlite_live env s key = tb_live (unix env) (sq_db s) key"

text \<open>A paste written at \<open>env\<close> lives as long as the clock is before its deadline.\<close>

definition sqlite_lasts :: "io_env \<Rightarrow> io_env \<Rightarrow> sqliteStore \<Rightarrow> bool" where
  "sqlite_lasts env env' s \<longleftrightarrow> sq_expire s \<le> 0 \<or> unix env' < wrap64 (unix env + sq_expire s)"

lemmas sqlite_defs = sqlite_ok_def sqlite_content_def sqlite_live_def sqlite_lasts_def

text \<open>Every operation fails, or is its statement on the table.\<close>

lemma sqlite_Get_eq:
  "sqlite_Get env key bump s =
     (if io_fail env 0 then (Inl (StoreErr ''sqlite get''), s)
      else (case sql_select key (unix env) (sq_db s) of
          None \<Rightarrow> (Inr None, s)
        | Some r \<Rightarrow>
            if \<not> (bump \<and> 0 < sq_expire s \<and> row_expires r \<noteq> None) then (Inr (Some (row_body r)), s)
            else if io_fail env 1 then (Inl (StoreErr ''sqlite bump expiry''), s)
            else (Inr (Some (row_body r)),
                  s\<lparr>sq_db := sql_touch (row_id r) (wrap64 (unix env + sq_expire s)) (sq_db s)\<rparr>)))"
  by (auto simp: sqlite_Get_def Let_def split: option.split)

definition sqlite_deadline :: "io_env \<Rightarrow> sqliteStore \<Rightarrow> int option" where
  "sqlite_deadline env s = (if 0 < sq_expire s then Some (wrap64 (unix env + sq_expire s)) else None)"

lemma sqlite_Set_eq:
  "sqlite_Set env key d s =
     (if io_fail env 0
      then (Some (if isSQLiteUnique (io_sqlite_code env) then ErrKeyExists else StoreErr ''sqlite set''), s)
      else (case sql_insert key d (unix env) (sqlite_deadline env s) (sq_db s) of
          None \<Rightarrow> (Some ErrKeyExists, s)
        | Some tb \<Rightarrow> (None, s\<lparr>sq_db := tb\<rparr>)))"
  by (simp add: sqlite_Set_def sqlite_deadline_def Let_def isSQLiteUnique_def split: option.split)

lemma sqlite_Delete_eq:
  "sqlite_Delete env key s =
     (if io_fail env 0 then (Inl (StoreErr ''sqlite delete''), s)
      else (Inr (0 < fst (sql_delete key (sq_db s))), s\<lparr>sq_db := snd (sql_delete key (sq_db s))\<rparr>))"
  by (simp add: sqlite_Delete_def split: prod.split)

lemma sqlite_PurgeExpired_eq:
  "sqlite_PurgeExpired env s =
     (if io_fail env 0 then (Inl (StoreErr ''sqlite purge''), s)
      else (Inr (int (fst (sql_purge (unix env) (sq_db s)))),
            s\<lparr>sq_db := snd (sql_purge (unix env) (sq_db s))\<rparr>))"
  by (simp add: sqlite_PurgeExpired_def Let_def split: prod.split)

lemma sqlite_Get_found:
  assumes "sqlite_ok s" and "sqlite_Get env key bump s = (Inr found, s')"
  shows "found = (if sqlite_live env s key then sqlite_content s key else None)"
  using select_live [of "sq_db s" key "unix env"] assms
  by (auto simp: sqlite_defs sqlite_Get_eq split: option.splits if_splits)

lemma sqlite_Get_fails: "io_ok env \<Longrightarrow> \<not> isl (fst (sqlite_Get env key bump s))"
  by (auto simp: sqlite_Get_eq io_ok_def split: option.splits)

lemma sqlite_Get_content: "sqlite_content (snd (sqlite_Get env key bump s)) = sqlite_content s"
  by (auto simp: sqlite_Get_eq sqlite_content_def touch_content split: option.splits)

lemma sqlite_Get_ok: "sqlite_ok s \<Longrightarrow> sqlite_ok (snd (sqlite_Get env key bump s))"
  by (auto simp: sqlite_Get_eq sqlite_ok_def touch_ok split: option.splits)

lemma sqlite_Get_probe: "snd (sqlite_Get env key False s) = s"
  by (simp add: sqlite_Get_eq split: option.split)

lemma sqlite_Set_NoneD:
  "sqlite_Set env key d s = (None, s') \<Longrightarrow>
   \<exists>tb. sql_insert key d (unix env) (sqlite_deadline env s) (sq_db s) = Some tb \<and> s' = s\<lparr>sq_db := tb\<rparr>"
  by (auto simp: sqlite_Set_eq split: if_splits option.splits)

lemma sqlite_Set_stored:
  assumes "sqlite_Set env key d s = (None, s')"
  shows "sqlite_content s key = None \<and> sqlite_content s' = (sqlite_content s)(key \<mapsto> d)"
  using sqlite_Set_NoneD [OF assms] by (auto simp: sqlite_content_def insert_content dest: insert_free)

lemma sqlite_Set_taken:
  assumes "sqlite_content s key \<noteq> None"
  shows "fst (sqlite_Set env key d s) \<noteq> None" and "snd (sqlite_Set env key d s) = s"
    and "\<not> io_fail env 0 \<Longrightarrow> fst (sqlite_Set env key d s) = Some ErrKeyExists"
  using assms insert_iff [of key d "unix env" "sqlite_deadline env s" "sq_db s"]
  by (auto simp: sqlite_Set_eq sqlite_content_def split: option.splits)

lemma sqlite_Set_failed: "sqlite_Set env key d s = (Some e, s') \<Longrightarrow> s' = s"
  by (auto simp: sqlite_Set_eq split: if_splits option.splits)

lemma sqlite_Set_other: "h \<noteq> key \<Longrightarrow> sqlite_content (snd (sqlite_Set env key d s)) h = sqlite_content s h"
  by (auto simp: sqlite_Set_eq sqlite_content_def insert_content split: option.splits)

lemma sqlite_Set_ok: "sqlite_ok s \<Longrightarrow> sqlite_ok (snd (sqlite_Set env key d s))"
  by (auto simp: sqlite_Set_eq sqlite_ok_def insert_ok split: option.splits)

lemma sqlite_Set_live:
  assumes "sqlite_Set env key d s = (None, s')"
  shows "sqlite_live env' s' key \<longleftrightarrow> sq_expire s \<le> 0 \<or> unix env' < wrap64 (unix env + sq_expire s)"
  using sqlite_Set_NoneD [OF assms]
  by (auto simp: sqlite_live_def insert_live sqlite_deadline_def split: if_splits)

lemma sqlite_Set_expire: "sq_expire (snd (sqlite_Set env key d s)) = sq_expire s"
  by (simp add: sqlite_Set_eq split: option.split)

lemma sqlite_Delete_deleted:
  "sqlite_Delete env h s = (Inr deleted, s') \<Longrightarrow>
   sqlite_content s' = (sqlite_content s)(h := None) \<and> (deleted \<longleftrightarrow> sqlite_content s h \<noteq> None)"
  by (auto simp: sqlite_Delete_eq sqlite_content_def delete_content delete_count tb_content_def
      split: if_splits)

lemma sqlite_Delete_failed: "sqlite_Delete env h s = (Inl err, s') \<Longrightarrow> s' = s"
  by (auto simp: sqlite_Delete_eq split: if_splits)

lemma sqlite_Delete_ok: "sqlite_ok s \<Longrightarrow> sqlite_ok (snd (sqlite_Delete env h s))"
  by (simp add: sqlite_Delete_eq sqlite_ok_def delete_ok)

lemma sqlite_Purge_content:
  "sqlite_ok s \<Longrightarrow> sqlite_content (snd (sqlite_PurgeExpired env s)) h =
     (if io_fail env 0 \<or> sqlite_live env s h then sqlite_content s h else None)"
  by (simp add: sqlite_PurgeExpired_eq sqlite_defs purge_content)

lemma sqlite_Purge_ok: "sqlite_ok s \<Longrightarrow> sqlite_ok (snd (sqlite_PurgeExpired env s))"
  by (simp add: sqlite_PurgeExpired_eq sqlite_ok_def purge_ok)

lemma sqlite_List_reads: "snd (sqlite_List env limit s) = s"
  by (simp add: sqlite_List_def Let_def)

lemma sqlite_Stats_reads: "snd (sqlite_Stats env s) = s"
  by (simp add: sqlite_Stats_def Let_def)

lemma sqlite_live_content: "sqlite_live env s h \<Longrightarrow> sqlite_content s h \<noteq> None"
  by (simp add: sqlite_defs live_content)

lemmas sqlite_laws = sqlite_Get_fails sqlite_Get_content sqlite_Get_probe sqlite_Get_ok
  sqlite_Set_stored sqlite_Set_taken sqlite_Set_other sqlite_Set_ok sqlite_Delete_deleted
  sqlite_Delete_failed sqlite_Delete_ok sqlite_Purge_content sqlite_Purge_ok sqlite_List_reads
  sqlite_Stats_reads

interpretation sqlite: managed_store sqlite_ops sqlite_ok "\<lambda>_ k. k" sqlite_content sqlite_live sqlite_lasts
  "\<lambda>_ _. True"
proof (unfold_locales, goal_cases)
  case (1 s env k bump found s')
  then show ?case by (simp add: sqlite_Get_found)
next
  case (10 s env k d s')
  then show ?case by (auto dest: sqlite_Set_failed)
next
  case (12 s env k d s' env')
  then show ?case
    using sqlite_Set_expire [of env k d s] by (simp add: sqlite_Set_live sqlite_lasts_def)
next
  case (16 s env h deleted s')
  then show ?case using sqlite_Delete_deleted [of env h s deleted s'] by simp
qed (simp_all add: sqlite_laws sqlite_live_content io_ok_def)

end
