(* ===== verification/Postgres_Store.thy ===== *)
theory Postgres_Store
  imports Paste_Table Go_Url
begin

text \<open>
  \<open>internal/store/postgres.go\<close>: the connection string and its redaction, then the backend. Its
  state is the table and the configured lifetime; a \<open>timestamptz\<close> is microseconds, to which the
  driver truncates the process clock's nanoseconds. A failed insert consumes an identity value,
  as the sequence is not rolled back. Which strings are \<open>text\<close> in the database's encoding is a
  property of the database, \<open>pg_text\<close>; a statement with any other parameter is refused.
\<close>

section \<open>Connection strings\<close>

text \<open>\<open>url.URL\<close> as far as this file looks into it; \<open>url_rest\<close> is everything else it prints.\<close>

record url =
  url_User :: "userinfo option"
  url_Host :: string
  url_rest :: string

text \<open>\<open>parse\<close> is \<open>url.Parse\<close> (\<open>None\<close> is an error) and \<open>str\<close> is \<open>URL.String\<close>.\<close>

definition redactDSN :: "(string \<Rightarrow> url option) \<Rightarrow> (url \<Rightarrow> string) \<Rightarrow> string \<Rightarrow> string" where
  "redactDSN parse str dsn = (case parse dsn of
      None \<Rightarrow> dsn
    | Some u \<Rightarrow> (case url_User u of
        None \<Rightarrow> dsn
      | Some ui \<Rightarrow> (case ui_password ui of
          Some _ \<Rightarrow> str (u\<lparr>url_User := Some (Userinfo (ui_username ui) (Some ''xxxxx''))\<rparr>)
        | None \<Rightarrow> str u)))"

definition scrubDSN :: "(string \<Rightarrow> url option) \<Rightarrow> (url \<Rightarrow> string) \<Rightarrow> string \<Rightarrow> string \<Rightarrow> string" where
  "scrubDSN parse str msg dsn =
     (if dsn = [] then msg
      else
        let msg = replace_all msg dsn (redactDSN parse str dsn)
        in case parse dsn of
             None \<Rightarrow> msg
           | Some u \<Rightarrow> (case url_User u of
               None \<Rightarrow> msg
             | Some ui \<Rightarrow> (case ui_password ui of
                 Some pw \<Rightarrow> if pw \<noteq> [] then replace_all msg pw ''xxxxx'' else msg
               | None \<Rightarrow> msg)))"

text \<open>\<open>u.String()\<close> for the URL that \<open>buildDSN\<close> assembles: a scheme, a host, a rooted path.\<close>

definition buildDSN :: "Storage \<Rightarrow> string" where
  "buildDSN cfg =
     (let host = (if stg_Host cfg = [] then ''localhost'' else stg_Host cfg);
          port = (if stg_Port cfg = 0 then 5432 else stg_Port cfg);
          user = (if stg_User cfg \<noteq> []
                  then userinfo_String (Userinfo (stg_User cfg) (Some (stg_Password cfg))) @ ''@'' else [])
      in ''postgres://'' @ user @ escape EncodeHost (host @ '':'' @ Itoa port) @
         escape EncodePath (''/'' @ stg_DB cfg))"

lemma scrubDSN_unparsed: "parse dsn = None \<Longrightarrow> scrubDSN parse str msg dsn = msg"
  by (simp add: scrubDSN_def redactDSN_def replace_all_same Let_def)

lemma scrubDSN_no_user: "parse dsn = Some u \<Longrightarrow> url_User u = None \<Longrightarrow> scrubDSN parse str msg dsn = msg"
  by (simp add: scrubDSN_def redactDSN_def replace_all_same Let_def)

lemma scrubDSN_password:
  "dsn \<noteq> [] \<Longrightarrow> parse dsn = Some u \<Longrightarrow> url_User u = Some ui \<Longrightarrow> ui_password ui = Some pw \<Longrightarrow> pw \<noteq> [] \<Longrightarrow>
   scrubDSN parse str msg dsn =
     replace_all (replace_all msg dsn (redactDSN parse str dsn)) pw ''xxxxx''"
  by (simp add: scrubDSN_def Let_def)

section \<open>The backend\<close>

record postgresStore =
  pg_pool :: table
  pg_expire :: go_int
  pg_text :: "string \<Rightarrow> bool"

definition micros :: "int \<Rightarrow> int" where
  "micros t = t div 1000"

text \<open>\<open>t.Add(time.Duration(expire) * time.Second)\<close> as the driver sends it\<close>

definition pg_deadline :: "io_env \<Rightarrow> postgresStore \<Rightarrow> int" where
  "pg_deadline env s = micros (io_now env + wrap64 (pg_expire s * 1000000000))"

text \<open>\<open>extract(epoch FROM t)::bigint\<close>, which rounds to the nearest second\<close>

definition pg_epoch :: "int \<Rightarrow> int" where
  "pg_epoch m = (if 0 \<le> m then (m + 500000) div 1000000 else - ((500000 - m) div 1000000))"

text \<open>The effect of \<open>CREATE TABLE IF NOT EXISTS\<close>.\<close>

definition createPastesTable :: "table option \<Rightarrow> table" where
  "createPastesTable found = (case found of Some tb \<Rightarrow> tb | None \<Rightarrow> empty_table)"

text \<open>
  \<open>pool\<close> is the table the database already has and \<open>accepts\<close> what it takes for text. The three calls are the pool's creation, the
  ping and the creation of the table; an error names the DSN only in its redacted form, and
  \<open>errText n\<close> is the driver's message for the \<open>n\<close>-th.
\<close>

definition newPostgres ::
  "io_env \<Rightarrow> (string \<Rightarrow> url option) \<Rightarrow> (url \<Rightarrow> string) \<Rightarrow> (nat \<Rightarrow> string) \<Rightarrow> (string \<Rightarrow> table option)
     \<Rightarrow> (string \<Rightarrow> bool) \<Rightarrow> Storage \<Rightarrow> store_error + postgresStore" where
  "newPostgres env parse str errText pool accepts cfg =
     (let dsn = (if stg_URL cfg = [] then buildDSN cfg else stg_URL cfg)
      in if io_fail env 0
         then Inl (StoreErr (''postgres connect ('' @ redactDSN parse str dsn @ ''): '' @
                scrubDSN parse str (errText 0) dsn))
         else if io_fail env 1
         then Inl (StoreErr (''postgres ping ('' @ redactDSN parse str dsn @ ''): '' @
                scrubDSN parse str (errText 1) dsn))
         else if io_fail env 2
         then Inl (StoreErr (''postgres init schema: '' @ scrubDSN parse str (errText 2) dsn))
         else Inr \<lparr>pg_pool = createPastesTable (pool dsn), pg_expire = stg_Expire cfg, pg_text = accepts\<rparr>)"

definition postgres_Get ::
  "io_env \<Rightarrow> string \<Rightarrow> bool \<Rightarrow> postgresStore \<Rightarrow> (store_error + string option) \<times> postgresStore" where
  "postgres_Get env key bumpExpiry s =
     (let now = micros (io_now env)
      in if io_fail env 0 \<or> \<not> pg_text s key then (Inl (StoreErr ''postgres get''), s)
         else (case sql_select key now (pg_pool s) of
             None \<Rightarrow> (Inr None, s)
           | Some r \<Rightarrow>
               if bumpExpiry \<and> 0 < pg_expire s \<and> row_expires r \<noteq> None then
                 let newExp = pg_deadline env s
                 in if io_fail env 1 then (Inl (StoreErr ''postgres bump expiry''), s)
                    else (Inr (Some (row_body r)), s\<lparr>pg_pool := sql_touch (row_id r) newExp (pg_pool s)\<rparr>)
               else (Inr (Some (row_body r)), s)))"

text \<open>\<open>22021\<close> is the server's code for a string that is no text in its encoding.\<close>

definition pgUniqueViolation :: string where
  "pgUniqueViolation = ''23505''"

definition postgres_Set ::
  "io_env \<Rightarrow> string \<Rightarrow> string \<Rightarrow> postgresStore \<Rightarrow> store_error option \<times> postgresStore" where
  "postgres_Set env key data s =
     (let expiresAt = (if 0 < pg_expire s then Some (pg_deadline env s) else None);
          burnt = s\<lparr>pg_pool := (pg_pool s)\<lparr>tb_next := tb_next (pg_pool s) + 1\<rparr>\<rparr>;
          result = (if io_fail env 0 then Inl (io_sqlstate env, s)
                    else if \<not> pg_text s key \<or> \<not> pg_text s data then Inl (''22021'', s)
                    else (case sql_insert key data (io_dbnow env) expiresAt (pg_pool s) of
                        None \<Rightarrow> Inl (''23505'', burnt)
                      | Some tb \<Rightarrow> Inr tb))
      in case result of
           Inl (code, s') \<Rightarrow> (Some (if code = pgUniqueViolation then ErrKeyExists
                                   else StoreErr ''postgres set''), s')
         | Inr tb \<Rightarrow> (None, s\<lparr>pg_pool := tb\<rparr>))"

definition postgres_List ::
  "io_env \<Rightarrow> go_int \<Rightarrow> postgresStore \<Rightarrow> (store_error + PasteMeta list) \<times> postgresStore" where
  "postgres_List env limit s =
     (let limit = (if limit \<le> 0 then DefaultListLimit else limit);
          now = micros (io_now env)
      in if io_fail env 0 then (Inl (StoreErr ''postgres list''), s)
         else if io_fail env 1 then (Inl (StoreErr ''postgres list scan''), s)
         else (Inr (map (\<lambda>r. \<lparr>pm_Key = row_slug r, pm_Size = int (length (row_body r)),
                               pm_Created = Some (pg_epoch (row_created r)),
                               pm_Expiration = map_option pg_epoch (row_expires r)\<rparr>)
                     (sql_list now limit (pg_pool s))), s))"

definition postgres_Delete ::
  "io_env \<Rightarrow> string \<Rightarrow> postgresStore \<Rightarrow> (store_error + bool) \<times> postgresStore" where
  "postgres_Delete env key s =
     (if io_fail env 0 \<or> \<not> pg_text s key then (Inl (StoreErr ''postgres delete''), s)
      else (case sql_delete key (pg_pool s) of (n, tb) \<Rightarrow> (Inr (0 < n), s\<lparr>pg_pool := tb\<rparr>)))"

definition postgres_Stats :: "io_env \<Rightarrow> postgresStore \<Rightarrow> (store_error + Stats) \<times> postgresStore" where
  "postgres_Stats env s =
     (let now = micros (io_now env)
      in if io_fail env 0 then (Inl (StoreErr ''postgres stats''), s)
         else (Inr (sql_stats now (pg_pool s)), s))"

definition postgres_PurgeExpired ::
  "io_env \<Rightarrow> postgresStore \<Rightarrow> (store_error + go_int) \<times> postgresStore" where
  "postgres_PurgeExpired env s =
     (let now = micros (io_now env)
      in if io_fail env 0 then (Inl (StoreErr ''postgres purge''), s)
         else (case sql_purge now (pg_pool s) of (n, tb) \<Rightarrow> (Inr (int n), s\<lparr>pg_pool := tb\<rparr>)))"

definition postgres_ops :: "postgresStore store_ops" where
  "postgres_ops = \<lparr>op_Get = postgres_Get, op_Set = postgres_Set, op_List = postgres_List,
     op_Delete = postgres_Delete, op_Stats = postgres_Stats, op_PurgeExpired = postgres_PurgeExpired\<rparr>"

lemma postgres_ops_simps [simp]:
  "op_Get postgres_ops = postgres_Get" "op_Set postgres_ops = postgres_Set"
  "op_List postgres_ops = postgres_List" "op_Delete postgres_ops = postgres_Delete"
  "op_Stats postgres_ops = postgres_Stats" "op_PurgeExpired postgres_ops = postgres_PurgeExpired"
  by (simp_all add: postgres_ops_def)

section \<open>The backend keeps the store contract\<close>

definition postgres_ok :: "postgresStore \<Rightarrow> bool" where
  "postgres_ok s \<longleftrightarrow> table_ok (pg_pool s) \<and> (\<forall>k \<in> slugs (pg_pool s). pg_text s k)"

definition postgres_content :: "postgresStore \<Rightarrow> string \<Rightarrow> string option" where
  "postgres_content s = tb_content (pg_pool s)"

definition postgres_live :: "io_env \<Rightarrow> postgresStore \<Rightarrow> string \<Rightarrow> bool" where
  "postgres_live env s key = tb_live (micros (io_now env)) (pg_pool s) key"

definition postgres_lasts :: "io_env \<Rightarrow> io_env \<Rightarrow> postgresStore \<Rightarrow> bool" where
  "postgres_lasts env env' s \<longleftrightarrow> pg_expire s \<le> 0 \<or> micros (io_now env') < pg_deadline env s"

lemmas postgres_defs = postgres_ok_def postgres_content_def postgres_live_def postgres_lasts_def

lemma burn_content: "tb_content (tb\<lparr>tb_next := n\<rparr>) = tb_content tb"
  by (simp add: fun_eq_iff tb_content_def tb_lookup_def)

lemma burn_ok: "table_ok tb \<Longrightarrow> table_ok (tb\<lparr>tb_next := tb_next tb + 1\<rparr>)"
  by (force simp: table_ok_def)

lemma postgres_Get_eq:
  "postgres_Get env key bump s =
     (if io_fail env 0 \<or> \<not> pg_text s key then (Inl (StoreErr ''postgres get''), s)
      else (case sql_select key (micros (io_now env)) (pg_pool s) of
          None \<Rightarrow> (Inr None, s)
        | Some r \<Rightarrow>
            if \<not> (bump \<and> 0 < pg_expire s \<and> row_expires r \<noteq> None) then (Inr (Some (row_body r)), s)
            else if io_fail env 1 then (Inl (StoreErr ''postgres bump expiry''), s)
            else (Inr (Some (row_body r)),
                  s\<lparr>pg_pool := sql_touch (row_id r) (pg_deadline env s) (pg_pool s)\<rparr>)))"
  by (auto simp: postgres_Get_def Let_def split: option.split)

definition pg_expires :: "io_env \<Rightarrow> postgresStore \<Rightarrow> int option" where
  "pg_expires env s = (if 0 < pg_expire s then Some (pg_deadline env s) else None)"

lemma postgres_Set_eq:
  "postgres_Set env key d s =
     (if io_fail env 0
      then (Some (if io_sqlstate env = ''23505'' then ErrKeyExists else StoreErr ''postgres set''), s)
      else if \<not> pg_text s key \<or> \<not> pg_text s d then (Some (StoreErr ''postgres set''), s)
      else (case sql_insert key d (io_dbnow env) (pg_expires env s) (pg_pool s) of
          None \<Rightarrow> (Some ErrKeyExists, s\<lparr>pg_pool := (pg_pool s)\<lparr>tb_next := tb_next (pg_pool s) + 1\<rparr>\<rparr>)
        | Some tb \<Rightarrow> (None, s\<lparr>pg_pool := tb\<rparr>)))"
  by (simp add: postgres_Set_def pg_expires_def Let_def pgUniqueViolation_def split: option.split)

lemma postgres_Delete_eq:
  "postgres_Delete env key s =
     (if io_fail env 0 \<or> \<not> pg_text s key then (Inl (StoreErr ''postgres delete''), s)
      else (Inr (0 < fst (sql_delete key (pg_pool s))), s\<lparr>pg_pool := snd (sql_delete key (pg_pool s))\<rparr>))"
  by (simp add: postgres_Delete_def split: prod.split)

lemma postgres_PurgeExpired_eq:
  "postgres_PurgeExpired env s =
     (if io_fail env 0 then (Inl (StoreErr ''postgres purge''), s)
      else (Inr (int (fst (sql_purge (micros (io_now env)) (pg_pool s)))),
            s\<lparr>pg_pool := snd (sql_purge (micros (io_now env)) (pg_pool s))\<rparr>))"
  by (simp add: postgres_PurgeExpired_def Let_def split: prod.split)

lemma postgres_Get_found:
  assumes "postgres_ok s" and "postgres_Get env key bump s = (Inr found, s')"
  shows "found = (if postgres_live env s key then postgres_content s key else None)"
  using select_live [of "pg_pool s" key "micros (io_now env)"] assms
  by (auto simp: postgres_defs postgres_Get_eq split: option.splits if_splits)

lemma stored_is_text: "postgres_ok s \<Longrightarrow> postgres_content s key \<noteq> None \<Longrightarrow> pg_text s key"
  unfolding postgres_ok_def postgres_content_def content_slugs by blast

lemma postgres_Get_fails:
  assumes "postgres_ok s" and "io_ok env" and "postgres_content s key \<noteq> None"
  shows "\<not> isl (fst (postgres_Get env key bump s))"
  using stored_is_text [OF assms(1,3)] assms(2) by (auto simp: postgres_Get_eq io_ok_def split: option.splits)

lemma postgres_Get_content: "postgres_content (snd (postgres_Get env key bump s)) = postgres_content s"
  by (auto simp: postgres_Get_eq postgres_content_def touch_content split: option.splits)

lemma postgres_Get_ok: "postgres_ok s \<Longrightarrow> postgres_ok (snd (postgres_Get env key bump s))"
  by (auto simp: postgres_Get_eq postgres_ok_def touch_ok split: option.splits)

lemma postgres_Get_probe: "snd (postgres_Get env key False s) = s"
  by (simp add: postgres_Get_eq split: option.split)

lemma postgres_Set_NoneD:
  "postgres_Set env key d s = (None, s') \<Longrightarrow> pg_text s key \<and> pg_text s d \<and>
   (\<exists>tb. sql_insert key d (io_dbnow env) (pg_expires env s) (pg_pool s) = Some tb \<and> s' = s\<lparr>pg_pool := tb\<rparr>)"
  by (auto simp: postgres_Set_eq split: if_splits option.splits)

lemma postgres_Set_stored:
  assumes "postgres_Set env key d s = (None, s')"
  shows "postgres_content s key = None \<and> postgres_content s' = (postgres_content s)(key \<mapsto> d)"
  using postgres_Set_NoneD [OF assms] by (auto simp: postgres_content_def insert_content dest: insert_free)

lemma postgres_Set_taken:
  assumes "postgres_content s key \<noteq> None"
  shows "fst (postgres_Set env key d s) \<noteq> None"
    and "postgres_content (snd (postgres_Set env key d s)) = postgres_content s"
    and "postgres_ok s \<Longrightarrow> \<not> io_fail env 0 \<Longrightarrow> pg_text s d \<Longrightarrow> fst (postgres_Set env key d s) = Some ErrKeyExists"
  using assms stored_is_text [OF _ assms] insert_iff [of key d "io_dbnow env" "pg_expires env s" "pg_pool s"]
  by (auto simp: postgres_Set_eq postgres_content_def burn_content split: option.splits)

lemma postgres_Set_failed: "postgres_Set env key d s = (Some e, s') \<Longrightarrow> postgres_content s' = postgres_content s"
  by (auto simp: postgres_Set_eq postgres_content_def burn_content split: if_splits option.splits)

lemma postgres_Set_other:
  "h \<noteq> key \<Longrightarrow> postgres_content (snd (postgres_Set env key d s)) h = postgres_content s h"
  by (auto simp: postgres_Set_eq postgres_content_def insert_content burn_content split: option.splits)

lemma postgres_Set_ok: "postgres_ok s \<Longrightarrow> postgres_ok (snd (postgres_Set env key d s))"
  by (auto simp: postgres_Set_eq postgres_ok_def insert_ok burn_ok slugs_insert split: option.splits)

lemma postgres_Set_live:
  assumes "postgres_Set env key d s = (None, s')"
  shows "postgres_live env' s' key \<longleftrightarrow> pg_expire s \<le> 0 \<or> micros (io_now env') < pg_deadline env s"
  using postgres_Set_NoneD [OF assms]
  by (auto simp: postgres_live_def insert_live pg_expires_def split: if_splits)

lemma postgres_Set_expire: "pg_expire (snd (postgres_Set env key d s)) = pg_expire s"
  by (simp add: postgres_Set_eq split: option.split)

lemma postgres_Delete_deleted:
  "postgres_Delete env h s = (Inr deleted, s') \<Longrightarrow>
   postgres_content s' = (postgres_content s)(h := None) \<and> (deleted \<longleftrightarrow> postgres_content s h \<noteq> None)"
  by (auto simp: postgres_Delete_eq postgres_content_def delete_content delete_count tb_content_def
      split: if_splits)

lemma postgres_Delete_failed: "postgres_Delete env h s = (Inl err, s') \<Longrightarrow> s' = s"
  by (auto simp: postgres_Delete_eq split: if_splits)

lemma postgres_Delete_ok: "postgres_ok s \<Longrightarrow> postgres_ok (snd (postgres_Delete env h s))"
  by (simp add: postgres_Delete_eq postgres_ok_def delete_ok)

lemma postgres_Purge_content:
  "postgres_ok s \<Longrightarrow> postgres_content (snd (postgres_PurgeExpired env s)) h =
     (if io_fail env 0 \<or> postgres_live env s h then postgres_content s h else None)"
  by (simp add: postgres_PurgeExpired_eq postgres_defs purge_content)

lemma postgres_Purge_ok: "postgres_ok s \<Longrightarrow> postgres_ok (snd (postgres_PurgeExpired env s))"
  using slugs_purge [of "micros (io_now env)" "pg_pool s"]
  by (auto simp: postgres_PurgeExpired_eq postgres_ok_def purge_ok)

lemma postgres_List_reads: "snd (postgres_List env limit s) = s"
  by (simp add: postgres_List_def Let_def)

lemma postgres_Stats_reads: "snd (postgres_Stats env s) = s"
  by (simp add: postgres_Stats_def Let_def)

lemma postgres_live_content: "postgres_live env s h \<Longrightarrow> postgres_content s h \<noteq> None"
  by (simp add: postgres_defs live_content)

lemma postgres_Set_text: "pg_text (snd (postgres_Set env key d s)) = pg_text s"
  by (simp add: postgres_Set_eq split: option.split)

lemmas postgres_laws = postgres_Get_content postgres_Get_probe postgres_Get_ok
  postgres_Set_stored postgres_Set_taken postgres_Set_other postgres_Set_ok postgres_Delete_failed
  postgres_Delete_ok postgres_Purge_content postgres_Purge_ok postgres_List_reads postgres_Stats_reads

interpretation postgres: managed_store postgres_ops postgres_ok "\<lambda>_ k. k" postgres_content
  postgres_live postgres_lasts pg_text
proof (unfold_locales, goal_cases)
  case (1 s env k bump found s')
  then show ?case by (simp add: postgres_Get_found)
next
  case (2 s env k bump)
  with postgres_Get_fails [of s env k bump] show ?case by (cases "postgres_content s k") simp_all
next
  case (10 s env k d s')
  then show ?case by (auto dest: postgres_Set_failed)
next
  case (12 s env k d s' env')
  then show ?case
    using postgres_Set_expire [of env k d s]
    by (simp add: postgres_Set_live postgres_lasts_def pg_deadline_def)
next
  case (16 s env h deleted s')
  then show ?case using postgres_Delete_deleted [of env h s deleted s'] by simp
qed (simp_all add: postgres_laws postgres_live_content io_ok_def)

end
