(* ===== verification/File_Store.thy ===== *)
theory File_Store
  imports Store "HOL-Library.Multiset"
begin

text \<open>
  \<open>internal/store/file.go\<close>. The state is the base directory: its entries by name. A paste is the
  file named by the hexadecimal SHA-256 of its key; the hash is a parameter, of which only the
  type matters: it yields 32 bytes. Other files and directories may lie in the directory. Calls
  to the operating system may fail (\<open>io_fail\<close>); a failing write has created the file and left
  the first \<open>io_written\<close> bytes of the data in it.
\<close>

section \<open>Hashes and handles\<close>

definition is_hex_char :: "char \<Rightarrow> bool" where
  "is_hex_char c \<longleftrightarrow> byte_in (CHR ''0'') (CHR ''9'') c \<or> byte_in (CHR ''a'') (CHR ''f'') c"

definition isHexHandle :: "string \<Rightarrow> bool" where
  "isHexHandle name \<longleftrightarrow> length name = 64 \<and> list_all is_hex_char name"

text \<open>The name within \<open>basePath\<close>; the handle of the key.\<close>

definition filename :: "(string \<Rightarrow> bytes32) \<Rightarrow> string \<Rightarrow> string" where
  "filename sha256 key = hex_encode (bytes32_slice (sha256 key))"

lemma hex_digits_hex: "c \<in> set hex_digits \<Longrightarrow> is_hex_char c"
  by (auto simp: hex_digits_def is_hex_char_def less_eq_char_def)

lemma filename_handle: "isHexHandle (filename sha256 key)"
  using set_hex_encode [of "bytes32_slice (sha256 key)"]
  by (auto simp: isHexHandle_def filename_def list_all_iff intro!: hex_digits_hex)

lemma handle_safe: "isHexHandle name \<Longrightarrow> CHR ''/'' \<notin> set name \<and> CHR ''.'' \<notin> set name"
  by (auto simp: isHexHandle_def list_all_iff is_hex_char_def less_eq_char_def)

section \<open>The backend\<close>

datatype dirent = EFile string int | EDir bool \<comment> \<open>content and modification time; empty?\<close>

record fileStore =
  fs_basePath :: string
  fs_dir :: "(string, dirent) fmap"

text \<open>\<open>disk\<close> is what the directory already holds; the expiry warning is only logged.\<close>

definition newFile ::
  "io_env \<Rightarrow> (string \<Rightarrow> (string, dirent) fmap) \<Rightarrow> Storage \<Rightarrow> store_error + fileStore" where
  "newFile env disk cfg =
     (let base = (if stg_Path cfg = [] then ''./data'' else stg_Path cfg)
      in if io_fail env 0 then Inl (StoreErr ''file store mkdir'')
         else Inr \<lparr>fs_basePath = base, fs_dir = disk base\<rparr>)"

definition file_Get ::
  "(string \<Rightarrow> bytes32) \<Rightarrow> io_env \<Rightarrow> string \<Rightarrow> bool \<Rightarrow> fileStore
     \<Rightarrow> (store_error + string option) \<times> fileStore" where
  "file_Get sha256 env key bump s =
     (if io_fail env 0 then (Inl (StoreErr ''file store get''), s)
      else (case fmlookup (fs_dir s) (filename sha256 key) of
          None \<Rightarrow> (Inr None, s)
        | Some (EDir _) \<Rightarrow> (Inl (StoreErr ''file store get''), s)
        | Some (EFile data _) \<Rightarrow> (Inr (Some data), s)))"

definition file_Set ::
  "(string \<Rightarrow> bytes32) \<Rightarrow> io_env \<Rightarrow> string \<Rightarrow> string \<Rightarrow> fileStore \<Rightarrow> store_error option \<times> fileStore" where
  "file_Set sha256 env key data s =
     (let name = filename sha256 key
      in if io_fail env 0 then (Some (StoreErr ''file store set''), s)
         else if fmlookup (fs_dir s) name \<noteq> None then (Some ErrKeyExists, s)
         else if io_fail env 1
         then (Some (StoreErr ''file store write''),
               s\<lparr>fs_dir := fmupd name (EFile (take (io_written env) data) (io_now env)) (fs_dir s)\<rparr>)
         else (None, s\<lparr>fs_dir := fmupd name (EFile data (io_now env)) (fs_dir s)\<rparr>))"

text \<open>
  \<open>os.ReadDir\<close> lists the entries by name. Of these \<open>List\<close> and \<open>Stats\<close> take the regular files with
  the shape of a handle; \<open>Info\<close> of the \<open>i\<close>-th such entry may fail, and then it is skipped.
\<close>

definition dir_pastes :: "io_env \<Rightarrow> fileStore \<Rightarrow> (string \<times> string \<times> int) list" where
  "dir_pastes env s =
     (let names = sorted_list_of_fset (fmdom (fs_dir s));
          files = concat (map (\<lambda>n. case fmlookup (fs_dir s) n of
                      Some (EFile data mtime) \<Rightarrow> if isHexHandle n then [(n, data, mtime)] else []
                    | _ \<Rightarrow> []) names)
      in map snd (filter (\<lambda>(i, _). \<not> io_fail env (Suc i)) (enumerate 0 files)))"

text \<open>
  \<open>srt\<close> is \<open>sort.Slice\<close> with the comparison \<open>Created i > Created j\<close>: it is not stable, so all
  that is known of it is that it permutes and that the result descends.
\<close>

definition sorts_newest_first :: "(PasteMeta list \<Rightarrow> PasteMeta list) \<Rightarrow> bool" where
  "sorts_newest_first srt \<longleftrightarrow>
     (\<forall>ms. mset (srt ms) = mset ms \<and>
        sorted_wrt (\<lambda>m m'. the (pm_Created m') \<le> the (pm_Created m)) (srt ms))"

definition file_List ::
  "(PasteMeta list \<Rightarrow> PasteMeta list) \<Rightarrow> io_env \<Rightarrow> go_int \<Rightarrow> fileStore
     \<Rightarrow> (store_error + PasteMeta list) \<times> fileStore" where
  "file_List srt env limit s =
     (let limit = (if limit \<le> 0 then DefaultListLimit else limit)
      in if io_fail env 0 then (Inl (StoreErr ''file store list''), s)
         else (let out = srt (map (\<lambda>(n, data, mtime). \<lparr>pm_Key = n, pm_Size = int (length data),
                               pm_Created = Some (mtime div 1000000000), pm_Expiration = None\<rparr>)
                           (dir_pastes env s))
               in (Inr (if limit < int (length out) then take (nat limit) out else out), s)))"

definition file_Delete ::
  "io_env \<Rightarrow> string \<Rightarrow> fileStore \<Rightarrow> (store_error + bool) \<times> fileStore" where
  "file_Delete env handle s =
     (if \<not> isHexHandle handle then (Inr False, s)
      else if io_fail env 0 then (Inl (StoreErr ''file store delete''), s)
      else (case fmlookup (fs_dir s) handle of
          None \<Rightarrow> (Inr False, s)
        | Some (EDir False) \<Rightarrow> (Inl (StoreErr ''file store delete''), s)
        | Some _ \<Rightarrow> (Inr True, s\<lparr>fs_dir := fmdrop handle (fs_dir s)\<rparr>)))"

definition file_Stats :: "io_env \<Rightarrow> fileStore \<Rightarrow> (store_error + Stats) \<times> fileStore" where
  "file_Stats env s =
     (if io_fail env 0 then (Inl (StoreErr ''file store stats''), s)
      else (let ps = dir_pastes env s
            in (Inr \<lparr>st_Count = int (length ps), st_Bytes = int (sum_list (map (\<lambda>(_, data, _). length data) ps))\<rparr>, s)))"

definition file_PurgeExpired :: "io_env \<Rightarrow> fileStore \<Rightarrow> (store_error + go_int) \<times> fileStore" where
  "file_PurgeExpired env s = (Inr 0, s)"

definition file_ops ::
  "(string \<Rightarrow> bytes32) \<Rightarrow> (PasteMeta list \<Rightarrow> PasteMeta list) \<Rightarrow> fileStore store_ops" where
  "file_ops sha256 srt = \<lparr>op_Get = file_Get sha256, op_Set = file_Set sha256, op_List = file_List srt,
     op_Delete = file_Delete, op_Stats = file_Stats, op_PurgeExpired = file_PurgeExpired\<rparr>"

lemma file_ops_simps [simp]:
  "op_Get (file_ops sha256 srt) = file_Get sha256" "op_Set (file_ops sha256 srt) = file_Set sha256"
  "op_List (file_ops sha256 srt) = file_List srt" "op_Delete (file_ops sha256 srt) = file_Delete"
  "op_Stats (file_ops sha256 srt) = file_Stats"
  "op_PurgeExpired (file_ops sha256 srt) = file_PurgeExpired"
  by (simp_all add: file_ops_def)

section \<open>The backend keeps the store contract\<close>

text \<open>
  The content of a slot is that of the regular file with this name, when the name has the shape
  of a handle: nothing else in the directory is a paste.
\<close>

definition file_content :: "fileStore \<Rightarrow> string \<Rightarrow> string option" where
  "file_content s h = (if isHexHandle h then
     (case fmlookup (fs_dir s) h of Some (EFile data _) \<Rightarrow> Some data | _ \<Rightarrow> None) else None)"

definition file_live :: "io_env \<Rightarrow> fileStore \<Rightarrow> string \<Rightarrow> bool" where
  "file_live env s h \<longleftrightarrow> file_content s h \<noteq> None"

lemma file_Get_found:
  "file_Get sha256 env key bump s = (Inr found, s') \<Longrightarrow> found = file_content s (filename sha256 key)"
  by (auto simp: file_Get_def file_content_def filename_handle split: if_splits option.splits dirent.splits)

lemma file_Get_reads: "snd (file_Get sha256 env key bump s) = s"
  by (simp add: file_Get_def split: option.split dirent.split)

lemma file_Get_fails:
  "io_ok env \<Longrightarrow> \<not> isl (fst (file_Get sha256 env key bump s)) \<or> file_content s (filename sha256 key) = None"
  by (auto simp: file_Get_def io_ok_def file_content_def split: option.split dirent.split)

lemma file_Set_stored:
  "file_Set sha256 env key d s = (None, s') \<Longrightarrow>
   file_content s (filename sha256 key) = None \<and>
   file_content s' = (file_content s)(filename sha256 key \<mapsto> d)"
  by (auto simp: file_Set_def Let_def fun_eq_iff file_content_def filename_handle
      split: if_splits option.splits)

lemma file_Set_taken:
  assumes "file_content s (filename sha256 key) \<noteq> None"
  shows "fst (file_Set sha256 env key d s) \<noteq> None" and "snd (file_Set sha256 env key d s) = s"
    and "\<not> io_fail env 0 \<Longrightarrow> fst (file_Set sha256 env key d s) = Some ErrKeyExists"
  using assms
  by (auto simp: file_Set_def file_content_def Let_def split: if_splits option.splits)

lemma file_Set_exists: "file_Set sha256 env key d s = (Some ErrKeyExists, s') \<Longrightarrow> s' = s"
  by (auto simp: file_Set_def Let_def split: if_splits)

lemma file_Set_other:
  "h \<noteq> filename sha256 key \<Longrightarrow> file_content (snd (file_Set sha256 env key d s)) h = file_content s h"
  by (simp add: file_Set_def Let_def file_content_def)

lemma file_Delete_deleted:
  "file_Delete env h s = (Inr deleted, s') \<Longrightarrow>
   file_content s' = (file_content s)(h := None) \<and> (\<not> deleted \<longrightarrow> file_content s h = None)"
  by (auto simp: file_Delete_def file_content_def fun_eq_iff
      split: if_splits option.splits dirent.splits bool.splits)

lemma file_Delete_failed: "file_Delete env h s = (Inl err, s') \<Longrightarrow> s' = s"
  by (auto simp: file_Delete_def split: if_splits option.splits dirent.splits bool.splits)

lemma file_List_reads: "snd (file_List srt env limit s) = s"
  by (simp add: file_List_def Let_def)

lemma file_Stats_reads: "snd (file_Stats env s) = s"
  by (simp add: file_Stats_def Let_def)

lemmas file_laws = file_Get_reads file_Get_fails file_Set_stored file_Set_taken file_Set_other
  file_Delete_failed file_List_reads file_Stats_reads file_PurgeExpired_def

interpretation files: managed_store "file_ops sha256 srt" "\<lambda>_. True" "\<lambda>_. filename sha256" file_content
  file_live "\<lambda>_ _ _. True" "\<lambda>_ _. True" for sha256 srt
proof (unfold_locales, goal_cases)
  case (1 s env k bump found s')
  then show ?case using file_Get_found [of sha256 env k bump s found s'] by (simp add: file_live_def)
next
  case (10 s env k d s')
  then show ?case by (auto dest: file_Set_exists)
next
  case (12 s env k d s' env')
  then show ?case using file_Set_stored [of sha256 env k d s s'] by (simp add: file_live_def)
next
  case (16 s env h deleted s')
  then show ?case using file_Delete_deleted [of env h s deleted s'] by simp
next
  case (2 s env k bump)
  then show ?case using file_Get_fails [of env sha256 k bump s] by simp
next
  case (9 s k env d)
  then show ?case using file_Set_taken(3) [of s sha256 k env d] by (simp add: io_ok_def)
qed (simp_all add: file_laws file_live_def)

end
