(* ===== verification/Backend.thy ===== *)
theory Backend
  imports Sqlite_Store Postgres_Store File_Store
begin

text \<open>
  \<open>New\<close> of \<open>internal/store/store.go\<close>: the store of the server is one of the three backends, and a
  call goes to the one that was configured. The contract holds for the choice because it holds
  for each of the three.
\<close>

datatype backend = Postgres postgresStore | Sqlite sqliteStore | Files fileStore

fun backend_Get ::
  "(string \<Rightarrow> bytes32) \<Rightarrow> io_env \<Rightarrow> string \<Rightarrow> bool \<Rightarrow> backend \<Rightarrow> (store_error + string option) \<times> backend" where
  "backend_Get sha env k b (Postgres s) = apsnd Postgres (postgres_Get env k b s)"
| "backend_Get sha env k b (Sqlite s) = apsnd Sqlite (sqlite_Get env k b s)"
| "backend_Get sha env k b (Files s) = apsnd Files (file_Get sha env k b s)"

fun backend_Set ::
  "(string \<Rightarrow> bytes32) \<Rightarrow> io_env \<Rightarrow> string \<Rightarrow> string \<Rightarrow> backend \<Rightarrow> store_error option \<times> backend" where
  "backend_Set sha env k d (Postgres s) = apsnd Postgres (postgres_Set env k d s)"
| "backend_Set sha env k d (Sqlite s) = apsnd Sqlite (sqlite_Set env k d s)"
| "backend_Set sha env k d (Files s) = apsnd Files (file_Set sha env k d s)"

fun backend_List ::
  "(PasteMeta list \<Rightarrow> PasteMeta list) \<Rightarrow> io_env \<Rightarrow> go_int \<Rightarrow> backend \<Rightarrow> (store_error + PasteMeta list) \<times> backend" where
  "backend_List srt env n (Postgres s) = apsnd Postgres (postgres_List env n s)"
| "backend_List srt env n (Sqlite s) = apsnd Sqlite (sqlite_List env n s)"
| "backend_List srt env n (Files s) = apsnd Files (file_List srt env n s)"

fun backend_Delete :: "io_env \<Rightarrow> string \<Rightarrow> backend \<Rightarrow> (store_error + bool) \<times> backend" where
  "backend_Delete env h (Postgres s) = apsnd Postgres (postgres_Delete env h s)"
| "backend_Delete env h (Sqlite s) = apsnd Sqlite (sqlite_Delete env h s)"
| "backend_Delete env h (Files s) = apsnd Files (file_Delete env h s)"

fun backend_Stats :: "io_env \<Rightarrow> backend \<Rightarrow> (store_error + Stats) \<times> backend" where
  "backend_Stats env (Postgres s) = apsnd Postgres (postgres_Stats env s)"
| "backend_Stats env (Sqlite s) = apsnd Sqlite (sqlite_Stats env s)"
| "backend_Stats env (Files s) = apsnd Files (file_Stats env s)"

fun backend_PurgeExpired :: "io_env \<Rightarrow> backend \<Rightarrow> (store_error + go_int) \<times> backend" where
  "backend_PurgeExpired env (Postgres s) = apsnd Postgres (postgres_PurgeExpired env s)"
| "backend_PurgeExpired env (Sqlite s) = apsnd Sqlite (sqlite_PurgeExpired env s)"
| "backend_PurgeExpired env (Files s) = apsnd Files (file_PurgeExpired env s)"

definition backend_ops ::
  "(string \<Rightarrow> bytes32) \<Rightarrow> (PasteMeta list \<Rightarrow> PasteMeta list) \<Rightarrow> backend store_ops" where
  "backend_ops sha srt = \<lparr>op_Get = backend_Get sha, op_Set = backend_Set sha, op_List = backend_List srt,
     op_Delete = backend_Delete, op_Stats = backend_Stats, op_PurgeExpired = backend_PurgeExpired\<rparr>"

lemma backend_ops_simps [simp]:
  "op_Get (backend_ops sha srt) = backend_Get sha" "op_Set (backend_ops sha srt) = backend_Set sha"
  "op_List (backend_ops sha srt) = backend_List srt" "op_Delete (backend_ops sha srt) = backend_Delete"
  "op_Stats (backend_ops sha srt) = backend_Stats"
  "op_PurgeExpired (backend_ops sha srt) = backend_PurgeExpired"
  by (simp_all add: backend_ops_def)

section \<open>Construction\<close>

text \<open>What the three constructors find outside: the parameters of each.\<close>

record backend_world =
  bw_parse :: "string \<Rightarrow> url option"
  bw_str :: "url \<Rightarrow> string"
  bw_errText :: "nat \<Rightarrow> string"
  bw_pool :: "string \<Rightarrow> table option"
  bw_accepts :: "string \<Rightarrow> bool"
  bw_sqlite :: "string \<Rightarrow> table option"
  bw_dir :: "string \<Rightarrow> (string, dirent) fmap"

definition store_New :: "io_env \<Rightarrow> backend_world \<Rightarrow> Storage \<Rightarrow> store_error + backend" where
  "store_New env bw cfg =
     (if stg_Type cfg = ''postgres'' then
        (case newPostgres env (bw_parse bw) (bw_str bw) (bw_errText bw) (bw_pool bw) (bw_accepts bw) cfg of
           Inl e \<Rightarrow> Inl e | Inr s \<Rightarrow> Inr (Postgres s))
      else if stg_Type cfg = ''sqlite'' then
        (case newSQLite env (bw_sqlite bw) cfg of Inl e \<Rightarrow> Inl e | Inr s \<Rightarrow> Inr (Sqlite s))
      else if stg_Type cfg = ''file'' then
        (case newFile env (bw_dir bw) cfg of Inl e \<Rightarrow> Inl e | Inr s \<Rightarrow> Inr (Files s))
      else Inl (StoreErr (''unknown storage type '' @ stg_Type cfg @ '' (want postgres|sqlite|file)'')))"

section \<open>The contract\<close>

fun backend_ok :: "backend \<Rightarrow> bool" where
  "backend_ok (Postgres s) = postgres_ok s"
| "backend_ok (Sqlite s) = sqlite_ok s"
| "backend_ok (Files s) = True"

fun backend_slot :: "(string \<Rightarrow> bytes32) \<Rightarrow> backend \<Rightarrow> string \<Rightarrow> string" where
  "backend_slot sha (Files s) k = filename sha k"
| "backend_slot sha (Postgres s) k = k"
| "backend_slot sha (Sqlite s) k = k"

fun backend_content :: "backend \<Rightarrow> string \<Rightarrow> string option" where
  "backend_content (Postgres s) = postgres_content s"
| "backend_content (Sqlite s) = sqlite_content s"
| "backend_content (Files s) = file_content s"

fun backend_live :: "io_env \<Rightarrow> backend \<Rightarrow> string \<Rightarrow> bool" where
  "backend_live env (Postgres s) = postgres_live env s"
| "backend_live env (Sqlite s) = sqlite_live env s"
| "backend_live env (Files s) = file_live env s"

fun backend_lasts :: "io_env \<Rightarrow> io_env \<Rightarrow> backend \<Rightarrow> bool" where
  "backend_lasts env env' (Postgres s) = postgres_lasts env env' s"
| "backend_lasts env env' (Sqlite s) = sqlite_lasts env env' s"
| "backend_lasts env env' (Files s) = True"

text \<open>Only PostgreSQL is particular about the bytes of a text.\<close>

fun backend_takes :: "backend \<Rightarrow> string \<Rightarrow> bool" where
  "backend_takes (Postgres s) = pg_text s"
| "backend_takes (Sqlite s) = (\<lambda>_. True)"
| "backend_takes (Files s) = (\<lambda>_. True)"

lemma apsnd_eq: "apsnd f x = (a, b) \<longleftrightarrow> (\<exists>c. x = (a, c) \<and> b = f c)"
  by (cases x) auto

lemma backend_slot_ext: "backend_slot sha (Postgres s) = (\<lambda>k. k)" "backend_slot sha (Sqlite u) = (\<lambda>k. k)"
    "backend_slot sha (Files t) = filename sha"
  by (simp_all add: fun_eq_iff)

lemmas file_backend = apsnd_eq backend_slot_ext file_laws file_live_def
lemmas file_dest = file_Set_exists file_Delete_deleted

interpretation store: paste_store "backend_ops sha srt" backend_ok "backend_slot sha" backend_content
  backend_live backend_lasts backend_takes for sha srt
proof (unfold_locales, goal_cases)
  case (1 s env k bump found s')
  show ?case
  proof (cases s)
    case (Postgres t)
    with 1 obtain c where "postgres_Get env k bump t = (Inr found, c)" by (auto simp: apsnd_eq)
    with 1 Postgres show ?thesis using postgres.get_found [of t env k bump found c] by simp
  next
    case (Sqlite t)
    with 1 obtain c where "sqlite_Get env k bump t = (Inr found, c)" by (auto simp: apsnd_eq)
    with 1 Sqlite show ?thesis using sqlite.get_found [of t env k bump found c] by simp
  next
    case (Files t)
    with 1 obtain c where "file_Get sha env k bump t = (Inr found, c)" by (auto simp: apsnd_eq)
    with 1 Files show ?thesis using file_Get_found [of sha env k bump t found c] by (simp add: file_live_def)
  qed
next
  case (2 s env k bump)
  then show ?case
    using file_Get_fails [of env sha k bump]
    by (cases s) (auto dest: postgres.get_succeeds [unfolded postgres_ops_simps]
      sqlite.get_succeeds [unfolded sqlite_ops_simps])
next
  case (3 s env k bump)
  then show ?case
    by (cases s) (auto simp: file_backend dest: file_dest
      postgres.get_content [unfolded postgres_ops_simps] sqlite.get_content [unfolded sqlite_ops_simps])
next
  case (4 env k s)
  then show ?case
    by (cases s) (simp_all add: file_laws postgres.get_probe [unfolded postgres_ops_simps] sqlite.get_probe [unfolded sqlite_ops_simps])
next
  case (5 s env k bump)
  then show ?case
    by (cases s) (auto simp: file_backend dest: file_dest
      postgres.get_invar [unfolded postgres_ops_simps] sqlite.get_invar [unfolded sqlite_ops_simps])
next
  case (6 env k bump s)
  then show ?case
    by (cases s) (simp_all add: backend_slot_ext)
next
  case (7 s env k d s')
  then show ?case
    by (cases s) (auto simp: file_backend dest: file_dest
      postgres.set_stores [unfolded postgres_ops_simps] sqlite.set_stores [unfolded sqlite_ops_simps])
next
  case (8 s k env d)
  then show ?case
    by (cases s) (auto simp: file_backend dest: file_dest
      postgres.set_taken [unfolded postgres_ops_simps] sqlite.set_taken [unfolded sqlite_ops_simps])
next
  case (9 s k env d)
  then have "\<not> io_fail env 0" by (simp add: io_ok_def)
  with 9 show ?case
    by (cases s) (auto simp: apsnd_eq file_Set_taken dest: postgres.set_taken_error [unfolded postgres_ops_simps]
      sqlite.set_taken_error [unfolded sqlite_ops_simps])
next
  case (10 s env k d s')
  then show ?case
    by (cases s) (auto simp: file_backend dest: file_dest
      postgres.set_exists [unfolded postgres_ops_simps] sqlite.set_exists [unfolded sqlite_ops_simps])
next
  case (11 s h k env d)
  then show ?case
    by (cases s) (auto simp: file_backend dest: file_dest
      postgres.set_other [unfolded postgres_ops_simps] sqlite.set_other [unfolded sqlite_ops_simps])
next
  case (12 s env k d s' env')
  then show ?case
    by (cases s) (auto simp: file_backend dest: file_dest
      postgres.set_live [unfolded postgres_ops_simps] sqlite.set_live [unfolded sqlite_ops_simps])
next
  case (13 s env k d)
  then show ?case
    by (cases s) (auto simp: file_backend dest: file_dest
      postgres.set_invar [unfolded postgres_ops_simps] sqlite.set_invar [unfolded sqlite_ops_simps])
next
  case (14 env k d s)
  then show ?case
    by (cases s) (simp_all add: backend_slot_ext)
next
  case (15 env s h)
  then show ?case
    by (cases s) (auto simp: file_backend dest: file_dest
      postgres.live_content [unfolded postgres_ops_simps] sqlite.live_content [unfolded sqlite_ops_simps])
qed

interpretation store: managed_store "backend_ops sha srt" backend_ok "backend_slot sha" backend_content
  backend_live backend_lasts backend_takes for sha srt
proof (unfold_locales, goal_cases)
  case (1 s env h deleted s')
  then show ?case
    by (cases s) (auto simp: file_backend dest: file_dest
      postgres.delete_content [unfolded postgres_ops_simps] sqlite.delete_content [unfolded sqlite_ops_simps])
next
  case (2 env h s err s')
  then show ?case
    by (cases s) (auto simp: file_backend dest: file_dest
      postgres.delete_failed [unfolded postgres_ops_simps] sqlite.delete_failed [unfolded sqlite_ops_simps])
next
  case (3 s env h)
  then show ?case
    by (cases s) (auto simp: file_backend dest: file_dest
      postgres.delete_invar [unfolded postgres_ops_simps] sqlite.delete_invar [unfolded sqlite_ops_simps])
next
  case (4 env h s)
  then show ?case
    by (cases s) (simp_all add: backend_slot_ext)
next
  case (5 s env h)
  then show ?case
    by (cases s) (auto simp: file_backend dest: file_dest
      postgres.purge_live [unfolded postgres_ops_simps] sqlite.purge_live [unfolded sqlite_ops_simps])
next
  case (6 s env h)
  then show ?case
    by (cases s) (auto simp: file_backend dest: file_dest
      postgres.purge_removes [unfolded postgres_ops_simps] sqlite.purge_removes [unfolded sqlite_ops_simps])
next
  case (7 s env)
  then show ?case
    by (cases s) (auto simp: file_backend dest: file_dest
      postgres.purge_invar [unfolded postgres_ops_simps] sqlite.purge_invar [unfolded sqlite_ops_simps])
next
  case (8 env s)
  then show ?case
    by (cases s) (simp_all add: backend_slot_ext)
next
  case (9 env limit s)
  then show ?case
    by (cases s) (simp_all add: file_laws postgres.list_reads [unfolded postgres_ops_simps] sqlite.list_reads [unfolded sqlite_ops_simps])
next
  case (10 env s)
  then show ?case
    by (cases s) (simp_all add: file_laws postgres.stats_reads [unfolded postgres_ops_simps] sqlite.stats_reads [unfolded sqlite_ops_simps])
qed

section \<open>Stores for concrete runs\<close>

definition zero_hash :: "string \<Rightarrow> bytes32" where
  "zero_hash k = Bytes32 (replicate 32 (CHR 0x00))"

definition demo_sqlite :: backend where
  "demo_sqlite = Sqlite \<lparr>sq_db = empty_table, sq_expire = 60\<rparr>"

end
