(* ===== verification/Server.thy ===== *)
theory Server
  imports Admin Backend
begin

text \<open>
  \<open>cmd/gopaste/main.go\<close>: \<open>run\<close> puts the parts together, in the order in which each may fail. What
  follows (the listener, signals, the shutdown) is in \<open>Process\<close>, the entropy warning in \<open>Entropy\<close>.
\<close>

section \<open>Embedded files\<close>

text \<open>
  \<open>web/embed.go\<close>: the three embedded trees and the accessors the server has for them. Paths within
  an embedded file system begin with the directory that was embedded.
\<close>

record web_bundle =
  staticFS :: assets
  aboutMD :: string
  adminFS :: assets

definition AboutMD :: "web_bundle \<Rightarrow> string" where
  "AboutMD wb = aboutMD wb"

definition AdminFile :: "web_bundle \<Rightarrow> string \<Rightarrow> string option" where
  "AdminFile wb name = (case adminFS wb (''admin/'' @ name) of Some (NFile b) \<Rightarrow> Some b | _ \<Rightarrow> None)"

text \<open>\<open>fs.Sub(staticFS, "static")\<close>, whose argument is a valid path\<close>

definition Static :: "web_bundle \<Rightarrow> assets" where
  "Static wb name = staticFS wb (''static/'' @ name)"

section \<open>Logging\<close>

text \<open>
  \<open>stat\<close> is the mode of standard error, \<open>None\<close> when it cannot be read; bit 21 is
  \<open>os.ModeCharDevice\<close>. \<open>parseLevel\<close> is the logging library's, which reads the empty string as a level
  of its own. The logger has a level and is for a console or for machines.
\<close>

definition isatty :: "32 word option \<Rightarrow> bool" where
  "isatty stat = (case stat of None \<Rightarrow> False | Some mode \<Rightarrow> bit mode 21)"

definition initLogger :: "(string \<Rightarrow> 'l option) \<Rightarrow> 'l \<Rightarrow> 32 word option \<Rightarrow> string \<Rightarrow> 'l \<times> bool" where
  "initLogger parseLevel infoLevel stderr level =
     (let lvl = (case parseLevel level of
            None \<Rightarrow> infoLevel
          | Some l \<Rightarrow> if level = [] then infoLevel else l)
      in (lvl, isatty stderr))"

section \<open>Start-up\<close>

definition aboutKey :: string where
  "aboutKey = ''about''"

text \<open>The keys that are static from now on, and the store.\<close>

definition preloadDocuments ::
  "'s store_ops \<Rightarrow> io_env \<Rightarrow> string \<Rightarrow> 's \<Rightarrow> string list \<times> 's" where
  "preloadDocuments ops env about s =
     (case op_Set ops env aboutKey about s of
        (None, s) \<Rightarrow> ([aboutKey], s)
      | (Some ErrKeyExists, s) \<Rightarrow> ([aboutKey], s)
      | (Some (StoreErr _), s) \<Rightarrow> ([], s))"

datatype run_error =
    RunKeygen keygen_error
  | RunStore store_error
  | RunAuth auth_error
  | RunHandler

text \<open>
  The world at start-up: the dictionary files, the backends, the identity provider's discovery,
  the hash of a fresh token, the embedded files and the theme directory.
\<close>

record start_world =
  sw_openFile :: "string \<Rightarrow> (string \<times> bool) option"
  sw_backend :: backend_world
  sw_io :: "nat \<Rightarrow> io_env"
  sw_sha256 :: "string \<Rightarrow> bytes32"
  sw_srt :: "PasteMeta list \<Rightarrow> PasteMeta list"
  sw_web :: web_bundle
  sw_discover :: "string \<Rightarrow> string option"
  sw_dummy :: string
  sw_template :: "string \<Rightarrow> template_data \<Rightarrow> string option"
  sw_embedded_themes :: "(string \<times> bool) list option"
  sw_theme_dir :: "string \<Rightarrow> (string \<times> bool) list option"

definition run :: "start_world \<Rightarrow> Config \<Rightarrow> 'r \<Rightarrow> run_error + backend server \<times> ('r, backend) server_state" where
  "run sw cfg rng =
     (case New (sw_openFile sw) (kg_Type (cfg_KeyGenerator cfg)) (kg_Path (cfg_KeyGenerator cfg)) of
        Inl e \<Rightarrow> Inl (RunKeygen e)
      | Inr gen \<Rightarrow>
     (case store_New (sw_io sw 0) (sw_backend sw) (cfg_Storage cfg) of
        Inl e \<Rightarrow> Inl (RunStore e)
      | Inr s \<Rightarrow>
          let ops = backend_ops (sw_sha256 sw) (sw_srt sw);
              (staticKeys, s) = preloadDocuments ops (sw_io sw 1) (AboutMD (sw_web sw)) s
          in case auth_New (sw_discover sw) (sw_dummy sw) (cfg_Auth cfg) of
        Inl e \<Rightarrow> Inl (RunAuth e)
      | Inr m \<Rightarrow>
     (case handler_New (sw_template sw)
              (case Static (sw_web sw) ''index.html'' of Some (NFile b) \<Rightarrow> Some b | _ \<Rightarrow> None)
              (sw_embedded_themes sw) (sw_theme_dir sw) cfg ops gen m staticKeys (Static (sw_web sw)) s rng of
        None \<Rightarrow> Inl RunHandler
      | Some x \<Rightarrow> Inr x)))"

text \<open>\<open>main\<close>: the configuration, then the run. An error ends the process.\<close>

definition main_start ::
  "(string \<Rightarrow> string option) \<Rightarrow> (string \<Rightarrow> Config \<Rightarrow> Config option) \<Rightarrow> environ \<Rightarrow> start_world \<Rightarrow> string \<Rightarrow> 'r
     \<Rightarrow> (config_error + run_error) + backend server \<times> ('r, backend) server_state" where
  "main_start readFile unmarshal env sw path rng =
     (case Load readFile unmarshal env path of
        Inl e \<Rightarrow> Inl (Inl e)
      | Inr cfg \<Rightarrow> (case run sw cfg rng of Inl e \<Rightarrow> Inl (Inr e) | Inr x \<Rightarrow> Inr x))"

end
