(* ===== verification/Paste_Api.thy ===== *)
theory Paste_Api
  imports Server
begin

text \<open>
  What the paste API makes of a store that keeps its contract: choosing keys, creating pastes and
  reading them back. The lemmas are proved once, in the locales of the store, and reach the
  server through the interpretation on \<open>backend_ops\<close>.
\<close>

section \<open>Draws of the key generator\<close>

text \<open>The random state after \<open>i\<close> keys, and the \<open>i\<close>-th key.\<close>

fun rng_after :: "'r rand_int \<Rightarrow> generator \<Rightarrow> go_int \<Rightarrow> nat \<Rightarrow> 'r \<Rightarrow> 'r" where
  "rng_after ri gen len 0 rng = rng"
| "rng_after ri gen len (Suc i) rng = rng_after ri gen len i (snd (CreateKey ri gen len rng))"

definition nth_key :: "'r rand_int \<Rightarrow> generator \<Rightarrow> go_int \<Rightarrow> nat \<Rightarrow> 'r \<Rightarrow> string or_panic" where
  "nth_key ri gen len i rng = fst (CreateKey ri gen len (rng_after ri gen len i rng))"

definition always_keys :: "'r rand_int \<Rightarrow> 's server \<Rightarrow> bool" where
  "always_keys ri h \<longleftrightarrow> (\<forall>rng. \<not> isl (fst (CreateKey ri (h_keygen h) (cfg_KeyLength (h_cfg h)) rng)))"

lemma nth_key_0: "nth_key ri gen len 0 rng = fst (CreateKey ri gen len rng)"
  by (simp add: nth_key_def)

lemma nth_key_Suc: "nth_key ri gen len (Suc i) rng = nth_key ri gen len i (snd (CreateKey ri gen len rng))"
  by (simp add: nth_key_def)

section \<open>Choosing a key\<close>

context managed_store
begin

definition taken :: "'a server \<Rightarrow> call_env \<Rightarrow> 'a \<Rightarrow> string or_panic \<Rightarrow> bool" where
  "taken h env s x \<longleftrightarrow> (case x of Inl p \<Rightarrow> False | Inr k \<Rightarrow> \<forall>m. live (ce_io env m) s (slot s k))"

lemma chooseKey_result:
  assumes "chooseKey ri h env n rng s = Some (res, n', rng', s')" and "h_store h = ops"
  shows "s' = s \<and> (\<forall>key. res = KeyFree key \<longrightarrow>
     (\<exists>m rng0. fst (op_Get ops (ce_io env m) key False s) = Inr None \<and>
        CreateKey ri (h_keygen h) (cfg_KeyLength (h_cfg h)) rng0 = (Inr key, rng')))"
proof -
  have "h_store h = ops \<longrightarrow> snd (snd (snd x)) = s \<and> (\<forall>key. fst x = KeyFree key \<longrightarrow>
     (\<exists>m rng0. fst (op_Get ops (ce_io env m) key False s) = Inr None \<and>
        CreateKey ri (h_keygen h) (cfg_KeyLength (h_cfg h)) rng0 = (Inr key, fst (snd (snd x)))))"
    if "chooseKey ri h env n rng s = Some x" for x
  proof (rule chooseKey.raw_induct [where P = "\<lambda>ri h env n rng s x. h_store h = ops \<longrightarrow> snd (snd (snd x)) = s \<and>
     (\<forall>key. fst x = KeyFree key \<longrightarrow>
       (\<exists>m rng0. fst (op_Get ops (ce_io env m) key False s) = Inr None \<and>
          CreateKey ri (h_keygen h) (cfg_KeyLength (h_cfg h)) rng0 = (Inr key, fst (snd (snd x)))))", OF _ that], goal_cases)
    case (1 loop ri h env n rng s x)
    obtain c rng1 where ck: "CreateKey ri (h_keygen h) (cfg_KeyLength (h_cfg h)) rng = (c, rng1)"
      by (cases "CreateKey ri (h_keygen h) (cfg_KeyLength (h_cfg h)) rng")
    show ?case
    proof (cases c)
      case (Inl p)
      with 1(2) ck show ?thesis by auto
    next
      case (Inr key)
      obtain g s1 where g: "op_Get (h_store h) (ce_io env n) key False s = (g, s1)"
        by (cases "op_Get (h_store h) (ce_io env n) key False s")
      show ?thesis
      proof
        assume ops: "h_store h = ops"
        then have s1: "s1 = s" using g get_probe [of "ce_io env n" key s] by simp
        show "snd (snd (snd x)) = s \<and> (\<forall>key. fst x = KeyFree key \<longrightarrow>
           (\<exists>m rng0. fst (op_Get ops (ce_io env m) key False s) = Inr None \<and>
              CreateKey ri (h_keygen h) (cfg_KeyLength (h_cfg h)) rng0 = (Inr key, fst (snd (snd x)))))"
        proof (cases g)
          case (Inl e)
          with 1(2) ck \<open>c = Inr key\<close> g s1 show ?thesis by auto
        next
          case g': (Inr found)
          show ?thesis
          proof (cases found)
            case None
            with 1(2) ck \<open>c = Inr key\<close> g s1 g' ops show ?thesis
              by (auto intro!: exI [of _ n] exI [of _ rng])
          next
            case (Some d)
            with 1(2) ck \<open>c = Inr key\<close> g s1 g' have "loop ri h env (Suc n) rng1 s = Some x" by simp
            from 1(1) [OF this] ops show ?thesis by simp
          qed
        qed
      qed
    qed
  qed
  from this [OF assms(1)] assms(2) show ?thesis by simp
qed

lemma chooseKey_error:
  assumes "chooseKey ri h env n rng s = Some (KeyErr e, n', rng', s')" and "h_store h = ops"
  shows "\<exists>m key. op_Get ops (ce_io env m) key False s = (Inl e, s)"
proof -
  have "h_store h = ops \<longrightarrow> (\<forall>e. fst x = KeyErr e \<longrightarrow> (\<exists>m key. op_Get ops (ce_io env m) key False s = (Inl e, s)))"
    if "chooseKey ri h env n rng s = Some x" for x
  proof (rule chooseKey.raw_induct [where P = "\<lambda>ri h env n rng s x. h_store h = ops \<longrightarrow>
     (\<forall>e. fst x = KeyErr e \<longrightarrow> (\<exists>m key. op_Get ops (ce_io env m) key False s = (Inl e, s)))", OF _ that], goal_cases)
    case (1 loop ri h env n rng s x)
    obtain c rng1 where ck: "CreateKey ri (h_keygen h) (cfg_KeyLength (h_cfg h)) rng = (c, rng1)" by fastforce
    show ?case
    proof (cases c)
      case (Inr key)
      obtain g s1 where g: "op_Get (h_store h) (ce_io env n) key False s = (g, s1)" by fastforce
      show ?thesis
      proof (intro impI)
        assume ops: "h_store h = ops"
        then have s1: "s1 = s" using g get_probe [of "ce_io env n" key s] by simp
        show "\<forall>e. fst x = KeyErr e \<longrightarrow> (\<exists>m key. op_Get ops (ce_io env m) key False s = (Inl e, s))"
        proof (cases g)
          case (Inl e)
          with g s1 ops have "op_Get ops (ce_io env n) key False s = (Inl e, s)" by simp
          moreover from 1(2) ck \<open>c = Inr key\<close> g s1 Inl have "x = (KeyErr e, Suc n, rng1, s)" by simp
          ultimately show ?thesis by (intro allI impI exI [of _ n] exI [of _ key]) simp
        next
          case found: (Inr found)
          with 1(2) ck \<open>c = Inr key\<close> g s1 1(1) ops show ?thesis by (cases found) auto
        qed
      qed
    qed (use 1(2) ck in auto)
  qed
  from this [OF assms(1)] assms(2) show ?thesis by simp
qed

text \<open>If all the keys the generator will ever make are taken, the loop never ends.\<close>

lemma chooseKey_hangs:
  assumes ops: "h_store h = ops" and inv: "invar s" and io: "\<And>m. io_ok (ce_io env m)"
    and all: "\<And>i. taken h env s (nth_key ri (h_keygen h) (cfg_KeyLength (h_cfg h)) i rng)"
  shows "chooseKey ri h env n rng s = None"
proof (rule ccontr)
  assume "chooseKey ri h env n rng s \<noteq> None"
  then obtain x where "chooseKey ri h env n rng s = Some x" by blast
  then have "h_store h = ops \<and> invar s \<and> (\<forall>m. io_ok (ce_io env m)) \<and>
      (\<forall>i. taken h env s (nth_key ri (h_keygen h) (cfg_KeyLength (h_cfg h)) i rng)) \<longrightarrow> False"
  proof (rule chooseKey.raw_induct [where P = "\<lambda>ri h env n rng s x. h_store h = ops \<and> invar s \<and>
      (\<forall>m. io_ok (ce_io env m)) \<and>
      (\<forall>i. taken h env s (nth_key ri (h_keygen h) (cfg_KeyLength (h_cfg h)) i rng)) \<longrightarrow> False", rotated], goal_cases)
    case (1 loop ri h env n rng s x)
    show ?case
    proof
      assume H: "h_store h = ops \<and> invar s \<and> (\<forall>m. io_ok (ce_io env m)) \<and>
        (\<forall>i. taken h env s (nth_key ri (h_keygen h) (cfg_KeyLength (h_cfg h)) i rng))"
      then have "taken h env s (nth_key ri (h_keygen h) (cfg_KeyLength (h_cfg h)) 0 rng)" by blast
      then obtain key rng1 where ck: "CreateKey ri (h_keygen h) (cfg_KeyLength (h_cfg h)) rng = (Inr key, rng1)"
        and live: "live (ce_io env n) s (slot s key)"
        by (cases "CreateKey ri (h_keygen h) (cfg_KeyLength (h_cfg h)) rng",
            cases "fst (CreateKey ri (h_keygen h) (cfg_KeyLength (h_cfg h)) rng)")
          (simp_all add: taken_def nth_key_0)
      from H have "invar s" and "io_ok (ce_io env n)" by simp_all
      from get_live [OF this live, of False] obtain d s1
        where g: "op_Get ops (ce_io env n) key False s = (Inr (Some d), s1)" .
      then have "s1 = s" using get_probe [of "ce_io env n" key s] by simp
      with 1(2) ck g H have "loop ri h env (Suc n) rng1 s = Some x" by simp
      moreover have "taken h env s (nth_key ri (h_keygen h) (cfg_KeyLength (h_cfg h)) i rng1)" for i
      proof -
        from H have "taken h env s (nth_key ri (h_keygen h) (cfg_KeyLength (h_cfg h)) (Suc i) rng)" by blast
        then show ?thesis by (simp add: nth_key_Suc ck)
      qed
      ultimately show False using 1(1) H by blast
    qed
  qed
  with ops inv io all show False by blast
qed

text \<open>As soon as one of them is free, it does.\<close>

lemma chooseKey_ends:
  assumes ops: "h_store h = ops" and inv: "invar s" and keys: "always_keys ri h"
    and free: "nth_key ri (h_keygen h) (cfg_KeyLength (h_cfg h)) i rng = Inr k"
      "\<And>m. \<not> live (ce_io env m) s (slot s k)"
  shows "chooseKey ri h env n rng s \<noteq> None"
  using free
proof (induction i arbitrary: n rng)
  case (Suc i)
  from keys obtain key rng1 where ck: "CreateKey ri (h_keygen h) (cfg_KeyLength (h_cfg h)) rng = (Inr key, rng1)"
    by (cases "CreateKey ri (h_keygen h) (cfg_KeyLength (h_cfg h)) rng") (metis always_keys_def fst_conv isl_def sum.exhaust)
  with Suc.prems have "nth_key ri (h_keygen h) (cfg_KeyLength (h_cfg h)) i rng1 = Inr k"
    by (simp add: nth_key_Suc)
  from Suc.IH [OF this Suc.prems(2)] ck ops get_probe [of "ce_io env n" key s] show ?case
    by (auto simp: chooseKey.simps [of ri h env n rng s] split: prod.splits sum.splits option.splits)
next
  case 0
  then obtain rng1 where ck: "CreateKey ri (h_keygen h) (cfg_KeyLength (h_cfg h)) rng = (Inr k, rng1)"
    by (cases "CreateKey ri (h_keygen h) (cfg_KeyLength (h_cfg h)) rng") (simp add: nth_key_0)
  obtain g s1 where g: "op_Get ops (ce_io env n) k False s = (g, s1)"
    by (cases "op_Get ops (ce_io env n) k False s")
  with 0(2) [of n] get_found [OF inv, of "ce_io env n" k False _ s1]
  have "\<not> isl g \<longrightarrow> g = Inr None" by (cases g) auto
  with ck g ops show ?case
    by (cases g) (auto simp: chooseKey.simps [of ri h env n rng s])
qed

end

section \<open>What a POST stores\<close>

text \<open>The data of a request that passes all the checks before the budget.\<close>

definition post_data :: "('r, 'z) web_lib_scheme \<Rightarrow> 's server \<Rightarrow> http_request \<Rightarrow> string option" where
  "post_data lib h r =
     (if \<not> writeOriginAllowed lib h r then None
      else case readBody h r new_response of
        Inl _ \<Rightarrow> None
      | Inr data \<Rightarrow>
          if 0 < cfg_MaxLength (h_cfg h) \<and> cfg_MaxLength (h_cfg h) < int (length data) \<or> trim_space data = []
          then None else Some data)"

definition created :: "string \<Rightarrow> string" where
  "created key = json_encode (JObj [(''id'', JStr key)]) @ [CHR 0x0A]"

lemma writeJSON_sent: "rs_sent w = None \<Longrightarrow> \<exists>hd. rs_sent (writeJSON r code j w) = Some (code, hd) \<and>
    hd_cookies hd = hd_cookies (rs_header w) \<and> header_values hd ''Content-Type'' = [''application/json'']"
  by (simp add: writeJSON_def Let_def)

lemma writeJSON_status: "rs_sent w = None \<Longrightarrow> rp_status (finish r' (writeJSON r code j w)) = code"
  using writeJSON_sent [of w r code j] by (auto simp: finish_sent)

lemma writeError_status: "rs_sent w = None \<Longrightarrow> rp_status (finish r' (writeError r code msg w)) = code"
  by (simp add: writeError_def writeJSON_status)

lemma writeJSON_body:
  "rs_sent w = None \<Longrightarrow> rp_body (finish r (writeJSON r code j w)) =
     (if is_head r then [] else rs_body w @ json_encode j @ [CHR 0x0A])"
  using writeJSON_sent [of w r code j] by (auto simp: finish_sent writeJSON_def Let_def)

lemma readBody_response: "readBody h r w = Inr data \<longleftrightarrow> readBody h r w' = Inr data"
  by (simp add: readBody_def Let_def split: option.split)

lemma readBody_error: "readBody h r w = Inl w' \<Longrightarrow> rs_sent w = None \<Longrightarrow> rp_status (finish r' w') \<in> {400, 500}"
  by (auto simp: readBody_def Let_def writeError_status split: if_splits option.splits)

text \<open>Either a check answers with an error and only the limiter changes, or the data is stored.\<close>

lemma handlePost_cases:
  assumes "rs_sent w = None"
  obtains (refused) code w' l where "code \<in> {400, 403, 429, 500}"
      "handlePost lib h env r w st = (Returns, w', st\<lparr>sv_limiter := l\<rparr>)" "rp_status (finish r w') = code"
      "\<And>data. post_data lib h r = Some data \<Longrightarrow> \<not> fst (chargeBytes (sv_limiter st)
         (clientIP r (cfg_TrustedProxyCount (h_cfg h))) (int (length data)) (ce_now env))"
  | (stored) data l where "post_data lib h r = Some data"
      "chargeBytes (sv_limiter st) (clientIP r (cfg_TrustedProxyCount (h_cfg h))) (int (length data)) (ce_now env) = (True, l)"
      "handlePost lib h env r w st = storePaste lib h env data r w (st\<lparr>sv_limiter := l\<rparr>)"
proof (cases "writeOriginAllowed lib h r")
  case False
  then show thesis using assms
    by (intro refused [of 403 "writeError r 403 ''Cross-origin writes are not permitted.'' w" "sv_limiter st"])
      (simp_all add: handlePost_def writeError_status post_data_def)
next
  case o: True
  show thesis
  proof (cases "readBody h r w")
    case (Inl w1)
    then have "post_data lib h r = None"
      using readBody_response [of h r new_response _ w] by (auto simp: post_data_def split: sum.split)
    with o Inl readBody_error [OF Inl assms, of r] show thesis
      by (intro refused [of "rp_status (finish r w1)" w1 "sv_limiter st"]) (auto simp: handlePost_def)
  next
    case (Inr data)
    obtain b l where c: "chargeBytes (sv_limiter st) (clientIP r (cfg_TrustedProxyCount (h_cfg h)))
        (int (length data)) (ce_now env) = (b, l)" by fastforce
    show thesis
    proof (cases "0 < cfg_MaxLength (h_cfg h) \<and> cfg_MaxLength (h_cfg h) < int (length data) \<or> trim_space data = []")
      case True
      then have "post_data lib h r = None"
        using Inr readBody_response [of h r w data new_response] by (simp add: post_data_def)
      with True o Inr assms show thesis
        by (intro refused [of 400 "snd (snd ((), (), fst (snd (handlePost lib h env r w st))))" "sv_limiter st"])
          (auto simp: handlePost_def writeError_status)
    next
      case False
      have pd: "post_data lib h r = Some data"
        using o False Inr readBody_response [of h r w data new_response] by (simp add: post_data_def)
      show thesis
      proof (cases b)
        case True
        with o Inr False c have "handlePost lib h env r w st = storePaste lib h env data r w (st\<lparr>sv_limiter := l\<rparr>)"
          by (auto simp: handlePost_def)
        then show thesis using c True pd by (intro stored [of data l]) simp_all
      next
        case b: False
        with o Inr False c assms pd show thesis
          by (intro refused [of 429 _ l]) (auto simp: handlePost_def writeError_status)
      qed
    qed
  qed
qed

lemma handlePost_created:
  assumes "handlePost lib h env r w st = (Returns, w', st')" and "rs_sent w = None"
    and "rp_status (finish r w') = 201"
  obtains data key n rng s where "post_data lib h r = Some data"
    and "chooseKey (wl_randint lib) h env 0 (at_rng st) (sv_store st) = Some (KeyFree key, n, rng, s)"
    and "op_Set (h_store h) (ce_io env n) key data s = (None, sv_store st')"
    and "w' = writeJSON r 201 (JObj [(''id'', JStr key)]) w"
  using assms(2)
proof (rule handlePost_cases [of w lib h env r st], goal_cases)
  case (1 code w1 l)
  with assms(1,3) show thesis by auto
next
  case (2 data l)
  note stored = 2
  with assms(1) have s: "storePaste lib h env data r w (st\<lparr>sv_limiter := l\<rparr>) = (Returns, w', st')" by simp
  obtain res n rng s where x: "chooseKey (wl_randint lib) h env 0 (at_rng st) (sv_store st) = Some (res, n, rng, s)"
    using s by (auto simp: storePaste_def split: option.splits)
  obtain key where res: "res = KeyFree key"
    using s x assms(2,3) by (cases res) (auto simp: storePaste_def writeError_status)
  obtain e s' where set: "op_Set (h_store h) (ce_io env n) key data s = (e, s')" by fastforce
  have "e = None" using s x res set assms(2,3) by (cases e) (auto simp: storePaste_def writeError_status)
  with s x res set stored show thesis
    by (intro that [of data key n rng s]) (auto simp: storePaste_def)
qed

section \<open>Reading back\<close>

context paste_store
begin

lemma handleGet_found:
  assumes "h_store h = ops" and "op_Get ops (ce_io env 0) (keyParam ident) (bump h (keyParam ident)) (sv_store st)
      = (Inr (Some d), s')"
  shows "handleGet h env ident r w st = (Returns, writeJSON r 200
      (JObj [(''content'', JStr d), (''id'', JStr (keyParam ident))]) w, st\<lparr>sv_store := s'\<rparr>)"
  using assms by (simp add: handleGet_def)

end

lemma keyParam_ext: "CHR ''.'' \<notin> set key \<Longrightarrow> ext = [] \<or> hd ext = CHR ''.'' \<Longrightarrow> keyParam (key @ ext) = key"
  using index_byte_None [of key "CHR ''.''"]
  by (cases ext) (simp_all add: keyParam_def index_byte_app del: index_byte_None)

end
