(* ===== verification/Serve_Facts.thy ===== *)
theory Serve_Facts
  imports Paste_Api
begin

text \<open>
  A request on its way through the server: the middleware chain as one equation, what every
  handler leaves alone (headers that are set, the log, the parts of the state it does not own),
  and what follows for whole requests.
\<close>

section \<open>The chain as one equation\<close>

definition allowed_origin :: "'s server \<Rightarrow> http_request \<Rightarrow> string" where
  "allowed_origin h r = (if header_get r ''Origin'' \<noteq> []
     then corsOrigin (sec_CORSOrigins (cfg_Security (h_cfg h))) (header_get r ''Origin'') else [])"

definition preflight :: "'s server \<Rightarrow> http_request \<Rightarrow> bool" where
  "preflight h r \<longleftrightarrow> allowed_origin h r \<noteq> [] \<and> rq_Method r = ''OPTIONS''"

text \<open>The response a handler starts from: nothing sent, the security headers set.\<close>

definition entry :: "'s server \<Rightarrow> http_request \<Rightarrow> response" where
  "entry h r =
     (let w = security_fields (cfg_Security (h_cfg h)) new_response
      in if allowed_origin h r \<noteq> [] then cors_fields (allowed_origin h r) w else w)"

definition too_many :: "response \<Rightarrow> response" where
  "too_many w = write_body (json_encode (JObj [(''message'', JStr ''Rate limit exceeded.'')]))
     (WriteHeader 429 (set_header ''Content-Type'' ''application/json'' w))"

definition panicked :: "response \<Rightarrow> response" where
  "panicked w = write_body (json_encode (JObj [(''error'', JStr ''Internal server error.'')]))
     (send_header 500 (set_header ''Content-Type'' ''application/json'' w))"

text \<open>The log as the handler finds it, with an access line, and with the line of a panic.\<close>

definition forwarding :: "('r, 'z) web_lib_scheme \<Rightarrow> http_request \<Rightarrow> log_line list" where
  "forwarding lib r = log_at lib LDebug
     (Forwarding (header_get r ''X-Forwarded-For'') (header_get r ''X-Real-Ip'') (rq_RemoteAddr r))"

definition begun :: "('r, 'z) web_lib_scheme \<Rightarrow> http_request \<Rightarrow> ('r, 's) server_state \<Rightarrow> ('r, 's) server_state" where
  "begun lib r st = st\<lparr>sv_log := sv_log st @ forwarding lib r\<rparr>"

definition log_entry ::
  "('r, 'z) web_lib_scheme \<Rightarrow> 's server \<Rightarrow> http_request \<Rightarrow> response \<Rightarrow> string \<Rightarrow> log_line list" where
  "log_entry lib h r w pattern =
     log_at lib LInfo (Access (if pattern = [] then rq_Method r @ '' (unmatched)'' else pattern) (rs_recorded w)
       (clientIP r (cfg_TrustedProxyCount (h_cfg h))))"

definition answered ::
  "('r, 'z) web_lib_scheme \<Rightarrow> 's server \<Rightarrow> http_request \<Rightarrow> response \<Rightarrow> ('r, 's) server_state \<Rightarrow>
   reply option \<times> ('r, 's) server_state" where
  "answered lib h r w st = (Some (finish r w), st\<lparr>sv_log := sv_log st @ log_entry lib h r w (sv_pattern st)\<rparr>)"

definition recovered ::
  "('r, 'z) web_lib_scheme \<Rightarrow> http_request \<Rightarrow> string \<Rightarrow> ('r, 's) server_state \<Rightarrow> ('r, 's) server_state" where
  "recovered lib r p st = st\<lparr>sv_log := sv_log st @ log_at lib LError (Recovered p (url_path r))\<rparr>"

lemma log_steps [simp]:
  "sv_store (begun lib r st) = sv_store st" "sv_limiter (begun lib r st) = sv_limiter st"
  "sv_loginLimiter (begun lib r st) = sv_loginLimiter st" "at_rng (begun lib r st) = at_rng st"
  "at_sessions (begun lib r st) = at_sessions st" "sv_pattern (begun lib r st) = sv_pattern st"
  "sv_log (begun lib r st) = sv_log st @ forwarding lib r"
  "sv_store (recovered lib r p st) = sv_store st" "sv_limiter (recovered lib r p st) = sv_limiter st"
  "sv_loginLimiter (recovered lib r p st) = sv_loginLimiter st" "at_rng (recovered lib r p st) = at_rng st"
  "at_sessions (recovered lib r p st) = at_sessions st"
  "sv_log (recovered lib r p st) = sv_log st @ log_at lib LError (Recovered p (url_path r))"
  by (simp_all add: begun_def recovered_def)

text \<open>The limiter lets the request pass; the limiter as it is then.\<close>

definition lets_pass :: "call_env \<Rightarrow> http_request \<Rightarrow> ('r, 's) server_state \<Rightarrow> bool \<times> rateLimiter" where
  "lets_pass env r st =
     limiter_passes (sv_limiter st) (clientIP r (lim_trustedProxies (sv_limiter st))) (ce_now env)"

definition reach ::
  "('r, 'z) web_lib_scheme \<Rightarrow> 's server \<Rightarrow> call_env \<Rightarrow> http_request \<Rightarrow> ('r, 's) server_state
     \<Rightarrow> outcome \<times> response \<times> ('r, 's) server_state" where
  "reach lib h env r st =
     mux lib h env r (entry h r) ((begun lib r st)\<lparr>sv_pattern := [], sv_limiter := snd (lets_pass env r st)\<rparr>)"

lemma lets_pass_begun [simp]: "lets_pass env r (begun lib r' st) = lets_pass env r st"
  by (simp add: lets_pass_def)

lemma securityHeaders_eq:
  "securityHeaders h next_h r new_response st =
     (if preflight h r then (Returns, WriteHeader 204 (entry h r), st) else next_h r (entry h r) st)"
  by (simp add: securityHeaders_def entry_def preflight_def allowed_origin_def Let_def)

theorem serve_eq:
  "serve lib h env r st =
     (if preflight h r then answered lib h r (WriteHeader 204 (entry h r)) ((begun lib r st)\<lparr>sv_pattern := []\<rparr>)
      else if \<not> fst (lets_pass env r st)
      then answered lib h r (too_many (entry h r)) ((begun lib r st)\<lparr>sv_pattern := [], sv_limiter := snd (lets_pass env r st)\<rparr>)
      else (case reach lib h env r st of
          (Returns, w, st) \<Rightarrow> answered lib h r w st
        | (Panics p, w, st) \<Rightarrow> (Some (finish r (panicked w)), recovered lib r p st)
        | (Hangs, w, st) \<Rightarrow> (None, st)))"
proof -
  have fresh: "new_response\<lparr>rs_recorded := 200\<rparr> = new_response" by (simp add: new_response_def)
  obtain b l where l: "lets_pass env r st = (b, l)" by fastforce
  then have "limiter_passes (sv_limiter (st\<lparr>sv_pattern := []\<rparr>))
      (clientIP r (lim_trustedProxies (sv_limiter (st\<lparr>sv_pattern := []\<rparr>)))) (ce_now env) = (b, l)"
    by (simp add: lets_pass_def)
  then show ?thesis
    by (cases b) (simp_all add: serve_def root_handler_def requestLogger_def recoverPanic_def fresh securityHeaders_eq
      limiter_middleware_def l reach_def answered_def log_entry_def too_many_def panicked_def Let_def
      begun_def recovered_def forwarding_def
      split: prod.split outcome.split)
qed

text \<open>A request is answered before it reaches a handler, or with what the handler makes of it.\<close>

lemma serve_cases:
  obtains (early) w l where
      "serve lib h env r st = answered lib h r w ((begun lib r st)\<lparr>sv_pattern := [], sv_limiter := l\<rparr>)"
      "w = WriteHeader 204 (entry h r) \<and> l = sv_limiter st \<or> w = too_many (entry h r) \<and> (False, l) = lets_pass env r st"
  | (handled) w st' where "fst (lets_pass env r st)" "reach lib h env r st = (Returns, w, st')"
      "serve lib h env r st = answered lib h r w st'"
  | (panic) p w st' where "reach lib h env r st = (Panics p, w, st')"
      "serve lib h env r st = (Some (finish r (panicked w)), recovered lib r p st')"
  | (hang) w st' where "fst (lets_pass env r st)" "reach lib h env r st = (Hangs, w, st')"
      "serve lib h env r st = (None, st')"
proof (cases "preflight h r")
  case True
  then show thesis
    by (intro early [of "WriteHeader 204 (entry h r)" "sv_limiter st"]) (simp_all add: serve_eq begun_def)
next
  case False
  note reached = this
  show thesis
  proof (cases "fst (lets_pass env r st)")
    case False
    with reached show thesis
      by (intro early [of "too_many (entry h r)" "snd (lets_pass env r st)"]) (simp_all add: serve_eq prod_eq_iff)
  next
    case True
    obtain res w st' where x: "reach lib h env r st = (res, w, st')" by (cases "reach lib h env r st") auto
    with True reached show thesis
      by (cases res) (auto simp: serve_eq intro: handled panic hang)
  qed
qed


section \<open>What a handler leaves alone\<close>

text \<open>The handlers of \<open>auth\<close> own the sessions and the random source, and nothing else.\<close>

lemma more_parts:
  assumes "auth_state.more st' = auth_state.more st"
  shows "sv_store st' = sv_store st" "sv_limiter st' = sv_limiter st" "sv_loginLimiter st' = sv_loginLimiter st"
    "sv_pattern st' = sv_pattern st" "sv_log st' = sv_log st"
  using assms by (cases st; cases st'; simp)+

lemma startSession_more: "auth_state.more (snd (snd (startSession lib m now ident w st))) = auth_state.more st"
  by (simp add: startSession_def split: prod.split sum.split)

lemma and_then_more:
  "auth_state.more (snd (snd x)) = mo \<Longrightarrow> (\<And>w st. auth_state.more (snd (snd (k w st))) = auth_state.more st) \<Longrightarrow>
   auth_state.more (snd (snd (and_then x k))) = mo"
  by (cases x) (simp add: and_then_def)

lemma submit_more: "auth_state.more (snd (snd (submit lib p m now r w st))) = auth_state.more st"
  by (auto simp: submit_eq startSession_more intro: and_then_more split: option.split)

lemma callback_more: "auth_state.more (snd (snd (callback lib p m now r w st))) = auth_state.more st"
proof -
  have "auth_state.more (snd (snd (callback_body lib p m now r w st))) = auth_state.more st"
  proof (cases "oidc_admitted lib p r")
    case None
    with callback_body_rejected [of lib p r w st m now] show ?thesis by (auto simp: rejected_with_def)
  next
    case (Some claims)
    then show ?thesis by (auto simp: callback_body_admitted startSession_more intro: and_then_more)
  qed
  then show ?thesis by (cases "callback_body lib p m now r w st") (simp add: callback_def)
qed

lemma auth_more:
  "auth_state.more (snd (snd (auth_Login lib m r w st))) = auth_state.more st"
  "auth_state.more (snd (snd (LoginSubmit lib m now r w st))) = auth_state.more st"
  "auth_state.more (snd (snd (auth_Callback lib m now r w st))) = auth_state.more st"
  "auth_state.more (snd (snd (auth_Logout lib m now r w st))) = auth_state.more st"
     apply (auto simp: auth_Login_def oidc_login_def Let_def split: option.split prod.split sum.split)[]
    apply (simp add: LoginSubmit_def submit_more split: option.split)
   apply (simp add: auth_Callback_def callback_more split: option.split)
  apply (auto simp: auth_Logout_def Let_def split: option.split prod.split)
  done


text \<open>
  \<open>route_keeps P\<close>: a property of the state that an operation of the store, a move of a limiter
  and anything \<open>auth\<close> does to its own part preserve is preserved by every handler. The store
  operations a route may use are spelled out, with the session the gates ask for.
\<close>

definition admin_call :: "('r, 'z) web_lib_scheme \<Rightarrow> manager \<Rightarrow> call_env \<Rightarrow> http_request \<Rightarrow> ('r, 's) server_state \<Rightarrow> bool" where
  "admin_call lib m env r st \<longleftrightarrow>
     admin_session (auth_lib.truncate lib) m (ce_now env) r (at_sessions st) \<noteq> None"

lemma admin_call_frame [simp]: "admin_call lib m env r (st\<lparr>sv_limiter := l, sv_pattern := p\<rparr>) = admin_call lib m env r st"
    "admin_call lib m env r (st\<lparr>sv_pattern := q, sv_limiter := l, sv_pattern := p\<rparr>) = admin_call lib m env r st"
    "admin_call lib m env r (begun lib' r' st) = admin_call lib m env r st"
  by (simp_all add: admin_call_def)

lemma gate_store:
  assumes "admin_call lib m env r st \<Longrightarrow> Q (sv_store (snd (snd (next_h r w st))))"
    and "Q (sv_store st)"
  shows "Q (sv_store (snd (snd (GateUI (auth_lib.truncate lib) m (ce_now env) next_h r w st))))"
    and "Q (sv_store (snd (snd (GateAPI (auth_lib.truncate lib) m (ce_now env) next_h r w st))))"
proof -
  have *: "Q (sv_store (snd (snd (GateUI (auth_lib.truncate lib) m (ce_now env) next_h r w st)))) \<and>
      Q (sv_store (snd (snd (GateAPI (auth_lib.truncate lib) m (ce_now env) next_h r w st))))"
  proof (cases "admin_call lib m env r st")
    case True
    then obtain ss where ss: "admin_session (auth_lib.truncate lib) m (ce_now env) r (at_sessions st) = Some ss"
      by (auto simp: admin_call_def)
    from authed_admin [OF ss] assms(1) [OF True] show ?thesis by (simp add: GateUI_def GateAPI_def)
  next
    case False
    then have "fst (authed (auth_lib.truncate lib) m (ce_now env) r st) = None"
      by (simp add: admin_call_def authed_none)
    moreover have "sv_store (snd (authed (auth_lib.truncate lib) m (ce_now env) r st)) = sv_store st"
      by (intro more_parts) simp
    ultimately show ?thesis using assms(2)
      by (cases "authed (auth_lib.truncate lib) m (ce_now env) r st") (simp add: GateUI_def GateAPI_def)
  qed
  show "Q (sv_store (snd (snd (GateUI (auth_lib.truncate lib) m (ce_now env) next_h r w st))))" using * ..
  show "Q (sv_store (snd (snd (GateAPI (auth_lib.truncate lib) m (ce_now env) next_h r w st))))" using * ..
qed

lemma handlePost_store:
  "sv_store (snd (snd (handlePost lib h env r w st))) = sv_store st \<or>
   (\<exists>data l. sv_store (snd (snd (handlePost lib h env r w st))) =
      sv_store (snd (snd (storePaste lib h env data r w (st\<lparr>sv_limiter := l\<rparr>)))))"
  by (auto simp: handlePost_def split: sum.split prod.split bool.split)

lemma handleFrontend_state: "snd (snd (handleFrontend lib h r w st)) = st"
  by (simp add: handleFrontend_def Let_def split: option.split node.split)

lemma loginRateLimit_more_store:
  "sv_store (snd (snd (loginRateLimit h env (LoginSubmit alib m now) r w st))) = sv_store st"
  by (auto simp: loginRateLimit_def more_parts [OF auth_more(2)] split: prod.split bool.split)

lemma manager_Identity_more:
  "auth_state.more (snd (manager_Identity lib m now r st)) = auth_state.more st"
  using authed_state(2) [of lib m now r st] by (cases "authed lib m now r st") (simp add: manager_Identity_def)

lemma adminListPastes_store:
  assumes "\<And>e n. snd (op_List (h_store h) e n (sv_store st)) = sv_store st"
    and "\<And>e. snd (op_Stats (h_store h) e (sv_store st)) = sv_store st"
  shows "sv_store (snd (snd (adminListPastes lib h m env r w st))) = sv_store st"
proof -
  obtain x where x: "op_List (h_store h) (ce_io env 0) 0 (sv_store st) = (x, sv_store st)"
    using assms(1) [of "ce_io env 0" 0] by (cases "op_List (h_store h) (ce_io env 0) 0 (sv_store st)") simp
  obtain y where y: "op_Stats (h_store h) (ce_io env 1) (sv_store st) = (y, sv_store st)"
    using assms(2) [of "ce_io env 1"] by (cases "op_Stats (h_store h) (ce_io env 1) (sv_store st)") simp
  obtain i st' where i: "manager_Identity (auth_lib.truncate lib) m (ce_now env) r (st\<lparr>sv_store := sv_store st\<rparr>) = (i, st')"
    by fastforce
  then have "sv_store st' = sv_store st"
    using more_parts(1) [OF manager_Identity_more, of "auth_lib.truncate lib" m "ce_now env" r "st\<lparr>sv_store := sv_store st\<rparr>"]
    by simp
  with x y i show ?thesis by (simp add: adminListPastes_def Let_def split: sum.split)
qed

lemma public_route_admin: "public_route meth segs \<noteq> Some RAdminPurge \<and> public_route meth segs \<noteq> Some (RAdminDelete k)"
  by (auto simp: public_route_def split: list.split)

context managed_store
begin

lemma storePaste_store:
  assumes "h_store h = ops" and "Q (sv_store st)"
    and "\<And>env k d. Q (snd (op_Set ops env k d (sv_store st)))"
  shows "Q (sv_store (snd (snd (storePaste lib h env data r w st))))"
proof (cases "chooseKey (wl_randint lib) h env 0 (at_rng st) (sv_store st)")
  case None
  with assms show ?thesis by (simp add: storePaste_def)
next
  case (Some x)
  obtain res n rng s where x: "x = (res, n, rng, s)" by (cases x) auto
  with Some chooseKey_result [OF _ assms(1), of "wl_randint lib" env 0 "at_rng st" "sv_store st" res n rng s]
  have "s = sv_store st" by simp
  moreover have "Q s'" if "op_Set ops (ce_io env n) k data (sv_store st) = (e, s')" for k e s'
    using assms(3) [of "ce_io env n" k data] that by simp
  ultimately show ?thesis
    using Some x assms(1,2) by (cases res) (auto simp: storePaste_def split: prod.split option.split)
qed

text \<open>What a handler may do to the store: first the paste API, then the console, then all routes.\<close>

lemma paste_handlers_store:
  assumes ops: "h_store h = ops" and Q: "Q (sv_store st)"
    and get: "\<And>e k b. Q (snd (op_Get ops e k b (sv_store st)))"
    and set: "\<And>e k d. Q (snd (op_Set ops e k d (sv_store st)))"
  shows "Q (sv_store (snd (snd (handlePost lib h env r w st))))" (is ?post)
    and "Q (sv_store (snd (snd (handleGet h env k r w st))))" (is ?get)
    and "Q (sv_store (snd (snd (handleRawGet h env k r w st))))" (is ?raw)
proof -
  have "Q (sv_store (snd (snd (storePaste lib h env data r w (st\<lparr>sv_limiter := l\<rparr>)))))" for data l
    by (rule storePaste_store [OF ops]) (simp_all add: Q set)
  with handlePost_store [of lib h env r w st] Q show ?post by auto
  obtain x s where "op_Get ops (ce_io env 0) (keyParam k) (bump h (keyParam k)) (sv_store st) = (x, s)" by fastforce
  with ops get [of "ce_io env 0" "keyParam k" "bump h (keyParam k)"] show ?get and ?raw
    by (auto simp: handleGet_def handleRawGet_def Let_def split: sum.split option.split)
qed

lemma console_handlers_store:
  assumes ops: "h_store h = ops" and Q: "Q (sv_store st)"
  shows "(\<And>e. k \<notin> set (h_staticKeys h) \<Longrightarrow> Q (snd (op_Delete ops e k (sv_store st)))) \<Longrightarrow>
      Q (sv_store (snd (snd (adminDeletePaste h env k r w st))))"
    and "(\<And>e. Q (snd (op_PurgeExpired ops e (sv_store st)))) \<Longrightarrow> Q (sv_store (snd (snd (adminPurge h env r w st))))"
    and "sv_store (snd (snd (adminListPastes lib h m env r w st))) = sv_store st"
proof -
  assume "\<And>e. k \<notin> set (h_staticKeys h) \<Longrightarrow> Q (snd (op_Delete ops e k (sv_store st)))"
  from this [of "ce_io env 0"] Q ops show "Q (sv_store (snd (snd (adminDeletePaste h env k r w st))))"
    by (cases "op_Delete ops (ce_io env 0) k (sv_store st)")
      (auto simp: adminDeletePaste_def split: sum.split bool.split)
next
  assume "\<And>e. Q (snd (op_PurgeExpired ops e (sv_store st)))"
  from this [of "ce_io env 0"] Q ops show "Q (sv_store (snd (snd (adminPurge h env r w st))))"
    by (cases "op_PurgeExpired ops (ce_io env 0) (sv_store st)") (auto simp: adminPurge_def split: sum.split)
next
  show "sv_store (snd (snd (adminListPastes lib h m env r w st))) = sv_store st"
    by (rule adminListPastes_store) (simp_all add: ops list_reads stats_reads)
qed

lemma route_store:
  assumes ops: "h_store h = ops" and Q: "Q (sv_store st)"
    and get: "\<And>e k b. Q (snd (op_Get ops e k b (sv_store st)))"
    and set: "\<And>e k d. Q (snd (op_Set ops e k d (sv_store st)))"
    and del: "\<And>e k. admin_call lib m env r st \<Longrightarrow> rt = RAdminDelete k \<Longrightarrow> k \<notin> set (h_staticKeys h) \<Longrightarrow>
      Q (snd (op_Delete ops e k (sv_store st)))"
    and purge: "\<And>e. admin_call lib m env r st \<Longrightarrow> rt = RAdminPurge \<Longrightarrow> Q (snd (op_PurgeExpired ops e (sv_store st)))"
  shows "Q (sv_store (snd (snd (serve_route lib h m env rt r w st))))"
proof (cases rt)
  case RFrontend
  with Q show ?thesis by (simp add: handleFrontend_state)
next
  case RAdminIndex
  have "Q (sv_store (snd (snd (adminIndex lib r w st))))" for w using Q by (simp add: adminIndex_def split: option.split)
  with RAdminIndex Q show ?thesis by (simp add: gate_store(1) [where Q = Q])
next
  case (RAdminAsset name)
  have "Q (sv_store (snd (snd (adminAsset lib r w st))))" for w
    using Q by (simp add: adminAsset_def Let_def split: option.split)
  with RAdminAsset Q show ?thesis by (simp add: gate_store(1) [where Q = Q])
next
  case RAdminList
  with Q show ?thesis by (simp add: gate_store(2) [where Q = Q] console_handlers_store(3) [OF ops, where Q = Q])
next
  case (RAdminDelete k)
  with Q del show ?thesis by (simp add: gate_store(2) [where Q = Q] console_handlers_store(1) [where Q = Q, OF ops Q])
next
  case RAdminPurge
  with Q purge show ?thesis by (simp add: gate_store(2) [where Q = Q] console_handlers_store(2) [where Q = Q, OF ops Q])
qed (use Q in \<open>simp_all add: paste_handlers_store [where Q = Q, OF ops Q get set] more_parts [OF auth_more(1)] loginRateLimit_more_store
    more_parts [OF auth_more(3)] more_parts [OF auth_more(4)]\<close>)

lemma serve_store:
  assumes ops: "h_store h = ops" and Q: "Q (sv_store st)"
    and get: "\<And>e k b. Q (snd (op_Get ops e k b (sv_store st)))"
    and set: "\<And>e k d. Q (snd (op_Set ops e k d (sv_store st)))"
    and del: "\<And>e k m. console h = Some m \<Longrightarrow> admin_call lib m env r st \<Longrightarrow> k \<notin> set (h_staticKeys h) \<Longrightarrow>
      mux_route h (rq_Method r) (rq_segments r) = Some (RAdminDelete k) \<Longrightarrow>
      Q (snd (op_Delete ops e k (sv_store st)))"
    and purge: "\<And>e m. console h = Some m \<Longrightarrow> admin_call lib m env r st \<Longrightarrow>
      mux_route h (rq_Method r) (rq_segments r) = Some RAdminPurge \<Longrightarrow>
      Q (snd (op_PurgeExpired ops e (sv_store st)))"
  shows "Q (sv_store (snd (serve lib h env r st)))"
proof -
  let ?st = "(begun lib r st)\<lparr>sv_pattern := [], sv_limiter := snd (lets_pass env r st)\<rparr>"
  have "Q (sv_store (snd (snd (reach lib h env r st))))"
  proof (cases "mux_route h (rq_Method r) (rq_segments r)")
    case None
    with Q show ?thesis by (simp add: reach_def mux_def)
  next
    case (Some rt)
    let ?m = "case console h of Some m \<Rightarrow> m | None \<Rightarrow> no_manager"
    let ?st' = "?st\<lparr>sv_pattern := route_pattern (rq_Method r) rt\<rparr>"
    have admin: "\<exists>m. console h = Some m \<and> ?m = m" if "rt = RAdminPurge \<or> rt = RAdminDelete k" for k
      using public_route_admin Some that by (cases "console h") (auto simp: mux_route_def Let_def)
    have "Q (sv_store (snd (snd (serve_route lib h ?m env rt r (entry h r) ?st'))))"
    proof (rule route_store [OF ops], goal_cases)
      case (4 e k)
      with admin [of k] del Some show ?case by auto
    next
      case (5 e)
      with admin purge Some show ?case by auto
    qed (simp_all add: Q get set)
    with Some show ?thesis by (simp add: reach_def mux_def)
  qed
  then show ?thesis using Q
    by (rule_tac serve_cases [where lib = lib and h = h and env = env and r = r and st = st])
      (auto simp: answered_def)
qed

end

section \<open>Pastes and requests\<close>

lemma store_backend: "h_store h = backend_ops sha srt \<Longrightarrow> backend_ok (sv_store st) \<Longrightarrow>
    backend_ok (sv_store (snd (serve lib h env r st)))"
  by (rule store.serve_store [where Q = backend_ok])
    (use store.invariants [unfolded backend_ops_simps] in auto)

end
