(* ===== verification/Reply_Facts.thy ===== *)
theory Reply_Facts
  imports Serve_Facts
begin

text \<open>
  What every reply of the server carries: the security headers that the middleware sets survive
  whatever the handlers do with the response writer, and no panic gets past it.
\<close>

section \<open>What the handlers do with a response\<close>

text \<open>
  All that a handler does with a response writer: set one of a few fields or a cookie, then send a
  status and a body, once. Whatever a fresh response has (\<open>start\<close>) and these operations turn into
  \<open>done\<close>, the response of every route has.
\<close>

definition plain_fields :: "string list" where
  "plain_fields = [''Content-Type'', ''Location'', ''Cache-Control'', ''Retry-After'', ''Allow'']"

locale reply_rule =
  fixes start :: "response \<Rightarrow> bool" and complete :: "response \<Rightarrow> bool"
  assumes start_field: "start w \<Longrightarrow> k \<in> set plain_fields \<Longrightarrow> start (set_header k x w)"
    and start_error: "start w \<Longrightarrow> start (set_header ''X-Content-Type-Options'' ''nosniff''
        (set_header ''Content-Type'' x (del_header ''Content-Length'' w)))"
    and start_cookie: "start w \<Longrightarrow> start (SetCookie c w)"
    and complete_cookie: "complete w \<Longrightarrow> complete (SetCookie c w)"
    and start_complete: "start w \<Longrightarrow> complete w"
    and send: "start w \<Longrightarrow> complete (WriteHeader code w)"
    and body: "start w \<Longrightarrow> complete (write_body b w)"
    and send_body: "start w \<Longrightarrow> complete (write_body b (WriteHeader code w))"
    and send_late: "start w \<Longrightarrow> complete (write_body b (set_header ''Content-Type'' x (WriteHeader code w)))"
begin

definition ends :: "outcome \<times> response \<times> 's \<Rightarrow> bool" where
  "ends x \<longleftrightarrow> complete (fst (snd x))"

lemma ends_result [simp]: "ends (res, w, st) = complete w"
  by (simp add: ends_def)

lemma start_fields:
  assumes "start w"
  shows "start (set_header ''Content-Type'' x w)" "start (set_header ''Location'' x w)"
    "start (set_header ''Cache-Control'' x w)" "start (set_header ''Retry-After'' x w)"
    "start (set_header ''Allow'' x w)"
  using assms by (simp_all add: start_field plain_fields_def)

lemmas steps = start_fields start_error start_cookie start_complete send body send_body send_late complete_cookie

lemma replies:
  assumes "start w"
  shows "complete (writeJSON r c j w)" "complete (writeError r c msg w)" "complete (http_Error msg c w)"
    "complete (NotFound w)" "complete (forbid msg w)" "complete (Redirect r url w)" "complete (loginForm msg w)"
    "complete (login_fail w)" "complete (renderLoggedOut w)" "complete (serve_file mime name content w)"
    "complete (serveIndex h r w)" "start (setTempCookie name val w)" "start (clearSessionCookie w)"
    "start (setSessionCookie lib m now sid e w)" "complete (too_many w)"
  using assms
  by (simp_all add: writeJSON_def writeError_def http_Error_def NotFound_def forbid_def Redirect_def loginForm_def
      login_fail_def renderLoggedOut_def serve_file_def serveIndex_def setTempCookie_def
      clearSessionCookie_def setSessionCookie_def too_many_def Let_def steps)

lemma clear_temp: "complete w \<Longrightarrow> complete (clearTempCookie name w)"
  by (simp add: clearTempCookie_def complete_cookie)

lemma ends_login:
  assumes "start w"
  shows "ends (and_then (startSession lib m now ident w st) (\<lambda>w st. (Returns, Redirect r url w, st)))"
  using assms by (auto simp: startSession_def replies start_complete split: prod.split sum.split)

lemma ends_auth:
  assumes "start w"
  shows "ends (auth_Login lib m r w st)" "ends (LoginSubmit lib m now r w st)"
    "ends (auth_Callback lib m now r w st)" "ends (auth_Logout lib m now r w st)"
proof -
  show "ends (auth_Login lib m r w st)"
    using assms by (simp add: auth_Login_def oidc_login_def replies start_complete Let_def
        split: option.split prod.split sum.split)
  have "ends (submit lib p m now r w st)" for p
    using assms by (simp add: submit_eq ends_login replies split: option.split)
  with assms show "ends (LoginSubmit lib m now r w st)" by (simp add: LoginSubmit_def replies split: option.split)
  have body: "ends (callback_body lib p m now r w st)" for p
  proof (cases "oidc_admitted lib p r")
    case None
    with callback_body_rejected [of lib p r w st m now] assms show ?thesis by (auto simp: rejected_with_def replies)
  qed (simp add: callback_body_admitted ends_login assms)
  have "ends (callback lib p m now r w st)" for p
    using body [of p] by (cases "callback_body lib p m now r w st") (simp add: callback_def clear_temp)
  with assms show "ends (auth_Callback lib m now r w st)" by (simp add: auth_Callback_def replies split: option.split)
  show "ends (auth_Logout lib m now r w st)"
    using assms by (simp add: auth_Logout_def replies Let_def split: option.split prod.split)
qed

lemma ends_gate:
  assumes "start w" and "\<And>st. ends (next_h r w st)"
  shows "ends (GateUI lib m now next_h r w st)" "ends (GateAPI lib m now next_h r w st)"
  using assms by (simp_all add: GateUI_def GateAPI_def replies steps split: prod.split option.split)

lemma ends_paste:
  assumes "start w"
  shows "ends (handleGet h env i r w st)" "ends (handleRawGet h env i r w st)" "ends (handlePost lib h env r w st)"
proof -
  show "ends (handleGet h env i r w st)"
    using assms by (simp add: handleGet_def replies Let_def split: prod.split sum.split option.split)
  show "ends (handleRawGet h env i r w st)"
    using assms by (simp add: handleRawGet_def replies steps Let_def split: prod.split sum.split option.split)
  have "ends (storePaste lib h env data r w st)" for data st
    using assms by (simp add: storePaste_def replies start_complete split: option.split prod.split chosen.split)
  moreover have "complete w'" if "readBody h r w = Inl w'" for w'
    using assms that by (auto simp: readBody_def Let_def replies split: if_splits option.splits)
  ultimately show "ends (handlePost lib h env r w st)"
    using assms by (simp add: handlePost_def replies split: prod.split sum.split bool.split)
qed

lemma ends_frontend:
  assumes "start w"
  shows "ends (handleFrontend lib h r w st)"
proof -
  have "complete w'" if "serveThemeOverlay mime stat dir age name w = Some w'" for mime stat dir age name w'
    using assms that by (auto simp: serveThemeOverlay_def Let_def replies steps split: if_splits option.splits node.splits)
  with assms show ?thesis
    by (auto simp: handleFrontend_def replies steps Let_def split: option.split node.split)
qed

lemma ends_console:
  assumes "start w"
  shows "ends (adminIndex lib r w st)" "ends (adminAsset lib r w st)" "ends (adminListPastes lib h m env r w st)"
    "ends (adminDeletePaste h env i r w st)" "ends (adminPurge h env r w st)"
    "ends (loginRateLimit h env (LoginSubmit alib m now) r w st)"
  using assms
  by (simp_all add: adminIndex_def adminAsset_def adminListPastes_def adminDeletePaste_def adminPurge_def
      loginRateLimit_def ends_auth replies steps Let_def split: option.split prod.split sum.split bool.split)

lemma ends_route:
  assumes "start w"
  shows "ends (serve_route lib h m env rt r w st)"
  using assms by (cases rt) (simp_all add: ends_paste ends_frontend ends_gate ends_console ends_auth)

text \<open>Up to the recovery of a panic, the response of every request.\<close>

lemma ends_reach: "start (entry h r) \<Longrightarrow> ends (reach lib h env r st)"
  by (simp add: reach_def mux_def ends_route replies steps split: option.split)

lemma ends_early:
  assumes "start (entry h r)"
  shows "complete (WriteHeader 204 (entry h r))" "complete (too_many (entry h r))"
  using assms by (simp_all add: steps replies)

end

section \<open>Fields no handler touches\<close>

definition guarded_fields :: "string list" where
  "guarded_fields = [''Content-Security-Policy'', ''Referrer-Policy'', ''X-Frame-Options'',
     ''Access-Control-Allow-Origin'', ''Access-Control-Allow-Credentials'']"

text \<open>Only \<open>http.Error\<close> sets one of them, to the value it has.\<close>

definition guarded :: "string \<Rightarrow> string list \<Rightarrow> bool" where
  "guarded k v \<longleftrightarrow> k \<in> set guarded_fields \<or> k = ''X-Content-Type-Options'' \<and> v = [''nosniff'']"

definition carries :: "string \<Rightarrow> string list \<Rightarrow> response \<Rightarrow> bool" where
  "carries k v w \<longleftrightarrow> header_values (rs_header w) k = v \<and> (\<forall>c hd. rs_sent w = Some (c, hd) \<longrightarrow> header_values hd k = v)"

definition carries_all :: "(string \<Rightarrow> string list) \<Rightarrow> response \<Rightarrow> bool" where
  "carries_all vs w \<longleftrightarrow> (\<forall>k. guarded k (vs k) \<longrightarrow> carries k (vs k) w)"

lemma carries_send: "carries k v w \<Longrightarrow> carries k v (send_header c w)"
    "carries k v w \<Longrightarrow> carries k v (WriteHeader c w)" "carries k v w \<Longrightarrow> carries k v (write_body b w)"
    "carries k v w \<Longrightarrow> carries k v (SetCookie ck w)"
  by (auto simp: carries_def split: option.splits)

lemma carries_set: "carries k v w \<Longrightarrow> k' \<noteq> k \<Longrightarrow> carries k v (set_header k' x w)"
    "carries k v w \<Longrightarrow> k' \<noteq> k \<Longrightarrow> carries k v (del_header k' w)"
  by (auto simp: carries_def)

lemma carries_plain: "carries k v w \<Longrightarrow> guarded k v \<Longrightarrow> k' \<in> set plain_fields \<Longrightarrow> carries k v (set_header k' x w)"
  by (rule carries_set) (auto simp: guarded_def guarded_fields_def plain_fields_def)

lemma carries_error:
  assumes "guarded k v" and "carries k v w"
  shows "carries k v (set_header ''X-Content-Type-Options'' ''nosniff''
    (set_header ''Content-Type'' x (del_header ''Content-Length'' w)))"
  using assms by (cases "k = ''X-Content-Type-Options''") (auto simp: guarded_def guarded_fields_def carries_def)

interpretation fields: reply_rule "carries_all vs" "carries_all vs" for vs
  by unfold_locales
    (simp_all add: carries_all_def carries_send carries_plain carries_error plain_fields_def)

lemma carries_panicked: "guarded k v \<Longrightarrow> carries k v w \<Longrightarrow> carries k v (panicked w)"
  by (simp add: panicked_def carries_send carries_plain plain_fields_def)

lemma carries_finish: "carries k v w \<Longrightarrow> header_values (rp_header (finish r w)) k = v"
  by (cases "rs_sent w") (auto simp: carries_def finish_unsent finish_sent)

text \<open>What every reply carries is what the middleware set.\<close>

lemma serve_carries:
  assumes "carries_all vs (entry h r)" and "guarded k (vs k)" and "serve lib h env r st = (Some rep, st')"
  shows "header_values (rp_header rep) k = vs k"
proof (rule serve_cases [where lib = lib and h = h and env = env and r = r and st = st], goal_cases)
  case (1 w l)
  then have "carries_all vs w" using fields.ends_early [OF assms(1)] by auto
  with 1 assms(2,3) carries_finish show ?case by (auto simp: answered_def carries_all_def)
next
  case (2 w st1)
  then have "carries_all vs w" using fields.ends_reach [OF assms(1), of lib env st] by simp
  with 2 assms(2,3) carries_finish show ?case by (auto simp: answered_def carries_all_def)
next
  case (3 p w st1)
  then have "carries_all vs w" using fields.ends_reach [OF assms(1), of lib env st] by simp
  with assms(2) have "carries k (vs k) (panicked w)" by (simp add: carries_all_def carries_panicked)
  with 3 assms(3) carries_finish show ?case by auto
qed (use assms(3) in simp)

section \<open>The status that is logged\<close>

definition fresh :: "response \<Rightarrow> bool" where
  "fresh w \<longleftrightarrow> rs_sent w = None \<and> rs_recorded w = 200"

definition honest :: "response \<Rightarrow> bool" where
  "honest w \<longleftrightarrow> rs_recorded w = (case rs_sent w of None \<Rightarrow> 200 | Some (c, _) \<Rightarrow> c)"

interpretation status: reply_rule fresh honest
  by unfold_locales (auto simp: fresh_def honest_def split: option.splits)

section \<open>How handlers end\<close>

text \<open>
  A handler that panics has sent nothing yet. Only the search for a key may run forever.
\<close>

fun ends_well :: "bool \<Rightarrow> outcome \<times> response \<times> 's \<Rightarrow> bool" where
  "ends_well hang (Returns, w, st) = True"
| "ends_well hang (Panics p, w, st) = (rs_sent w = None \<and> rs_body w = [])"
| "ends_well hang (Hangs, w, st) = hang"

lemma orderly_startSession: "rs_sent w = None \<Longrightarrow> rs_body w = [] \<Longrightarrow> ends_well False (startSession lib m now ident w st)"
  by (simp add: startSession_def split: prod.split sum.split)

lemma orderly_and_then:
  assumes "ends_well hang x" and "\<And>w st. ends_well hang (f w st)"
  shows "ends_well hang (and_then x f)"
  using assms by (cases "(hang, x)" rule: ends_well.cases) (auto simp: and_then_def)

lemma orderly_login: "rs_sent w = None \<Longrightarrow> rs_body w = [] \<Longrightarrow>
    ends_well False (and_then (startSession lib m now ident w st) (\<lambda>w st. (Returns, Redirect r url w, st)))"
  by (intro orderly_and_then orderly_startSession) simp_all

lemma orderly_auth:
  assumes "rs_sent w = None" and "rs_body w = []"
  shows "ends_well False (auth_Login lib m r w st)" "ends_well False (LoginSubmit lib m now r w st)"
    "ends_well False (auth_Callback lib m now r w st)" "ends_well False (auth_Logout lib m now r w st)"
proof -
  show "ends_well False (auth_Login lib m r w st)"
    using assms by (simp add: auth_Login_def oidc_login_def Let_def split: option.split prod.split sum.split)
  have "ends_well False (submit lib p m now r w st)" for p
    using assms by (simp add: submit_eq orderly_login split: option.split)
  then show "ends_well False (LoginSubmit lib m now r w st)" by (simp add: LoginSubmit_def split: option.split)
  have body: "ends_well False (callback_body lib p m now r w st)" for p
  proof (cases "oidc_admitted lib p r")
    case None
    with callback_body_rejected [of lib p r w st m now] show ?thesis by (auto simp: rejected_with_def)
  qed (simp add: callback_body_admitted orderly_login assms)
  have "ends_well False (callback lib p m now r w st)" for p
    using body [of p] by (cases "(False, callback_body lib p m now r w st)" rule: ends_well.cases) (auto simp: callback_def)
  then show "ends_well False (auth_Callback lib m now r w st)" by (simp add: auth_Callback_def split: option.split)
  show "ends_well False (auth_Logout lib m now r w st)"
    by (simp add: auth_Logout_def Let_def split: option.split prod.split)
qed

lemma orderly_gate:
  assumes "\<And>st. ends_well False (next_h r w st)"
  shows "ends_well False (GateUI lib m now next_h r w st)" "ends_well False (GateAPI lib m now next_h r w st)"
  using assms by (simp_all add: GateUI_def GateAPI_def split: prod.split option.split)

lemma orderly_console:
  assumes "rs_sent w = None" and "rs_body w = []"
  shows "ends_well False (adminIndex lib r w st)" "ends_well False (adminAsset lib r w st)"
    "ends_well False (adminListPastes lib h m env r w st)"
    "ends_well False (adminDeletePaste h env i r w st)" "ends_well False (adminPurge h env r w st)"
    "ends_well False (loginRateLimit h env (LoginSubmit alib m now) r w st)"
    "ends_well False (handleFrontend lib h r w st)" "ends_well False (handleGet h env i r w st)"
    "ends_well False (handleRawGet h env i r w st)"
  using assms
  by (simp_all add: adminIndex_def adminAsset_def adminListPastes_def adminDeletePaste_def adminPurge_def
      loginRateLimit_def orderly_auth handleFrontend_def handleGet_def handleRawGet_def Let_def
      split: option.split prod.split sum.split bool.split node.split)

text \<open>The key a \<open>POST\<close> draws, once its data has been accepted.\<close>

definition searches_forever ::
  "('r, 'z) web_lib_scheme \<Rightarrow> 's server \<Rightarrow> call_env \<Rightarrow> http_request \<Rightarrow> ('r, 's) server_state \<Rightarrow> bool" where
  "searches_forever lib h env r st \<longleftrightarrow>
     (\<exists>data. post_data lib h r = Some data \<and>
        fst (chargeBytes (sv_limiter st) (clientIP r (cfg_TrustedProxyCount (h_cfg h))) (int (length data)) (ce_now env))) \<and>
     chooseKey (wl_randint lib) h env 0 (at_rng st) (sv_store st) = None"

lemma orderly_post:
  assumes "rs_sent w = None" and "rs_body w = []"
  shows "ends_well (searches_forever lib h env r st) (handlePost lib h env r w st)"
    and "fst (handlePost lib h env r w st) = Hangs \<longleftrightarrow> searches_forever lib h env r st"
proof -
  have "ends_well (searches_forever lib h env r st) (handlePost lib h env r w st) \<and>
      (fst (handlePost lib h env r w st) = Hangs \<longleftrightarrow> searches_forever lib h env r st)"
    using assms(1)
  proof (rule handlePost_cases [of w lib h env r st], goal_cases)
    case (1 code w' l)
    then show ?case by (auto simp: searches_forever_def)
  next
    case (2 data l)
    then have "searches_forever lib h env r st \<longleftrightarrow> chooseKey (wl_randint lib) h env 0 (at_rng st) (sv_store st) = None"
      by (simp add: searches_forever_def)
    with 2 assms show ?case
      by (auto simp: storePaste_def split: option.split chosen.split prod.split)
  qed
  then show "ends_well (searches_forever lib h env r st) (handlePost lib h env r w st)"
    and "fst (handlePost lib h env r w st) = Hangs \<longleftrightarrow> searches_forever lib h env r st" by simp_all
qed

section \<open>The header the middleware sets\<close>

lemma corsOrigin_eq: "corsOrigin as origin = (if ''*'' \<in> set as \<or> origin \<in> set as then origin else [])"
  by (induction as) auto

lemma allowed_origin_eq: "allowed_origin h r =
    (if header_get r ''Origin'' \<noteq> [] \<and> (''*'' \<in> set (sec_CORSOrigins (cfg_Security (h_cfg h))) \<or>
           header_get r ''Origin'' \<in> set (sec_CORSOrigins (cfg_Security (h_cfg h))))
     then header_get r ''Origin'' else [])"
  by (simp add: allowed_origin_def corsOrigin_eq)

lemma entry_unsent [simp]: "rs_sent (entry h r) = None"
  by (simp add: entry_def security_fields_def cors_fields_def Let_def)

lemma entry_fields:
  "header_values (rs_header (entry h r)) k =
     (if allowed_origin h r \<noteq> [] \<and> k = ''Access-Control-Allow-Headers'' then [''Content-Type'']
      else if allowed_origin h r \<noteq> [] \<and> k = ''Access-Control-Allow-Methods'' then [''GET, POST, HEAD, OPTIONS'']
      else if allowed_origin h r \<noteq> [] \<and> k = ''Vary'' then [''Origin'']
      else if allowed_origin h r \<noteq> [] \<and> k = ''Access-Control-Allow-Origin'' then [allowed_origin h r]
      else if k = ''Content-Security-Policy'' then [csp (cfg_Security (h_cfg h))]
      else if k = ''Referrer-Policy'' then [''same-origin'']
      else if k = ''X-Frame-Options'' then
        (if frame_ancestors (cfg_Security (h_cfg h)) = [CHR 0x27] @ ''self'' @ [CHR 0x27] then [''SAMEORIGIN''] else [])
      else if k = ''X-Content-Type-Options'' then [''nosniff''] else [])"
  by (simp add: entry_def security_fields_def cors_fields_def Let_def)

lemma reply_field:
  assumes "serve lib h env r st = (Some rep, st')" and "guarded k (header_values (rs_header (entry h r)) k)"
  shows "header_values (rp_header rep) k = header_values (rs_header (entry h r)) k"
  by (rule serve_carries [where vs = "header_values (rs_header (entry h r))", OF _ assms(2,1)])
    (simp add: carries_all_def carries_def)

lemma orderly_route:
  assumes "rs_sent w = None" and "rs_body w = []"
  shows "ends_well (rt = RPost \<and> searches_forever lib h env r st) (serve_route lib h m env rt r w st)"
    and "fst (serve_route lib h m env rt r w st) = Hangs \<longleftrightarrow> rt = RPost \<and> searches_forever lib h env r st"
proof -
  have "ends_well (rt = RPost \<and> searches_forever lib h env r st) (serve_route lib h m env rt r w st) \<and>
    (fst (serve_route lib h m env rt r w st) = Hangs \<longleftrightarrow> rt = RPost \<and> searches_forever lib h env r st)"
  proof (cases "rt = RPost")
    case True
    with orderly_post [OF assms, where lib = lib and h = h and env = env and r = r and st = st] show ?thesis by simp
  next
    case False
    then have "ends_well False (serve_route lib h m env rt r w st)"
      using assms by (cases rt) (simp_all add: orderly_gate orderly_console orderly_auth)
    then show ?thesis using False
      by (cases "(False, serve_route lib h m env rt r w st)" rule: ends_well.cases) auto
  qed
  then show "ends_well (rt = RPost \<and> searches_forever lib h env r st) (serve_route lib h m env rt r w st)"
    and "fst (serve_route lib h m env rt r w st) = Hangs \<longleftrightarrow> rt = RPost \<and> searches_forever lib h env r st" by simp_all
qed

lemma entry_body [simp]: "rs_body (entry h r) = []"
  by (simp add: entry_def security_fields_def cors_fields_def Let_def)

lemma searches_forever_pattern [simp]:
  "searches_forever lib h env r (st\<lparr>sv_pattern := p, sv_limiter := l, sv_pattern := q\<rparr>) =
   searches_forever lib h env r (st\<lparr>sv_limiter := l\<rparr>)"
  "searches_forever lib h env r (st\<lparr>sv_limiter := l, sv_pattern := q\<rparr>) =
   searches_forever lib h env r (st\<lparr>sv_limiter := l\<rparr>)"
  "searches_forever lib h env r ((begun lib' r' st)\<lparr>sv_limiter := l\<rparr>) =
   searches_forever lib h env r (st\<lparr>sv_limiter := l\<rparr>)"
  by (simp_all add: searches_forever_def)

lemma reach_ends:
  "ends_well (fst (reach lib h env r st) = Hangs) (reach lib h env r st)"
  "fst (reach lib h env r st) = Hangs \<longleftrightarrow> mux_route h (rq_Method r) (rq_segments r) = Some RPost \<and>
     searches_forever lib h env r (st\<lparr>sv_limiter := snd (lets_pass env r st)\<rparr>)"
proof -
  let ?st = "(begun lib r st)\<lparr>sv_pattern := [], sv_limiter := snd (lets_pass env r st)\<rparr>"
  have "ends_well (fst (reach lib h env r st) = Hangs) (reach lib h env r st) \<and>
    (fst (reach lib h env r st) = Hangs \<longleftrightarrow> mux_route h (rq_Method r) (rq_segments r) = Some RPost \<and>
     searches_forever lib h env r (st\<lparr>sv_limiter := snd (lets_pass env r st)\<rparr>))"
  proof (cases "mux_route h (rq_Method r) (rq_segments r)")
    case None
    then show ?thesis by (simp add: reach_def mux_def)
  next
    case (Some rt)
    let ?m = "case console h of Some m \<Rightarrow> m | None \<Rightarrow> no_manager"
    have x: "reach lib h env r st = serve_route lib h ?m env rt r (entry h r)
        (?st\<lparr>sv_pattern := route_pattern (rq_Method r) rt\<rparr>)"
      using Some by (simp add: reach_def mux_def)
    show ?thesis
      using orderly_route [OF entry_unsent [of h r] entry_body [of h r], where lib = lib and h = h and env = env and r = r
          and st = "?st\<lparr>sv_pattern := route_pattern (rq_Method r) rt\<rparr>" and rt = rt and m = ?m] Some
      unfolding x by simp
  qed
  then show "ends_well (fst (reach lib h env r st) = Hangs) (reach lib h env r st)"
    and "fst (reach lib h env r st) = Hangs \<longleftrightarrow> mux_route h (rq_Method r) (rq_segments r) = Some RPost \<and>
      searches_forever lib h env r (st\<lparr>sv_limiter := snd (lets_pass env r st)\<rparr>)" by blast+
qed

section \<open>The access log\<close>

text \<open>
  A part of the state that neither the sessions nor the random source, the store and the login limiter
  are part of: no route touches it but the one that creates pastes.
\<close>

locale state_frame =
  fixes part :: "('r, 's) server_state \<Rightarrow> 'p"
  assumes part_more: "auth_state.more st' = auth_state.more st \<Longrightarrow> part st' = part st"
    and part_store: "part (st\<lparr>sv_store := s\<rparr>) = part st"
    and part_login: "part (st\<lparr>sv_loginLimiter := l\<rparr>) = part st"
begin

definition keeps :: "('r, 's) server_state \<Rightarrow> outcome \<times> response \<times> ('r, 's) server_state \<Rightarrow> bool" where
  "keeps st x \<longleftrightarrow> part (snd (snd x)) = part st"

lemma keeps_result: "keeps st (res, w, st') \<longleftrightarrow> part st' = part st"
  by (simp add: keeps_def)

lemma keeps_auth:
  "keeps st (auth_Login lib m r w st)" "keeps st (LoginSubmit lib m now r w st)"
  "keeps st (auth_Callback lib m now r w st)" "keeps st (auth_Logout lib m now r w st)"
  by (simp_all add: keeps_def part_more [OF auth_more(1)] part_more [OF auth_more(2)]
      part_more [OF auth_more(3)] part_more [OF auth_more(4)])

lemma keeps_gate:
  assumes "\<And>st. keeps st (next_h r w st)"
  shows "keeps st (GateUI lib m now next_h r w st)" "keeps st (GateAPI lib m now next_h r w st)"
proof -
  obtain i st' where a: "authed lib m now r st = (i, st')" by fastforce
  then have "part st' = part st" using part_more [of st' st] authed_state(2) [of lib m now r st] by simp
  with a assms [of st'] show "keeps st (GateUI lib m now next_h r w st)" "keeps st (GateAPI lib m now next_h r w st)"
    by (simp_all add: GateUI_def GateAPI_def keeps_def split: option.split)
qed

lemma keeps_list: "keeps st (adminListPastes lib h m env r w st)"
  by (simp add: adminListPastes_def keeps_def Let_def case_prod_beta part_more [OF manager_Identity_more] part_store
      split: sum.split)

lemma keeps_handlers:
  "keeps st (adminIndex lib r w st)" "keeps st (adminAsset lib r w st)"
  "keeps st (adminDeletePaste h env i r w st)" "keeps st (adminPurge h env r w st)"
  "keeps st (handleFrontend lib h r w st)" "keeps st (handleGet h env i r w st)" "keeps st (handleRawGet h env i r w st)"
  by (simp_all add: adminIndex_def adminAsset_def adminDeletePaste_def adminPurge_def handleFrontend_def handleGet_def
      handleRawGet_def keeps_result part_store Let_def
      split: option.split prod.split sum.split bool.split node.split)

lemma keeps_submit: "keeps st (loginRateLimit h env (LoginSubmit lib m now) r w st)"
  using keeps_auth(2) [where lib = lib and m = m and now = now and r = r and w = w]
  by (auto simp: loginRateLimit_def keeps_def part_login split: prod.split bool.split)

lemma keeps_route: "rt \<noteq> RPost \<Longrightarrow> keeps st (serve_route lib h m env rt r w st)"
  by (cases rt) (simp_all add: keeps_auth keeps_gate keeps_list keeps_handlers keeps_submit)

end

interpretation logged: state_frame "\<lambda>st. (sv_log st, sv_pattern st)"
  by unfold_locales (auto dest: more_parts)

interpretation limited: state_frame sv_limiter
  by unfold_locales (auto dest: more_parts)

lemma handlePost_logs: "sv_log (snd (snd (handlePost lib h env r w st))) = sv_log st"
    "sv_pattern (snd (snd (handlePost lib h env r w st))) = sv_pattern st"
  by (simp_all add: handlePost_def storePaste_def Let_def split: option.split prod.split sum.split bool.split chosen.split)

lemma route_logs: "sv_log (snd (snd (serve_route lib h m env rt r w st))) = sv_log st"
    "sv_pattern (snd (snd (serve_route lib h m env rt r w st))) = sv_pattern st"
proof -
  have "sv_log (snd (snd (serve_route lib h m env rt r w st))) = sv_log st \<and>
      sv_pattern (snd (snd (serve_route lib h m env rt r w st))) = sv_pattern st"
  proof (cases "rt = RPost")
    case True
    then show ?thesis by (simp add: handlePost_logs)
  next
    case False
    then show ?thesis using logged.keeps_route [OF False] unfolding logged.keeps_def by blast
  qed
  then show "sv_log (snd (snd (serve_route lib h m env rt r w st))) = sv_log st"
    and "sv_pattern (snd (snd (serve_route lib h m env rt r w st))) = sv_pattern st" by simp_all
qed

lemma reach_log:
  "sv_log (snd (snd (reach lib h env r st))) = sv_log st @ forwarding lib r"
  "sv_pattern (snd (snd (reach lib h env r st))) =
     (case mux_route h (rq_Method r) (rq_segments r) of None \<Rightarrow> [] | Some rt \<Rightarrow> route_pattern (rq_Method r) rt)"
proof -
  show "sv_log (snd (snd (reach lib h env r st))) = sv_log st @ forwarding lib r"
    by (simp add: reach_def mux_def route_logs split: option.split)
  show "sv_pattern (snd (snd (reach lib h env r st))) =
     (case mux_route h (rq_Method r) (rq_segments r) of None \<Rightarrow> [] | Some rt \<Rightarrow> route_pattern (rq_Method r) rt)"
    by (simp add: reach_def mux_def route_logs split: option.split)
qed

lemma answered_or_hangs:
  "fst (serve lib h env r st) = None \<longleftrightarrow>
     \<not> preflight h r \<and> fst (lets_pass env r st) \<and>
     mux_route h (rq_Method r) (rq_segments r) = Some RPost \<and>
     searches_forever lib h env r (st\<lparr>sv_limiter := snd (lets_pass env r st)\<rparr>)"
proof -
  have "fst (serve lib h env r st) = None \<longleftrightarrow>
      \<not> preflight h r \<and> fst (lets_pass env r st) \<and> fst (reach lib h env r st) = Hangs"
    by (simp add: serve_eq answered_def split: prod.split outcome.split)
  then show ?thesis by (simp add: reach_ends(2))
qed

section \<open>A small server for concrete runs\<close>

text \<open>The default configuration without rate limits, over a given generator and store.\<close>

definition demo_cfg :: Config where
  "demo_cfg = Defaults\<lparr>cfg_RateLimit := \<lparr>rl_TotalRequests = 0, rl_Every = 0, rl_MaxBytes = 0\<rparr>\<rparr>"

definition demo_lib :: "unit web_lib" where
  "demo_lib = auth_lib.extend no_lib (web_lib.fields first_rand (\<lambda>_. None) (\<lambda>_ _. None) (\<lambda>_. []) (\<lambda>_. None)
     (\<lambda>sev. sev \<noteq> LDebug))"

definition demo_server :: "Config \<Rightarrow> generator \<Rightarrow> 's store_ops \<Rightarrow> 's server" where
  "demo_server cfg gen ops = \<lparr>h_cfg = cfg, h_store = ops, h_keygen = gen, h_auth = None, h_staticKeys = [],
     h_assets = (\<lambda>_. None), h_indexHTML = ''<html>'', h_themeDir = []\<rparr>"

definition demo_state :: "'s \<Rightarrow> (unit, 's) server_state" where
  "demo_state s = \<lparr>at_sessions = newSessionStore, at_rng = (), sv_store = s,
     sv_limiter = newRateLimiter (cfg_RateLimit demo_cfg) 0,
     sv_loginLimiter = newRateLimiter \<lparr>rl_TotalRequests = 10, rl_Every = 60000, rl_MaxBytes = 0\<rparr> 0,
     sv_pattern = [], sv_log = []\<rparr>"

definition demo_env :: call_env where
  "demo_env = \<lparr>ce_now = 0, ce_io = (\<lambda>n. calm 0)\<rparr>"

definition demo_post :: http_request where
  "demo_post = plain_request\<lparr>rq_Method := ''POST'', rq_segments := [''api'', ''pastes''], rq_body := (''hello'', False)\<rparr>"

lemma demo_simps [simp]:
  "h_store (demo_server cfg gen ops) = ops" "h_keygen (demo_server cfg gen ops) = gen"
  "h_cfg (demo_server cfg gen ops) = cfg" "sv_store (demo_state s) = s" "at_rng (demo_state s) = ()"
  "ce_io demo_env n = calm 0" "wl_randint demo_lib = first_rand" "console (demo_server cfg gen ops) = None"
  "sv_log (demo_state s) = []" "wl_logs demo_lib sev \<longleftrightarrow> sev \<noteq> LDebug"
  by (simp_all add: demo_server_def demo_state_def demo_env_def demo_lib_def auth_lib.defs web_lib.defs console_def)

lemma demo_begun [simp]: "begun demo_lib r st = st"
  by (simp add: begun_def forwarding_def log_at_def)

lemma demo_limiter: "lets_pass env r (demo_state s) = (True, sv_limiter (demo_state s))"
    "chargeBytes (sv_limiter (demo_state s)) ip n t = (True, sv_limiter (demo_state s))"
  by (simp_all add: lets_pass_def limiter_passes_def demo_state_def newRateLimiter_def demo_cfg_def chargeBytes_def)

lemma hello_trimmed: "trim_space ''hello'' = ''hello''"
  by (rule trim_space_id) (simp_all add: leading_rune_def space_runes_def has_prefix_def)

lemma demo_post_data:
  "cfg_MaxLength cfg = cfg_MaxLength demo_cfg \<Longrightarrow> post_data lib (demo_server cfg gen ops) demo_post = Some ''hello''"
  by (simp add: post_data_def demo_cfg_def writeOriginAllowed_def readBody_def demo_post_def plain_request_def
      header_get_def first_value_def has_prefix_def read_limited_def Let_def wrap64_nonneg hello_trimmed demo_server_def
      Defaults_def)

lemma demo_route: "mux_route (demo_server cfg gen ops) (rq_Method demo_post) (rq_segments demo_post) = Some RPost"
  by (simp add: mux_route_def demo_post_def public_route_def)

lemma demo_not_preflight: "\<not> preflight h demo_post" "\<not> preflight h plain_request"
  by (simp_all add: preflight_def demo_post_def plain_request_def)

lemma demo_get:
  obtains rep st' where "serve demo_lib (demo_server cfg gen ops) demo_env plain_request (demo_state s) = (Some rep, st')"
proof -
  have "fst (serve demo_lib (demo_server cfg gen ops) demo_env plain_request (demo_state s)) \<noteq> None"
    by (simp add: answered_or_hangs mux_route_def plain_request_def public_route_def)
  then show thesis
    using that by (cases "serve demo_lib (demo_server cfg gen ops) demo_env plain_request (demo_state s)") auto
qed

text \<open>What the handler of the concrete \<open>POST\<close> does.\<close>

lemma demo_reach_post:
  assumes "post_data demo_lib (demo_server cfg gen ops) demo_post = Some body"
  shows "reach demo_lib (demo_server cfg gen ops) demo_env demo_post (demo_state s) =
    storePaste demo_lib (demo_server cfg gen ops) demo_env body demo_post (entry (demo_server cfg gen ops) demo_post)
      ((demo_state s)\<lparr>sv_pattern := ''POST /api/pastes''\<rparr>)"
proof -
  let ?h = "demo_server cfg gen ops" and ?st = "(demo_state s)\<lparr>sv_pattern := ''POST /api/pastes''\<rparr>"
  note accepted = assms
  have "handlePost demo_lib ?h demo_env demo_post (entry ?h demo_post) ?st =
      storePaste demo_lib ?h demo_env body demo_post (entry ?h demo_post) ?st"
    using entry_unsent [of ?h demo_post]
  proof (rule handlePost_cases [where lib = demo_lib and h = ?h and env = demo_env and r = demo_post and st = ?st], goal_cases)
    case (1 code w' l)
    with accepted show ?case by (simp add: demo_limiter)
  next
    case (2 data l)
    with accepted have "l = sv_limiter (demo_state s)" "data = body" by (simp_all add: demo_limiter)
    with 2 show ?case by simp
  qed
  then show ?thesis by (simp add: reach_def mux_def demo_route demo_limiter)
qed

section \<open>Properties\<close>

text \<open>
  C30. Security headers. Every reply, whatever the request, the route and the way the handler ends
  (panics included), forbids content sniffing, carries the configured content security policy and
  referrer policy and, unless framing is configured otherwise, denies framing by others. It names
  an allowed origin exactly when the request's origin is in the allow-list, and then that one;
  credentials are never allowed.
\<close>

theorem security_headers:
  assumes "serve lib h env r st = (Some rep, st')"
  shows "header_values (rp_header rep) ''X-Content-Type-Options'' = [''nosniff''] \<and>
    header_values (rp_header rep) ''Content-Security-Policy'' = [csp (cfg_Security (h_cfg h))] \<and>
    header_values (rp_header rep) ''Referrer-Policy'' = [''same-origin''] \<and>
    header_values (rp_header rep) ''X-Frame-Options'' =
      (if frame_ancestors (cfg_Security (h_cfg h)) = [CHR 0x27] @ ''self'' @ [CHR 0x27] then [''SAMEORIGIN''] else []) \<and>
    header_values (rp_header rep) ''Access-Control-Allow-Origin'' =
      (if header_get r ''Origin'' \<noteq> [] \<and>
          (''*'' \<in> set (sec_CORSOrigins (cfg_Security (h_cfg h))) \<or>
           header_get r ''Origin'' \<in> set (sec_CORSOrigins (cfg_Security (h_cfg h))))
       then [header_get r ''Origin''] else []) \<and>
    header_values (rp_header rep) ''Access-Control-Allow-Credentials'' = []"
  using assms by (simp add: reply_field guarded_def guarded_fields_def entry_fields allowed_origin_eq)

lemma security_headers_witness:
  "\<exists>rep st'. serve demo_lib (demo_server demo_cfg (NewRandom []) (backend_ops zero_hash id)) demo_env plain_request (demo_state demo_sqlite) = (Some rep, st') \<and>
     header_values (rp_header rep) ''X-Content-Type-Options'' = [''nosniff'']"
proof -
  obtain rep st' where x: "serve demo_lib (demo_server demo_cfg (NewRandom []) (backend_ops zero_hash id)) demo_env plain_request
      (demo_state demo_sqlite) = (Some rep, st')" by (rule demo_get)
  with security_headers [OF x] show ?thesis by blast
qed

text \<open>
  The paths a panic can be logged with. Panics come from the random source alone (a token or a key), so
  only requests that draw from it get there, and their paths are fixed.
\<close>

definition panic_paths :: "string list" where
  "panic_paths = [''/api/pastes'', ''/admin/login'', ''/admin/callback'']"

lemma panic_route:
  assumes "serve_route lib h m env rt r w st = (Panics p, w', st')"
  shows "rt \<in> {RPost, RLogin, RLoginSubmit, RCallback}"
  using assms
  by (cases rt)
    (auto simp: handleGet_def handleRawGet_def handleFrontend_def GateUI_def GateAPI_def adminIndex_def adminAsset_def
      adminListPastes_def adminDeletePaste_def adminPurge_def auth_Logout_def Let_def
      split: option.splits prod.splits sum.splits bool.splits node.splits if_splits)

lemma panic_path:
  assumes "reach lib h env r st = (Panics p, w, st')"
  shows "url_path r \<in> set panic_paths"
proof -
  from assms obtain rt where rt: "mux_route h (rq_Method r) (rq_segments r) = Some rt"
    and "rt \<in> {RPost, RLogin, RLoginSubmit, RCallback}"
    by (auto simp: reach_def mux_def dest: panic_route split: option.splits)
  then have "rq_segments r \<in> {[''api'', ''pastes''], [''admin'', ''login''], [''admin'', ''callback'']}"
    by (auto simp: mux_route_def admin_route_def public_route_def Let_def split: option.splits if_splits list.splits)
  then show ?thesis by (auto simp: panic_paths_def url_path_def)
qed

text \<open>
  C33. A panic in a handler stays inside the request: the client gets a 500 with a JSON error (the
  handler has sent nothing before), and the state the handler left is kept. Of the middleware's lines
  the log gets the one about the panic, with its value and the path of the request, and no access line,
  because the panic unwinds through the logger before it is recovered. The path is one that holds no
  paste key.
\<close>

theorem panic_is_500:
  assumes "reach lib h env r st = (Panics p, w, st')" and "\<not> preflight h r" and "fst (lets_pass env r st)"
  shows "\<exists>rep. serve lib h env r st =
       (Some rep, st'\<lparr>sv_log := sv_log st @ forwarding lib r @ log_at lib LError (Recovered p (url_path r))\<rparr>) \<and>
     rp_status rep = 500 \<and>
     header_values (rp_header rep) ''Content-Type'' = [''application/json''] \<and>
     rp_body rep = (if is_head r then [] else json_encode (JObj [(''error'', JStr ''Internal server error.'')])) \<and>
     url_path r \<in> set panic_paths"
proof -
  have "rs_sent w = None" and "rs_body w = []" using reach_ends(1) [of lib h env r st] assms(1) by simp_all
  then have "rp_status (finish r (panicked w)) = 500 \<and>
     header_values (rp_header (finish r (panicked w))) ''Content-Type'' = [''application/json''] \<and>
     rp_body (finish r (panicked w)) =
       (if is_head r then [] else json_encode (JObj [(''error'', JStr ''Internal server error.'')]))"
    by (simp add: panicked_def finish_def)
  moreover have "sv_log st' = sv_log st @ forwarding lib r" using reach_log(1) [of lib h env r st] assms(1) by simp
  ultimately show ?thesis using assms panic_path [OF assms(1)] by (simp add: serve_eq recovered_def)
qed

lemma panic_is_500_witness:
  "\<exists>rep st' p. serve demo_lib (demo_server (demo_cfg\<lparr>cfg_KeyLength := - 1\<rparr>) Phonetic (backend_ops zero_hash id)) demo_env demo_post (demo_state demo_sqlite)
     = (Some rep, st') \<and> rp_status rep = 500 \<and> sv_log st' = [Recovered p ''/api/pastes'']"
proof -
  let ?h = "demo_server (demo_cfg\<lparr>cfg_KeyLength := - 1\<rparr>) Phonetic (backend_ops zero_hash id)"
  obtain p w st' where x: "reach demo_lib ?h demo_env demo_post (demo_state demo_sqlite) = (Panics p, w, st')"
    by (auto simp: demo_reach_post demo_post_data storePaste_def chooseKey.simps)
  from panic_is_500 [OF x demo_not_preflight(1)] show ?thesis
    by (auto simp: demo_limiter forwarding_def log_at_def url_path_def demo_post_def)
qed

definition log_routes :: "string list" where
  "log_routes = [''POST /api/pastes'', ''GET /api/pastes/{id}'', ''GET /api/pastes/{id}/raw'', ''GET /'',
     ''GET /admin'', ''GET /admin/app.css'', ''GET /admin/app.js'', ''GET /admin/login'', ''POST /admin/login'',
     ''GET /admin/callback'', ''GET /admin/logout'', ''POST /admin/logout'', ''GET /admin/api/pastes'',
     ''DELETE /admin/api/pastes/{key}'', ''POST /admin/api/purge'']"

lemma route_pattern_logged:
  assumes "mux_route h meth segs = Some rt"
  shows "route_pattern meth rt \<in> set log_routes"
proof -
  have "n \<in> {''app.css'', ''app.js''}" if "rt = RAdminAsset n" for n
    using assms that
    by (auto simp: mux_route_def admin_route_def public_route_def Let_def split: option.splits if_splits list.splits)
  then show ?thesis by (cases rt) (auto simp: log_routes_def)
qed

lemma entry_fresh: "fresh (entry h r)"
  by (simp add: fresh_def) (simp add: entry_def security_fields_def cors_fields_def Let_def)

lemma honest_status: "honest w \<Longrightarrow> rp_status (finish r w) = rs_recorded w"
  by (cases "rs_sent w") (auto simp: honest_def finish_sent finish_unsent)

text \<open>The route of the access line: a registered pattern, or the method of a request that met none.\<close>

definition logged_route :: "'s server \<Rightarrow> call_env \<Rightarrow> http_request \<Rightarrow> ('r, 's) server_state \<Rightarrow> string" where
  "logged_route h env r st = (case mux_route h (rq_Method r) (rq_segments r) of
      Some rt \<Rightarrow> if \<not> preflight h r \<and> fst (lets_pass env r st) then route_pattern (rq_Method r) rt
        else rq_Method r @ '' (unmatched)''
    | None \<Rightarrow> rq_Method r @ '' (unmatched)'')"

text \<open>
  C32. What the middleware logs of an answered request, line by line and at the severities the logger
  lets through: at debug level the forwarding headers and the remote address as they came; then, at
  info level, one access line with the client's address, the status the client got, and as route the
  registered pattern with its wildcards unexpanded (or the bare method, when the request was answered
  before it met a pattern, or met none), so that no paste key is in it. The only other line is that of a
  recovered panic, at error level and for a 500; it replaces the access line, and its path holds no
  paste key.
\<close>

theorem access_log:
  assumes "serve lib h env r st = (Some rep, st')"
  shows "\<exists>lines. sv_log st' = sv_log st @ forwarding lib r @ lines \<and>
    (lines = log_at lib LInfo (Access (logged_route h env r st) (rp_status rep)
         (clientIP r (cfg_TrustedProxyCount (h_cfg h)))) \<or>
     rp_status rep = 500 \<and> url_path r \<in> set panic_paths \<and>
       (\<exists>p. lines = log_at lib LError (Recovered p (url_path r)))) \<and>
    (logged_route h env r st \<in> set log_routes \<or> logged_route h env r st = rq_Method r @ '' (unmatched)'')"
proof -
  have route: "logged_route h env r st \<in> set log_routes \<or> logged_route h env r st = rq_Method r @ '' (unmatched)''"
    by (auto simp: logged_route_def route_pattern_logged split: option.split)
  show ?thesis
  proof (cases "preflight h r \<or> \<not> fst (lets_pass env r st)")
    case True
    then have "logged_route h env r st = rq_Method r @ '' (unmatched)''"
      by (auto simp: logged_route_def split: option.split)
    moreover have "honest (WriteHeader 204 (entry h r))" "honest (too_many (entry h r))"
      using status.ends_early [OF entry_fresh [of h r]] by auto
    ultimately show ?thesis
      using True assms by (cases "preflight h r") (auto simp: serve_eq answered_def log_entry_def honest_status)
  next
    case False
    obtain res w st1 where x: "reach lib h env r st = (res, w, st1)" by (cases "reach lib h env r st") auto
    have log: "sv_log st1 = sv_log st @ forwarding lib r" using reach_log(1) [of lib h env r st] x by simp
    show ?thesis
    proof (cases res)
      case Returns
      then have "honest w" using status.ends_reach [OF entry_fresh [of h r], of lib env st] x by simp
      moreover have "(if sv_pattern st1 = [] then rq_Method r @ '' (unmatched)'' else sv_pattern st1) = logged_route h env r st"
        using reach_log(2) [of lib h env r st] x False
        by (auto simp: logged_route_def route_pattern_logged log_routes_def split: option.splits dest: route_pattern_logged)
      ultimately show ?thesis
        using assms False x Returns log route by (auto simp: serve_eq answered_def log_entry_def honest_status)
    next
      case (Panics p)
      have "rs_sent w = None" using reach_ends(1) [of lib h env r st] x Panics by simp
      then have "rp_status (finish r (panicked w)) = 500" by (simp add: panicked_def finish_def)
      with assms False x Panics log route panic_path [of lib h env r st p w st1] show ?thesis
        by (auto simp: serve_eq)
    next
      case Hangs
      with assms False x show ?thesis by (simp add: serve_eq)
    qed
  qed
qed

lemma access_log_witness:
  "\<exists>rep st' lines. serve demo_lib (demo_server demo_cfg (NewRandom []) (backend_ops zero_hash id)) demo_env plain_request (demo_state demo_sqlite) = (Some rep, st') \<and>
     sv_log st' = lines \<and> (lines = [Access ''GET /'' (rp_status rep) ''10.0.0.1''] \<or> rp_status rep = 500)"
proof -
  obtain rep st' where x: "serve demo_lib (demo_server demo_cfg (NewRandom []) (backend_ops zero_hash id)) demo_env plain_request
      (demo_state demo_sqlite) = (Some rep, st')" by (rule demo_get)
  have ip: "clientIP plain_request 0 = ''10.0.0.1''"
    by (simp add: clientIP_def plain_request_def peer_host_def last_index_byte_def Let_def)
  have "mux_route (demo_server demo_cfg (NewRandom []) (backend_ops zero_hash id)) (rq_Method plain_request) (rq_segments plain_request)
      = Some RFrontend" by (simp add: mux_route_def plain_request_def public_route_def)
  then have "logged_route (demo_server demo_cfg (NewRandom []) (backend_ops zero_hash id)) demo_env plain_request
      (demo_state demo_sqlite) = ''GET /''" by (simp add: logged_route_def demo_not_preflight demo_limiter)
  with access_log [OF x] x ip show ?thesis by (auto simp: demo_cfg_def Defaults_def log_at_def forwarding_def)
qed

end
