(* ===== verification/Store_Facts.thy ===== *)
theory Store_Facts
  imports Backend
begin

text \<open>
  What the stores promise the rest of the program, as theorems on the store the server runs with
  (whichever backend that is): pastes are immutable and never overwritten, what was stored is
  read back, reads slide the deadline, a purge removes the expired pastes only, listings are
  sound; and where a backend falls short of it.
\<close>

section \<open>Common to all backends\<close>

definition a_handle :: string where
  "a_handle = replicate 64 (CHR ''a'')"

definition one_row :: table where
  "one_row = \<lparr>tb_rows = [\<lparr>row_id = 1, row_slug = ''k'', row_body = ''text'', row_created = 0, row_expires = Some 60\<rparr>],
     tb_next = 2\<rparr>"

lemma one_row_ok: "table_ok one_row"
  by (simp add: table_ok_def one_row_def)

text \<open>
  C24. Pastes are immutable. Whatever sequence of operations runs on the store, at whatever times
  and with whatever failures of the backend in between, the content of a stored paste stays what
  it is as long as the sequence has neither a deletion of its handle nor a purge.
\<close>

theorem paste_immutable:
  assumes "backend_ok s" and "backend_content s h = Some d"
    and "\<forall>(env, c) \<in> set cs. \<not> removes h c"
  shows "backend_content (store_run (backend_ops sha srt) cs s) h = Some d"
  using assms by (rule store.run_keeps)

lemma paste_immutable_witness:
  "backend_content (store_run (backend_ops zero_hash id)
     [(calm 0, CSet ''k'' ''other''), (calm 5, CGet ''k'' True), (calm 6, CDelete ''j''), (calm 7, CStats)]
     (Sqlite \<lparr>sq_db = one_row, sq_expire = 60\<rparr>)) ''k'' = Some ''text''"
  by (rule paste_immutable)
    (simp add: sqlite_ok_def one_row_ok, simp add: sqlite_content_def tb_content_def tb_lookup_def one_row_def, simp)

text \<open>
  The keys a working backend fails on rather than finding nothing: those that are no text for the
  database, and those whose file name somebody has given to a directory.
\<close>

fun backend_refuses :: "(string \<Rightarrow> bytes32) \<Rightarrow> backend \<Rightarrow> string \<Rightarrow> bool" where
  "backend_refuses sha (Postgres t) k = (\<not> pg_text t k)"
| "backend_refuses sha (Sqlite t) k = False"
| "backend_refuses sha (Files t) k = (\<exists>b. fmlookup (fs_dir t) (filename sha k) = Some (EDir b))"

lemma Get_missing:
  assumes "backend_ok s" and "io_ok env" and "\<not> backend_live env s (backend_slot sha s k)"
  shows "isl (fst (backend_Get sha env k bump s)) \<longleftrightarrow> backend_refuses sha s k"
proof (cases s)
  case (Postgres t)
  then have "sql_select k (micros (io_now env)) (pg_pool t) = None"
    using assms select_live [of "pg_pool t" k "micros (io_now env)"] by (auto simp: postgres_defs split: option.splits)
  with Postgres assms(2) show ?thesis by (simp add: postgres_Get_eq io_ok_def)
next
  case (Sqlite t)
  then have "sql_select k (unix env) (sq_db t) = None"
    using assms select_live [of "sq_db t" k "unix env"] by (auto simp: sqlite_defs split: option.splits)
  with Sqlite assms(2) show ?thesis by (simp add: sqlite_Get_eq io_ok_def)
next
  case (Files t)
  with assms(2,3) show ?thesis
    by (auto simp: file_Get_def io_ok_def file_live_def file_content_def filename_handle split: option.splits dirent.splits)
qed

text \<open>
  When a read fails: its first statement does, or the one that slides the deadline of the paste it found,
  or the backend refuses the key.
\<close>

definition slides :: "int \<Rightarrow> string \<Rightarrow> table \<Rightarrow> bool" where
  "slides now k tb \<longleftrightarrow> (case sql_select k now tb of Some r \<Rightarrow> row_expires r \<noteq> None | None \<Rightarrow> False)"

fun read_fails :: "(string \<Rightarrow> bytes32) \<Rightarrow> io_env \<Rightarrow> bool \<Rightarrow> backend \<Rightarrow> string \<Rightarrow> bool" where
  "read_fails sha env bump (Postgres t) k =
     (io_fail env 0 \<or> \<not> pg_text t k \<or>
      bump \<and> 0 < pg_expire t \<and> slides (micros (io_now env)) k (pg_pool t) \<and> io_fail env 1)"
| "read_fails sha env bump (Sqlite t) k =
     (io_fail env 0 \<or> bump \<and> 0 < sq_expire t \<and> slides (unix env) k (sq_db t) \<and> io_fail env 1)"
| "read_fails sha env bump (Files t) k =
     (io_fail env 0 \<or> (\<exists>b. fmlookup (fs_dir t) (filename sha k) = Some (EDir b)))"

lemma Get_fails: "isl (fst (backend_Get sha env k bump s)) \<longleftrightarrow> read_fails sha env bump s k"
proof (cases s)
  case (Files t)
  then show ?thesis by (auto simp: file_Get_def split: option.split dirent.split)
qed (auto simp: sqlite_Get_eq postgres_Get_eq slides_def split: option.split)

lemma read_fails_calm:
  assumes "backend_ok s" and "io_ok env"
  shows "read_fails sha env bump s k \<longleftrightarrow> \<not> backend_live env s (backend_slot sha s k) \<and> backend_refuses sha s k"
proof (cases "backend_live env s (backend_slot sha s k)")
  case True
  obtain d s' where "backend_Get sha env k bump s = (Inr (Some d), s')"
    by (rule store.get_live [OF assms True, of id bump]) simp
  with True Get_fails [of sha env k bump s] show ?thesis by simp
next
  case False
  with Get_missing [OF assms False, of bump] Get_fails [of sha env k bump s] show ?thesis by simp
qed

text \<open>
  C25. Round trip of the store. A successful \<open>Set\<close> met a free key, makes exactly this one change,
  and until the paste expires every \<open>Get\<close> of the key that the backend does not fail returns the
  data; a second \<open>Set\<close> of the key, with any data the backend takes, is refused as a duplicate.
\<close>

theorem set_then_get:
  assumes "backend_ok s" and "backend_Set sha env k d s = (None, s1)"
  shows "backend_content s (backend_slot sha s k) = None \<and>
    backend_content s1 = (backend_content s)(backend_slot sha s k \<mapsto> d) \<and>
    (\<forall>env' bump. io_ok env' \<and> backend_lasts env env' s1 \<longrightarrow>
       fst (backend_Get sha env' k bump s1) = Inr (Some d)) \<and>
    (\<forall>env' d'. io_ok env' \<and> backend_takes s1 d' \<longrightarrow> fst (backend_Set sha env' k d' s1) = Some ErrKeyExists)"
proof -
  have set: "op_Set (backend_ops sha id) env k d s = (None, s1)" using assms(2) by simp
  note stores = store.set_stores [OF assms(1) set]
  have ok: "backend_ok s1" using store.set_invar [OF assms(1), of sha id env k d] assms(2) by simp
  have slot: "backend_slot sha s1 = backend_slot sha s"
    using store.set_slot [of sha id env k d s] assms(2) by simp
  have "fst (backend_Get sha env' k bump s1) = Inr (Some d)"
    if "io_ok env'" "backend_lasts env env' s1" for env' bump
    using store.get_after_set [OF assms(1) set that, of bump] by simp
  moreover have "fst (backend_Set sha env' k d' s1) = Some ErrKeyExists"
    if "io_ok env'" "backend_takes s1 d'" for env' d'
    using store.set_taken_error [OF ok, of sha k env' d' id] stores slot that by simp
  ultimately show ?thesis using stores by blast
qed

lemma set_then_get_witness:
  "\<exists>s1. backend_Set zero_hash (calm 0) ''k'' ''d'' (Files \<lparr>fs_basePath = ''b'', fs_dir = fmempty\<rparr>) = (None, s1) \<and>
     fst (backend_Get zero_hash (calm 1) ''k'' True s1) = Inr (Some ''d'')"
proof -
  obtain s1 where s1: "backend_Set zero_hash (calm 0) ''k'' ''d'' (Files \<lparr>fs_basePath = ''b'', fs_dir = fmempty\<rparr>) = (None, s1)"
    by (simp add: file_Set_def Let_def)
  then have "backend_lasts (calm 0) (calm 1) s1" by (auto simp: file_Set_def Let_def)
  with set_then_get [OF _ s1] s1 show ?thesis by simp
qed

text \<open>
  A purge removes exactly the pastes no reader could see any more, reports their number in
  the databases, and changes no other; when it fails it changes nothing.
\<close>

lemma purge_exact:
  assumes "backend_ok s" and "backend_PurgeExpired env s = (res, s')"
  shows "(\<forall>h. backend_content s' h =
      (if isl res \<or> backend_live env s h then backend_content s h else None)) \<and>
    (\<forall>s0. s = Sqlite s0 \<and> \<not> isl res \<longrightarrow>
       res = Inr (int (length (filter (\<lambda>r. \<not> row_live (unix env) r) (tb_rows (sq_db s0))))))"
proof (cases s)
  case (Postgres t)
  with assms postgres_Purge_content [of t env] show ?thesis
    by (auto simp: postgres_PurgeExpired_eq split: if_splits)
next
  case (Sqlite t)
  with assms sqlite_Purge_content [of t env] show ?thesis
    by (auto simp: sqlite_PurgeExpired_eq sql_purge_def split: if_splits)
next
  case (Files t)
  with assms(2) show ?thesis by (auto simp: file_PurgeExpired_def file_live_def)
qed

lemma purge_exact_witness:
  "backend_content (snd (backend_PurgeExpired (calm (10 ^ 11)) (Sqlite \<lparr>sq_db = one_row, sq_expire = 60\<rparr>))) ''k'' = None"
proof -
  obtain res s' where p: "backend_PurgeExpired (calm (10 ^ 11)) (Sqlite \<lparr>sq_db = one_row, sq_expire = 60\<rparr>) = (res, s')"
    by fastforce
  then have "\<not> isl res" by (auto simp: sqlite_PurgeExpired_def Let_def split: prod.splits)
  moreover have "\<not> backend_live (calm (10 ^ 11)) (Sqlite \<lparr>sq_db = one_row, sq_expire = 60\<rparr>) ''k''"
    by (simp add: sqlite_live_def tb_live_def tb_lookup_def one_row_def row_live_def unix_def)
  ultimately show ?thesis
    using purge_exact [OF _ p] p one_row_ok by (simp add: sqlite_ok_def)
qed

lemma rows_listed:
  assumes "table_ok tb" and "m \<in> set (map f (sql_list now limit tb))"
    and "\<And>r. pm_Key (f r) = row_slug r \<and> pm_Size (f r) = int (length (row_body r))"
  shows "tb_live now tb (pm_Key m) \<and>
     (\<exists>d. tb_content tb (pm_Key m) = Some d \<and> pm_Size m = int (length d))"
proof -
  from assms(2) obtain r where r: "m = f r" "r \<in> set (tb_rows tb)" "row_live now r"
    by (auto simp: sql_list_eq [OF assms(1)] dest: in_set_takeD)
  then have "tb_lookup tb (row_slug r) = Some r"
    using assms(1) find_unique [of row_slug "tb_rows tb" r] by (simp add: tb_lookup_def table_ok_def)
  with r assms(3) show ?thesis by (simp add: tb_live_def tb_content_def)
qed

lemma distinct_rows:
  assumes "table_ok tb"
  shows "distinct (map row_slug (sql_list now limit tb))"
proof -
  have "distinct (map row_slug (filter (row_live now) (tb_rows tb)))"
    using assms by (simp add: table_ok_def distinct_map_filter)
  then show ?thesis
    by (simp add: sql_list_eq [OF assms] take_map [symmetric] rev_map [symmetric] distinct_take)
qed

lemma dir_pastes_entry:
  "(n, data, mtime) \<in> set (dir_pastes env s) \<Longrightarrow> isHexHandle n \<and> fmlookup (fs_dir s) n = Some (EFile data mtime)"
  by (auto simp: dir_pastes_def Let_def in_set_enumerate_eq set_concat dest!: nth_mem
      split: option.splits dirent.splits if_splits)

lemma dir_pastes_distinct: "distinct (map fst (dir_pastes env s))"
proof -
  define g where "g = (\<lambda>n. case fmlookup (fs_dir s) n of
      Some (EFile data mtime) \<Rightarrow> if isHexHandle n then [(n, data, mtime)] else [] | _ \<Rightarrow> [])"
  have g: "map fst (g n) = (if g n = [] then [] else [n])" for n
    by (simp add: g_def split: option.split dirent.split)
  have "map fst (concat (map g ns)) = filter (\<lambda>n. g n \<noteq> []) ns" for ns
    by (induction ns) (simp_all add: g)
  then have "distinct (map fst (concat (map g (sorted_list_of_fset (fmdom (fs_dir s))))))"
    by (simp add: sorted_list_of_fset.rep_eq)
  then have "distinct (map (fst \<circ> snd) (enumerate 0 (concat (map g (sorted_list_of_fset (fmdom (fs_dir s)))))))"
    by (simp flip: map_map)
  then have "distinct (map (fst \<circ> snd) (filter (\<lambda>(i, _). \<not> io_fail env (Suc i))
      (enumerate 0 (concat (map g (sorted_list_of_fset (fmdom (fs_dir s))))))))"
    by (rule distinct_map_filter)
  then show ?thesis by (simp add: dir_pastes_def Let_def g_def comp_def cong: map_cong)
qed

lemma file_List_rows:
  assumes "sorts_newest_first srt" and "file_List srt env limit s = (Inr ms, s')"
  obtains out where "ms = take (length ms) out" and "int (length ms) \<le> (if limit \<le> 0 then 500 else limit)"
    and "sorted_wrt (\<lambda>m m'. the (pm_Created m') \<le> the (pm_Created m)) out"
    and "mset out = mset (map (\<lambda>(n, data, mtime). \<lparr>pm_Key = n, pm_Size = int (length data),
        pm_Created = Some (mtime div 1000000000), pm_Expiration = None\<rparr>) (dir_pastes env s))"
proof -
  let ?out = "srt (map (\<lambda>(n, data, mtime). \<lparr>pm_Key = n, pm_Size = int (length data),
        pm_Created = Some (mtime div 1000000000), pm_Expiration = None\<rparr>) (dir_pastes env s))"
  have ms: "ms = (let limit = (if limit \<le> 0 then DefaultListLimit else limit)
      in if limit < int (length ?out) then take (nat limit) ?out else ?out)"
    using assms(2) by (auto simp: file_List_def Let_def split: if_splits)
  show thesis
  proof (rule that [of ?out])
    show "ms = take (length ms) ?out" by (simp add: ms Let_def)
    show "int (length ms) \<le> (if limit \<le> 0 then 500 else limit)" by (simp add: ms Let_def DefaultListLimit_def)
  qed (use assms(1) in \<open>auto simp: sorts_newest_first_def\<close>)
qed

lemma file_list_sound:
  assumes "sorts_newest_first srt" and "file_List srt env limit t = (Inr ms, t')"
  shows "distinct (map pm_Key ms) \<and> int (length ms) \<le> (if limit \<le> 0 then 500 else limit) \<and>
    (\<forall>m \<in> set ms. file_live env t (pm_Key m) \<and>
       (\<exists>d. file_content t (pm_Key m) = Some d \<and> pm_Size m = int (length d)) \<and> pm_Expiration m = None)"
proof -
  from file_List_rows [OF assms] obtain out where ms: "ms = take (length ms) out"
    and len: "int (length ms) \<le> (if limit \<le> 0 then 500 else limit)"
    and out: "mset out = mset (map (\<lambda>(n, data, mtime). \<lparr>pm_Key = n, pm_Size = int (length data),
        pm_Created = Some (mtime div 1000000000), pm_Expiration = None\<rparr>) (dir_pastes env t))" by blast
  have "mset (map pm_Key out) = mset (map fst (dir_pastes env t))"
    using arg_cong [OF out, of "image_mset pm_Key"] by (simp add: comp_def case_prod_beta flip: mset_map)
  then have "distinct (map pm_Key out)" using dir_pastes_distinct [of env t] by (metis mset_eq_imp_distinct_iff)
  then have "distinct (map pm_Key ms)" by (subst ms) (simp add: take_map [symmetric] distinct_take)
  moreover have "file_live env t (pm_Key m) \<and> (\<exists>d. file_content t (pm_Key m) = Some d \<and> pm_Size m = int (length d)) \<and>
      pm_Expiration m = None"
    if "m \<in> set ms" for m
  proof -
    from that ms have "m \<in> set out" by (metis in_set_takeD)
    then obtain n data mtime where "m = \<lparr>pm_Key = n, pm_Size = int (length data),
        pm_Created = Some (mtime div 1000000000), pm_Expiration = None\<rparr>" "(n, data, mtime) \<in> set (dir_pastes env t)"
      using mset_eq_setD [OF out] by auto
    with dir_pastes_entry [of n data mtime env t] show ?thesis by (simp add: file_live_def file_content_def)
  qed
  ultimately show ?thesis using len by blast
qed

text \<open>
  Listings tell the truth: every row of a successful \<open>List\<close> is a live paste of this handle
  with this size, no paste is listed twice, and never more than the limit (500 when none is
  given) are listed.
\<close>

lemma list_sound:
  assumes "backend_ok s" and "sorts_newest_first srt" and "backend_List srt env limit s = (Inr ms, s')"
  shows "s' = s \<and> distinct (map pm_Key ms) \<and> int (length ms) \<le> (if limit \<le> 0 then 500 else limit) \<and>
    (\<forall>m \<in> set ms. backend_live env s (pm_Key m) \<and>
       (\<exists>d. backend_content s (pm_Key m) = Some d \<and> pm_Size m = int (length d)))"
proof (cases s)
  case (Postgres t)
  define f where "f = (\<lambda>r :: row. \<lparr>pm_Key = row_slug r, pm_Size = int (length (row_body r)),
      pm_Created = Some (pg_epoch (row_created r)), pm_Expiration = map_option pg_epoch (row_expires r)\<rparr>)"
  from assms(3) Postgres have "s' = s" and ms: "ms = map f (sql_list (micros (io_now env))
      (if limit \<le> 0 then DefaultListLimit else limit) (pg_pool t))"
    by (auto simp: postgres_List_def Let_def f_def split: if_splits)
  moreover have ok: "table_ok (pg_pool t)" using assms(1) Postgres by (simp add: postgres_ok_def)
  moreover have "pm_Key \<circ> f = row_slug" by (simp add: f_def comp_def)
  ultimately show ?thesis
    using rows_listed [OF ok, of _ f] distinct_rows [OF ok] Postgres
    by (auto simp: f_def postgres_live_def postgres_content_def sql_list_def DefaultListLimit_def)
next
  case (Sqlite t)
  define f where "f = (\<lambda>r :: row. \<lparr>pm_Key = row_slug r, pm_Size = int (length (row_body r)),
      pm_Created = Some (row_created r), pm_Expiration = row_expires r\<rparr>)"
  from assms(3) Sqlite have "s' = s" and ms: "ms = map f (sql_list (unix env)
      (if limit \<le> 0 then DefaultListLimit else limit) (sq_db t))"
    by (auto simp: sqlite_List_def Let_def f_def split: if_splits)
  moreover have ok: "table_ok (sq_db t)" using assms(1) Sqlite by (simp add: sqlite_ok_def)
  moreover have "pm_Key \<circ> f = row_slug" by (simp add: f_def comp_def)
  ultimately show ?thesis
    using rows_listed [OF ok, of _ f] distinct_rows [OF ok] Sqlite
    by (auto simp: f_def sqlite_live_def sqlite_content_def sql_list_def DefaultListLimit_def)
next
  case (Files t)
  with assms(3) obtain t' where l: "file_List srt env limit t = (Inr ms, t')" and s': "s' = Files t'"
    by (auto simp: apsnd_eq)
  with file_List_reads [of srt env limit t] Files have "s' = s" by simp
  with file_list_sound [OF assms(2) l] Files show ?thesis by simp
qed

lemma sorts_exist: "sorts_newest_first (\<lambda>ms. rev (sort_key (\<lambda>m. the (pm_Created m)) ms))"
proof -
  have "sorted_wrt (\<lambda>m m'. the (pm_Created m) \<le> the (pm_Created m')) (sort_key (\<lambda>m. the (pm_Created m)) ms)"
    for ms :: "PasteMeta list"
    using sorted_sort_key [of "\<lambda>m. the (pm_Created m)" ms] by (simp add: sorted_map)
  then show ?thesis by (simp add: sorts_newest_first_def sorted_wrt_rev)
qed

lemma list_sound_witness:
  "backend_List (\<lambda>ms. rev (sort_key (\<lambda>m. the (pm_Created m)) ms)) (calm 0) 0
      (Sqlite \<lparr>sq_db = one_row, sq_expire = 60\<rparr>) =
    (Inr [\<lparr>pm_Key = ''k'', pm_Size = 4, pm_Created = Some 0, pm_Expiration = Some 60\<rparr>],
     Sqlite \<lparr>sq_db = one_row, sq_expire = 60\<rparr>) \<and>
   backend_live (calm 0) (Sqlite \<lparr>sq_db = one_row, sq_expire = 60\<rparr>) ''k''"
proof -
  have l: "backend_List (\<lambda>ms. rev (sort_key (\<lambda>m. the (pm_Created m)) ms)) (calm 0) 0
      (Sqlite \<lparr>sq_db = one_row, sq_expire = 60\<rparr>) =
    (Inr [\<lparr>pm_Key = ''k'', pm_Size = 4, pm_Created = Some 0, pm_Expiration = Some 60\<rparr>],
     Sqlite \<lparr>sq_db = one_row, sq_expire = 60\<rparr>)"
    by (simp add: sqlite_List_def sql_list_def one_row_def row_live_def unix_def DefaultListLimit_def)
  have "backend_ok (Sqlite \<lparr>sq_db = one_row, sq_expire = 60\<rparr>)" by (simp add: sqlite_ok_def one_row_ok)
  from list_sound [OF this sorts_exist l] l show ?thesis by simp
qed

section \<open>Sliding expiry\<close>

lemma touch_other:
  assumes "table_ok tb" and "tb_lookup tb k = Some r" and "h \<noteq> k"
  shows "tb_lookup (sql_touch (row_id r) e tb) h = tb_lookup tb h"
proof (cases "tb_lookup tb h")
  case (Some r')
  with assms have "r \<in> set (tb_rows tb)" "r' \<in> set (tb_rows tb)" "r \<noteq> r'"
    using lookup_slug [of tb k r] lookup_slug [of tb h r'] by auto
  moreover have "distinct (map row_id (tb_rows tb))"
    using assms(1) by (simp add: table_ok_def strict_sorted_iff)
  ultimately have "row_id r' \<noteq> row_id r" by (auto simp: distinct_map inj_on_def)
  with Some show ?thesis by (simp add: touch_lookup)
qed (simp add: touch_lookup)

lemma touched_live:
  assumes "table_ok tb" and "tb_lookup tb k = Some r"
  shows "tb_live now (sql_touch (row_id r) e tb) h = (if h = k then now < e else tb_live now tb h)"
proof (cases "h = k")
  case True
  with assms(2) show ?thesis by (simp add: tb_live_def touch_lookup row_live_def)
next
  case False
  with touch_other [OF assms False] show ?thesis by (simp add: tb_live_def)
qed

lemma never_expires: "tb_lookup tb k = Some r \<Longrightarrow> row_expires r = None \<Longrightarrow> tb_live now tb k"
  by (simp add: tb_live_def row_live_def)

text \<open>
  C20. Reading keeps a paste alive. With a database backend that expires pastes, a read that finds
  a paste slides its deadline: the paste lasts from then on as long as one that is written now. No
  other paste's deadline moves, and a probe, as \<open>chooseKey\<close> and the reads of preloaded pastes make
  it, moves none.
\<close>

theorem read_slides_deadline:
  assumes "backend_ok s" and "backend_Get sha env k True s = (Inr (Some d), s')"
    and "case s of Postgres t \<Rightarrow> 0 < pg_expire t | Sqlite t \<Rightarrow> 0 < sq_expire t | Files t \<Rightarrow> True"
  shows "(\<forall>env'. backend_lasts env env' s \<longrightarrow> backend_live env' s' (backend_slot sha s k)) \<and>
    (\<forall>env' h. h \<noteq> backend_slot sha s k \<longrightarrow> backend_live env' s' h = backend_live env' s h) \<and>
    snd (backend_Get sha env k False s) = s"
proof (cases s)
  case (Postgres t)
  with assms(2) obtain t' where g: "postgres_Get env k True t = (Inr (Some d), t')" "s' = Postgres t'" by (auto simp: apsnd_eq)
  have ok: "table_ok (pg_pool t)" using assms(1) Postgres by (simp add: postgres_ok_def)
  from g(1) obtain r where r: "tb_lookup (pg_pool t) k = Some r"
    and t': "t' = (if row_expires r = None then t else t\<lparr>pg_pool := sql_touch (row_id r) (pg_deadline env t) (pg_pool t)\<rparr>)"
    using assms(3) Postgres by (auto simp: postgres_Get_eq sql_select_eq [OF ok] split: if_splits option.splits)
  with Postgres g assms(3) show ?thesis
    using postgres_Get_probe [of env k t]
    by (auto simp: postgres_live_def postgres_lasts_def touched_live [OF ok r] never_expires split: if_splits)
next
  case (Sqlite t)
  with assms(2) obtain t' where g: "sqlite_Get env k True t = (Inr (Some d), t')" "s' = Sqlite t'" by (auto simp: apsnd_eq)
  have ok: "table_ok (sq_db t)" using assms(1) Sqlite by (simp add: sqlite_ok_def)
  from g(1) obtain r where r: "tb_lookup (sq_db t) k = Some r"
    and t': "t' = (if row_expires r = None then t
      else t\<lparr>sq_db := sql_touch (row_id r) (wrap64 (unix env + sq_expire t)) (sq_db t)\<rparr>)"
    using assms(3) Sqlite by (auto simp: sqlite_Get_eq sql_select_eq [OF ok] split: if_splits option.splits)
  with Sqlite g assms(3) show ?thesis
    using sqlite_Get_probe [of env k t]
    by (auto simp: sqlite_live_def sqlite_lasts_def touched_live [OF ok r] never_expires split: if_splits)
next
  case (Files t)
  with assms(2) file_Get_reads [of sha env k True t] file_Get_reads [of sha env k False t]
    file_Get_found [of sha env k True t "Some d" t] show ?thesis
    by (auto simp: apsnd_eq file_live_def dest!: sym [of "Some d"] split: if_splits)
qed

lemma read_slides_deadline_witness:
  "\<exists>s'. backend_Get zero_hash (calm (50 * 10 ^ 9)) ''k'' True (Sqlite \<lparr>sq_db = one_row, sq_expire = 60\<rparr>) = (Inr (Some ''text''), s') \<and>
     backend_live (calm (100 * 10 ^ 9)) s' ''k''"
proof -
  let ?s = "Sqlite \<lparr>sq_db = one_row, sq_expire = 60\<rparr>"
  obtain s' where g: "backend_Get zero_hash (calm (50 * 10 ^ 9)) ''k'' True ?s = (Inr (Some ''text''), s')"
    by (simp add: sqlite_Get_def sql_select_def one_row_def row_live_def unix_def Let_def)
  have "backend_ok ?s" by (simp add: sqlite_ok_def one_row_ok)
  moreover have "backend_lasts (calm (50 * 10 ^ 9)) (calm (100 * 10 ^ 9)) ?s"
    by (simp add: sqlite_lasts_def unix_def wrap64_nonneg)
  ultimately show ?thesis using read_slides_deadline [OF _ g] g by simp
qed

section \<open>Secrets in error messages\<close>

lemma redactDSN_masks:
  "parse dsn = Some u \<Longrightarrow> url_User u = Some (Userinfo name (Some pw)) \<Longrightarrow>
   redactDSN parse str dsn = str (u\<lparr>url_User := Some (Userinfo name (Some ''xxxxx''))\<rparr>)"
  by (simp add: redactDSN_def)

lemma scrubDSN_removes:
  assumes "dsn \<noteq> []" and "parse dsn = Some u" and "url_User u = Some (Userinfo name (Some pw))"
    and "pw \<noteq> []" and "CHR ''x'' \<notin> set pw"
  shows "\<not> sublist pw (scrubDSN parse str msg dsn)"
proof -
  have "scrubDSN parse str msg dsn = replace_all (replace_all msg dsn (redactDSN parse str dsn)) pw ''xxxxx''"
    using assms scrubDSN_password [where ui = "Userinfo name (Some pw)"] by simp
  moreover have "set pw \<inter> set ''xxxxx'' = {}" using assms(5) by auto
  ultimately show ?thesis using replace_all_removes [of pw "''xxxxx''"] assms(4) by simp
qed

text \<open>
  C22. The password of a connection URL stays out of the errors of the start-up. When the connection
  string parses as a URL whose user has a password, every error \<open>newPostgres\<close> can return is made of a fixed
  text, of that URL with the password replaced by the mask, and of the driver's message, in which, scrubbed,
  the password does not occur any more, neither bare nor inside the connection string, whatever the driver
  had written. A password that shares a byte with the mask is excepted: there the mask itself can spell it.
\<close>

theorem password_scrubbed:
  assumes "newPostgres env parse str errText pool accepts cfg = Inl (StoreErr msg)"
    and "dsn = (if stg_URL cfg = [] then buildDSN cfg else stg_URL cfg)" and "parse dsn = Some u"
    and "url_User u = Some (Userinfo name (Some pw))" and "pw \<noteq> []" and "CHR ''x'' \<notin> set pw"
  shows "\<exists>head rest. msg = head @ rest \<and>
    head \<in> {''postgres connect ('' @ str (u\<lparr>url_User := Some (Userinfo name (Some ''xxxxx''))\<rparr>) @ ''): '',
      ''postgres ping ('' @ str (u\<lparr>url_User := Some (Userinfo name (Some ''xxxxx''))\<rparr>) @ ''): '',
      ''postgres init schema: ''} \<and>
    (\<exists>n. rest = scrubDSN parse str (errText n) dsn) \<and> \<not> sublist pw rest"
proof -
  have dsn: "dsn \<noteq> []" using assms(2) by (auto simp: buildDSN_def Let_def split: if_splits)
  note clean = scrubDSN_removes [where parse = parse and dsn = dsn and str = str, OF dsn assms(3-6)]
  let ?R = "str (u\<lparr>url_User := Some (Userinfo name (Some ''xxxxx''))\<rparr>)"
  from assms(1) redactDSN_masks [where parse = parse and dsn = dsn and str = str, OF assms(3,4)] consider
      "msg = (''postgres connect ('' @ ?R @ ''): '') @ scrubDSN parse str (errText 0) dsn"
    | "msg = (''postgres ping ('' @ ?R @ ''): '') @ scrubDSN parse str (errText 1) dsn"
    | "msg = ''postgres init schema: '' @ scrubDSN parse str (errText 2) dsn"
    unfolding newPostgres_def assms(2) [symmetric] Let_def by (auto split: if_splits)
  then show ?thesis using clean by cases blast+
qed

definition secret_url :: url where
  "secret_url = \<lparr>url_User = Some (Userinfo ''u'' (Some ''secret'')), url_Host = ''db'', url_rest = []\<rparr>"

definition secret_storage :: Storage where
  "secret_storage = zero_Storage\<lparr>stg_URL := ''postgres://u:secret@db''\<rparr>"

lemma password_scrubbed_witness:
  "\<exists>msg head rest. newPostgres ((calm 0)\<lparr>io_fail := (\<lambda>_. True)\<rparr>) (\<lambda>_. Some secret_url) (\<lambda>_. ''postgres://u:xxxxx@db'')
     (\<lambda>_. ''cannot parse postgres://u:secret@db (secret)'') (\<lambda>_. None) (\<lambda>_. True) secret_storage = Inl (StoreErr msg) \<and>
     msg = head @ rest \<and> \<not> sublist ''secret'' rest \<and>
     head \<in> {''postgres connect (postgres://u:xxxxx@db): '', ''postgres ping (postgres://u:xxxxx@db): '', ''postgres init schema: ''}"
proof -
  let ?new = "newPostgres ((calm 0)\<lparr>io_fail := (\<lambda>_. True)\<rparr>) (\<lambda>_. Some secret_url) (\<lambda>_. ''postgres://u:xxxxx@db'')
     (\<lambda>_. ''cannot parse postgres://u:secret@db (secret)'') (\<lambda>_. None) (\<lambda>_. True) secret_storage"
  have "\<exists>msg. ?new = Inl (StoreErr msg)" by (simp add: newPostgres_def Let_def)
  then obtain msg where m: "?new = Inl (StoreErr msg)" by blast
  have "url_User secret_url = Some (Userinfo ''u'' (Some ''secret''))" by (simp add: secret_url_def)
  from password_scrubbed [OF m refl _ this] obtain head rest where "msg = head @ rest" "\<not> sublist ''secret'' rest"
    "head \<in> {''postgres connect ('' @ ''postgres://u:xxxxx@db'' @ ''): '', ''postgres ping ('' @ ''postgres://u:xxxxx@db'' @ ''): '',
      ''postgres init schema: ''}" by auto
  with m show ?thesis by (intro exI [of _ msg] exI [of _ head] exI [of _ rest]) simp
qed

text \<open>
  For a connection string that does not parse nothing is scrubbed: the message with the whole string
  in it is passed on, although the comment at \<open>redactDSN\<close> relies on \<open>scrubDSN\<close> for that case.
\<close>

lemma unparsed_not_scrubbed:
  "parse dsn = None \<Longrightarrow> scrubDSN parse str (a @ dsn @ b) dsn = a @ dsn @ b"
  by (rule scrubDSN_unparsed)

text \<open>
  Nor when the password is anywhere but in the user part of a URL: in a query (\<open>?password=\<close>) or in a
  string of keywords and values, both of which the driver takes, it is neither masked nor scrubbed.
\<close>

lemma outside_user_not_masked:
  "parse dsn = Some u \<Longrightarrow> url_User u = None \<Longrightarrow>
   redactDSN parse str dsn = dsn \<and> scrubDSN parse str (a @ dsn @ b) dsn = a @ dsn @ b"
  by (simp add: redactDSN_def scrubDSN_no_user)

section \<open>Where a backend falls short\<close>

text \<open>
  A lifetime of 106752 days or more overflows the nanoseconds of a duration: PostgreSQL pastes then
  get a deadline in the past and are dead on arrival, while SQLite, which adds seconds, is not
  affected.
\<close>

lemma postgres_lifetime_overflows:
  "pg_expire t = 106752 * 86400 \<Longrightarrow> pg_deadline env t < micros (io_now env)"
  by (simp add: pg_deadline_def wrap64_def micros_def)

text \<open>
  A write of the file backend that fails half-way is reported as a failure, but what was written
  stays: the key is taken for good by a truncated paste that readers see.
\<close>

lemma file_failed_write_stays:
  assumes "fmlookup (fs_dir t) (filename sha k) = None" and "\<not> io_fail env 0" and "io_fail env 1"
  shows "\<exists>t'. file_Set sha env k d t = (Some (StoreErr ''file store write''), t') \<and>
    file_content t' (filename sha k) = Some (take (io_written env) d)"
  using assms filename_handle [of sha k] by (simp add: file_Set_def file_content_def)

end
