(* ===== verification/Paste_Facts.thy ===== *)
theory Paste_Facts
  imports Reply_Facts Store_Facts
begin

text \<open>
  The paste API as its clients see it, over whole requests and the store the server runs with:
  what is accepted, what is stored under which key, how long it stays, and who can remove it.
\<close>

section \<open>Requests that reach a handler\<close>

lemma serve_route_answer:
  assumes "mux_route h (rq_Method r) (rq_segments r) = Some rt" and "\<not> preflight h r" and "fst (lets_pass env r st)"
    and "serve_route lib h (case console h of Some m \<Rightarrow> m | None \<Rightarrow> no_manager) env rt r (entry h r)
      ((begun lib r st)\<lparr>sv_limiter := snd (lets_pass env r st), sv_pattern := route_pattern (rq_Method r) rt\<rparr>) = (Returns, w, st')"
  shows "serve lib h env r st = answered lib h r w st'"
proof -
  have "reach lib h env r st = (Returns, w, st')" using assms(1,4) by (simp add: reach_def mux_def)
  with assms(2,3) show ?thesis by (simp add: serve_eq)
qed

lemma get_not_preflight: "rq_Method r = ''GET'' \<or> rq_Method r = ''HEAD'' \<or> rq_Method r = ''POST'' \<Longrightarrow> \<not> preflight h r"
  by (auto simp: preflight_def)

lemma route_method:
  "mux_route h meth segs = Some (RGet k) \<Longrightarrow> meth = ''GET'' \<or> meth = ''HEAD''"
  "mux_route h meth segs = Some (RRawGet k) \<Longrightarrow> meth = ''GET'' \<or> meth = ''HEAD''"
  "mux_route h meth segs = Some RPost \<Longrightarrow> meth = ''POST''"
  by (auto simp: mux_route_def admin_route_def public_route_def Let_def split: option.splits if_splits list.splits)

lemma post_reply:
  assumes "mux_route h (rq_Method r) (rq_segments r) = Some RPost"
    and "serve lib h env r st = (Some rep, st1)" and "rp_status rep = 201"
  obtains w' st' where "handlePost lib h env r (entry h r)
      ((begun lib r st)\<lparr>sv_limiter := snd (lets_pass env r st), sv_pattern := ''POST /api/pastes''\<rparr>) = (Returns, w', st')"
    and "rep = finish r w'" and "sv_store st1 = sv_store st'"
proof (rule serve_cases [where lib = lib and h = h and env = env and r = r and st = st], goal_cases)
  case (1 w l)
  with assms show ?case by (auto simp: answered_def too_many_def finish_def)
next
  case (2 w st')
  with assms that [of w st'] show ?case by (auto simp: answered_def reach_def mux_def)
next
  case (3 p w st')
  moreover from 3 have "rs_sent w = None" using reach_ends(1) [of lib h env r st] by simp
  ultimately show ?case using assms by (auto simp: panicked_def finish_def)
qed (use assms in simp)

section \<open>A concrete run\<close>

definition demo_web :: "backend server" where
  "demo_web = demo_server (demo_cfg\<lparr>cfg_KeyLength := 2\<rparr>) (NewRandom []) (backend_ops zero_hash id)"

lemma demo_web_simps [simp]: "h_store demo_web = backend_ops zero_hash id" "h_keygen demo_web = NewRandom []"
    "cfg_KeyLength (h_cfg demo_web) = 2" "console demo_web = None" "backend_ok demo_sqlite"
    "cfg_MaxLength (h_cfg demo_web) = cfg_MaxLength demo_cfg"
  by (simp_all add: demo_web_def demo_sqlite_def sqlite_ok_def)

lemma demo_key: "CreateKey first_rand (NewRandom []) 2 () = (Inr ''AA'', ())"
  by (simp add: NewRandom_default pick_def randInt_def first_rand_def defaultKeyspace_def numeral_2_eq_2)

lemma demo_posted_with:
  assumes "post_data demo_lib (demo_server cfg (NewRandom []) (backend_ops zero_hash id)) demo_post = Some body"
    and "cfg_KeyLength cfg = 2"
  obtains rep st1 where "serve demo_lib (demo_server cfg (NewRandom []) (backend_ops zero_hash id)) demo_env demo_post
      (demo_state demo_sqlite) = (Some rep, st1)"
    and "rp_status rep = 201"
proof -
  let ?h = "demo_server cfg (NewRandom []) (backend_ops zero_hash id)"
  have probe: "backend_Get zero_hash (calm 0) ''AA'' False demo_sqlite = (Inr None, demo_sqlite)"
    by (simp add: demo_sqlite_def sqlite_Get_def sql_select_def empty_table_def Let_def)
  obtain s1 where set: "backend_Set zero_hash (calm 0) ''AA'' body demo_sqlite = (None, s1)"
    by (simp add: demo_sqlite_def sqlite_Set_def sql_insert_def slug_taken_def empty_table_def Let_def)
  have "chooseKey first_rand ?h demo_env 0 () demo_sqlite = Some (KeyFree ''AA'', 1, (), demo_sqlite)"
    by (simp add: chooseKey.simps assms(2) demo_key probe)
  then have "\<exists>st'. reach demo_lib ?h demo_env demo_post (demo_state demo_sqlite) =
      (Returns, writeJSON demo_post 201 (JObj [(''id'', JStr ''AA'')]) (entry ?h demo_post), st')"
    using demo_reach_post [OF assms(1)] by (simp add: storePaste_def set)
  then show thesis
    using that by (auto simp: serve_eq demo_not_preflight demo_limiter answered_def writeJSON_status)
qed

lemma demo_posted:
  obtains rep st1 where "serve demo_lib demo_web demo_env demo_post (demo_state demo_sqlite) = (Some rep, st1)"
    and "rp_status rep = 201"
  by (rule demo_posted_with [of "demo_cfg\<lparr>cfg_KeyLength := 2\<rparr>" "''hello''", folded demo_web_def])
    (simp_all add: demo_web_def demo_post_data)

definition demo_get_request :: "string \<Rightarrow> http_request" where
  "demo_get_request k = plain_request\<lparr>rq_segments := [''api'', ''pastes'', k, ''raw'']\<rparr>"

lemma demo_get_route: "wild k \<Longrightarrow> mux_route demo_web (rq_Method (demo_get_request k)) (rq_segments (demo_get_request k))
      = Some (RRawGet k)" "\<not> is_head (demo_get_request k)"
  by (simp_all add: mux_route_def demo_get_request_def public_route_def is_head_def plain_request_def)

section \<open>Reading\<close>

lemma raw_reply:
  assumes "rs_sent w = None"
  shows "is_head r \<Longrightarrow> rp_status (finish r (WriteHeader 200 (set_header k x w))) = 200"
    and "\<not> is_head r \<Longrightarrow> rp_status (finish r (write_body d (WriteHeader 200 (set_header k x w)))) = 200"
    and "is_head r \<Longrightarrow> rp_body (finish r (WriteHeader 200 (set_header k x w))) = []"
    and "\<not> is_head r \<Longrightarrow> rp_body (finish r (write_body d (WriteHeader 200 (set_header k x w)))) = rs_body w @ d"
  using assms by (simp_all add: finish_def)

lemma handle_read:
  assumes "h_store h = backend_ops sha srt" and "backend_ok s" and "sv_store st = s"
    and "rs_sent w = None" and "rs_body w = []"
    and "x = handleGet h env ident r w st \<and> form = (\<lambda>d. json_encode (JObj [(''content'', JStr d), (''id'', JStr (keyParam ident))]) @ [CHR 0x0A])
      \<or> x = handleRawGet h env ident r w st \<and> form = (\<lambda>d. d)"
  shows "\<exists>w' st'. x = (Returns, w', st') \<and> backend_content (sv_store st') = backend_content s \<and>
    (if read_fails sha (ce_io env 0) (bump h (keyParam ident)) s (keyParam ident)
     then rp_status (finish r w') = 500
     else if backend_live (ce_io env 0) s (backend_slot sha s (keyParam ident))
     then rp_status (finish r w') = 200 \<and>
       (\<exists>d. backend_content s (backend_slot sha s (keyParam ident)) = Some d \<and>
          rp_body (finish r w') = (if is_head r then [] else form d))
     else rp_status (finish r w') = 404)"
proof -
  let ?b = "bump h (keyParam ident)"
  obtain res s' where g: "backend_Get sha (ce_io env 0) (keyParam ident) ?b s = (res, s')" by fastforce
  have content: "backend_content s' = backend_content s"
    using store.get_content [OF assms(2), of sha srt "ce_io env 0" "keyParam ident" ?b] g by simp
  have fails: "read_fails sha (ce_io env 0) ?b s (keyParam ident) \<longleftrightarrow> isl res"
    using Get_fails [of sha "ce_io env 0" "keyParam ident" ?b s] g by simp
  show ?thesis
  proof (cases res)
    case (Inl e)
    with g content fails assms(1,3,4,6) show ?thesis
      by (auto simp: handleGet_def handleRawGet_def Let_def writeError_status)
  next
    case (Inr found)
    with store.get_found [OF assms(2), of sha srt "ce_io env 0" "keyParam ident" ?b found s'] g
    have found: "found = (if backend_live (ce_io env 0) s (backend_slot sha s (keyParam ident))
        then backend_content s (backend_slot sha s (keyParam ident)) else None)" by simp
    show ?thesis
    proof (cases found)
      case None
      then have "\<not> backend_live (ce_io env 0) s (backend_slot sha s (keyParam ident))"
        using found store.live_content [of "ce_io env 0" s] by (metis option.distinct(1))
      with Inr None g content fails assms(1,3,4,6) show ?thesis
        by (auto simp: handleGet_def handleRawGet_def Let_def writeError_status)
    next
      case (Some d)
      then have "backend_live (ce_io env 0) s (backend_slot sha s (keyParam ident))"
        "backend_content s (backend_slot sha s (keyParam ident)) = Some d" using found by (simp_all split: if_splits)
      with Inr Some g content fails assms(1,3-6) show ?thesis
        by (auto simp: handleGet_def handleRawGet_def Let_def writeJSON_status writeJSON_body raw_reply)
    qed
  qed
qed

definition read_form :: "'s server \<Rightarrow> http_request \<Rightarrow> string \<Rightarrow> string \<Rightarrow> string" where
  "read_form h r ident d = (if mux_route h (rq_Method r) (rq_segments r) = Some (RRawGet ident) then d
     else json_encode (JObj [(''content'', JStr d), (''id'', JStr (keyParam ident))]) @ [CHR 0x0A])"

lemma read_outcome:
  assumes "h_store h = backend_ops sha srt" and "backend_ok (sv_store st)"
    and "mux_route h (rq_Method r) (rq_segments r) \<in> {Some (RGet ident), Some (RRawGet ident)}"
    and "fst (lets_pass env r st)"
  shows "\<exists>rep st'. serve lib h env r st = (Some rep, st') \<and>
    backend_content (sv_store st') = backend_content (sv_store st) \<and>
    (if read_fails sha (ce_io env 0) (bump h (keyParam ident)) (sv_store st) (keyParam ident)
     then rp_status rep = 500
     else if backend_live (ce_io env 0) (sv_store st) (backend_slot sha (sv_store st) (keyParam ident))
     then rp_status rep = 200 \<and>
       (\<exists>d. backend_content (sv_store st) (backend_slot sha (sv_store st) (keyParam ident)) = Some d \<and>
          rp_body rep = (if is_head r then [] else read_form h r ident d))
     else rp_status rep = 404)"
proof -
  from assms(3) obtain rt where rt: "mux_route h (rq_Method r) (rq_segments r) = Some rt"
    and rt_cases: "rt = RGet ident \<or> rt = RRawGet ident" by blast
  let ?st = "(begun lib r st)\<lparr>sv_limiter := snd (lets_pass env r st), sv_pattern := route_pattern (rq_Method r) rt\<rparr>"
  let ?m = "case console h of Some m \<Rightarrow> m | None \<Rightarrow> no_manager"
  have "\<not> preflight h r"
    using route_method(1,2) [where h = h and k = ident] rt rt_cases by (intro get_not_preflight) blast
  note answer = serve_route_answer [OF rt this assms(4), of lib]
  have "\<exists>w' st'. serve_route lib h ?m env rt r (entry h r) ?st = (Returns, w', st') \<and>
      backend_content (sv_store st') = backend_content (sv_store st) \<and>
    (if read_fails sha (ce_io env 0) (bump h (keyParam ident)) (sv_store st) (keyParam ident)
     then rp_status (finish r w') = 500
     else if backend_live (ce_io env 0) (sv_store st) (backend_slot sha (sv_store st) (keyParam ident))
     then rp_status (finish r w') = 200 \<and>
       (\<exists>d. backend_content (sv_store st) (backend_slot sha (sv_store st) (keyParam ident)) = Some d \<and>
          rp_body (finish r w') = (if is_head r then [] else read_form h r ident d))
     else rp_status (finish r w') = 404)"
    by (rule handle_read [where st = ?st and w = "entry h r" and ident = ident, OF assms(1,2)])
      (use rt rt_cases in \<open>auto simp: read_form_def fun_eq_iff\<close>)
  then obtain w' st' where x: "serve_route lib h ?m env rt r (entry h r) ?st = (Returns, w', st')"
    and rest: "backend_content (sv_store st') = backend_content (sv_store st)"
      "if read_fails sha (ce_io env 0) (bump h (keyParam ident)) (sv_store st) (keyParam ident)
     then rp_status (finish r w') = 500
     else if backend_live (ce_io env 0) (sv_store st) (backend_slot sha (sv_store st) (keyParam ident))
     then rp_status (finish r w') = 200 \<and>
       (\<exists>d. backend_content (sv_store st) (backend_slot sha (sv_store st) (keyParam ident)) = Some d \<and>
          rp_body (finish r w') = (if is_head r then [] else read_form h r ident d))
     else rp_status (finish r w') = 404" by auto
  from answer [OF x] have
    "serve lib h env r st = (Some (finish r w'), st'\<lparr>sv_log := sv_log st' @ log_entry lib h r w' (sv_pattern st')\<rparr>)"
    by (simp add: answered_def)
  then show ?thesis by (intro exI conjI) (assumption, simp add: rest(1), rule rest(2))
qed

text \<open>With a working backend.\<close>

lemma read_reply:
  assumes "h_store h = backend_ops sha srt" and "backend_ok (sv_store st)"
    and "mux_route h (rq_Method r) (rq_segments r) \<in> {Some (RGet ident), Some (RRawGet ident)}"
    and "fst (lets_pass env r st)" and "io_ok (ce_io env 0)"
  shows "\<exists>rep st'. serve lib h env r st = (Some rep, st') \<and>
    backend_content (sv_store st') = backend_content (sv_store st) \<and>
    (if backend_live (ce_io env 0) (sv_store st) (backend_slot sha (sv_store st) (keyParam ident))
     then rp_status rep = 200 \<and>
       (\<exists>d. backend_content (sv_store st) (backend_slot sha (sv_store st) (keyParam ident)) = Some d \<and>
          rp_body rep = (if is_head r then []
            else if mux_route h (rq_Method r) (rq_segments r) = Some (RRawGet ident) then d
            else json_encode (JObj [(''content'', JStr d), (''id'', JStr (keyParam ident))]) @ [CHR 0x0A]))
     else rp_status rep = (if backend_refuses sha (sv_store st) (keyParam ident) then 500 else 404))"
  using read_outcome [OF assms(1-4), of lib] read_fails_calm [OF assms(2,5), of sha "bump h (keyParam ident)" "keyParam ident"]
  unfolding read_form_def by (auto split: if_splits)

text \<open>
  C23. Reading a paste. A \<open>GET\<close> of a stored paste that has not expired is answered with 200 and
  exactly the stored bytes, in a JSON object under the key or raw; any extension the key carries
  is ignored. It is answered with 500 exactly when the backend fails: on its read, on sliding the deadline
  of the paste it found, or on a key it refuses (one that is no text for PostgreSQL, or the name of a
  directory among the files). In all other cases there is no such paste and it is a 404. No read changes
  the content of any paste.
\<close>

theorem get_paste:
  assumes "h_store h = backend_ops sha srt" and "backend_ok (sv_store st)"
    and "mux_route h (rq_Method r) (rq_segments r) \<in> {Some (RGet ident), Some (RRawGet ident)}"
    and "fst (lets_pass env r st)"
  shows "\<exists>rep st'. serve lib h env r st = (Some rep, st') \<and>
    backend_content (sv_store st') = backend_content (sv_store st) \<and>
    (if read_fails sha (ce_io env 0) (bump h (keyParam ident)) (sv_store st) (keyParam ident)
     then rp_status rep = 500
     else if backend_live (ce_io env 0) (sv_store st) (backend_slot sha (sv_store st) (keyParam ident))
     then rp_status rep = 200 \<and>
       (\<exists>d. backend_content (sv_store st) (backend_slot sha (sv_store st) (keyParam ident)) = Some d \<and>
          rp_body rep = (if is_head r then [] else read_form h r ident d))
     else rp_status rep = 404)"
  using assms by (rule read_outcome)

lemma get_paste_witness:
  "\<exists>rep st'. serve demo_lib demo_web demo_env (demo_get_request ''k.txt'')
      (demo_state (Sqlite \<lparr>sq_db = one_row, sq_expire = 60\<rparr>)) = (Some rep, st') \<and> rp_status rep = 200 \<and> rp_body rep = ''text''"
proof -
  let ?s = "Sqlite \<lparr>sq_db = one_row, sq_expire = 60\<rparr>"
  have "backend_ok ?s" by (simp add: sqlite_ok_def one_row_ok)
  then have ok: "backend_ok (sv_store (demo_state ?s))" by simp
  have k: "keyParam ''k.txt'' = ''k''" by (simp add: keyParam_def)
  have live: "backend_live (calm 0) ?s ''k''" "backend_content ?s ''k'' = Some ''text''"
    by (simp_all add: sqlite_live_def sqlite_content_def tb_live_def tb_content_def tb_lookup_def one_row_def
      row_live_def unix_def)
  have rt: "mux_route demo_web (rq_Method (demo_get_request ''k.txt'')) (rq_segments (demo_get_request ''k.txt''))
      = Some (RRawGet ''k.txt'')" "\<not> is_head (demo_get_request ''k.txt'')"
    by (simp_all add: demo_get_route wild_def)
  from get_paste [OF demo_web_simps(1) ok, of "demo_get_request ''k.txt''" "''k.txt''" demo_env demo_lib] k live rt
  show ?thesis by (auto simp: demo_limiter read_form_def demo_get_request_def mux_route_def)
qed

section \<open>Creating\<close>

text \<open>The keys of the default and of the phonetic generator hold no dot.\<close>

lemma no_dot_chars: "\<not> keyspace_char (CHR ''.'')" "\<not> phonetic_char (CHR ''.'')"
  by (simp_all add: keyspace_char_def phonetic_char_def less_eq_char_def)

lemma key_no_dot:
  assumes "CreateKey ri gen len rng = (Inr key, rng')" and "gen = NewRandom [] \<or> gen = NewPhonetic" and "0 \<le> len"
  shows "CHR ''.'' \<notin> set key \<and> int (length key) = len"
  using assms random_keys.key_good [OF assms(3), of ri rng key rng'] phonetic_keys.key_good [OF assms(3), of ri rng key rng']
  using no_dot_chars by (auto simp: list_all_iff)

lemma post_stores:
  assumes "h_store h = backend_ops sha srt" and "backend_ok (sv_store st)"
    and "mux_route h (rq_Method r) (rq_segments r) = Some RPost"
    and "serve lib h env r st = (Some rep, st1)" and "rp_status rep = 201"
  obtains data key n where "post_data lib h r = Some data" and "rp_body rep = created key"
    and "backend_content (sv_store st) (backend_slot sha (sv_store st) key) = None"
    and "backend_content (sv_store st1) = (backend_content (sv_store st))(backend_slot sha (sv_store st) key \<mapsto> data)"
    and "backend_slot sha (sv_store st1) = backend_slot sha (sv_store st)"
    and "backend_ok (sv_store st1)"
    and "\<And>e. backend_lasts (ce_io env n) e (sv_store st1) \<Longrightarrow>
      backend_live e (sv_store st1) (backend_slot sha (sv_store st1) key)"
    and "h_keygen h = NewRandom [] \<or> h_keygen h = NewPhonetic \<Longrightarrow> 0 \<le> cfg_KeyLength (h_cfg h) \<Longrightarrow>
      CHR ''.'' \<notin> set key \<and> int (length key) = cfg_KeyLength (h_cfg h)"
proof -
  let ?st = "(begun lib r st)\<lparr>sv_limiter := snd (lets_pass env r st), sv_pattern := ''POST /api/pastes''\<rparr>"
  from post_reply [OF assms(3,4,5)] obtain w' st' where hp: "handlePost lib h env r (entry h r) ?st = (Returns, w', st')"
    and rep: "rep = finish r w'" and s1: "sv_store st1 = sv_store st'" .
  obtain data key n rng s where d: "post_data lib h r = Some data"
    and ck: "chooseKey (wl_randint lib) h env 0 (at_rng st) (sv_store st) = Some (KeyFree key, n, rng, s)"
    and set: "op_Set (h_store h) (ce_io env n) key data s = (None, sv_store st')"
    and w': "w' = writeJSON r 201 (JObj [(''id'', JStr key)]) (entry h r)"
    by (rule handlePost_created [OF hp entry_unsent assms(5) [unfolded rep]]) auto
  from store.chooseKey_result [OF ck assms(1)] obtain rng0 where s: "s = sv_store st"
    and made: "CreateKey (wl_randint lib) (h_keygen h) (cfg_KeyLength (h_cfg h)) rng0 = (Inr key, rng)" by auto
  from set assms(1) s s1 have set': "op_Set (backend_ops sha srt) (ce_io env n) key data (sv_store st) = (None, sv_store st1)"
    by simp
  have "\<not> is_head r" using route_method(3) [OF assms(3)] by (simp add: is_head_def)
  then have body: "rp_body rep = created key"
    using rep w' writeJSON_body [OF entry_unsent [of h r], where r = r] by (simp add: created_def)
  have slot: "backend_slot sha (sv_store st1) = backend_slot sha (sv_store st)"
    using store.set_slot [of sha srt "ce_io env n" key data "sv_store st"] set' by simp
  have ok: "backend_ok (sv_store st1)"
    using store.set_invar [OF assms(2), of sha srt "ce_io env n" key data] set' by simp
  note stores = store.set_stores [OF assms(2) set']
  show thesis
    by (rule that [OF d body stores [THEN conjunct1] stores [THEN conjunct2] slot ok
          store.set_live [OF assms(2) set'] key_no_dot [OF made]])
qed

text \<open>
  C2. What was posted can be read back. When a \<open>POST\<close> is answered with 201, the data of the
  request has been stored, unchanged, under a key that held no paste, no other paste has changed,
  and the reply names the key. As long as the store is left alone and the paste has not expired,
  a \<open>GET\<close> of the raw paste returns the very bytes that were posted, also under the key with an
  extension. (With the default and the phonetic generator, whose keys hold no dot.)
\<close>

theorem post_then_get:
  assumes "h_store h = backend_ops sha srt" and "backend_ok (sv_store st)"
    and "mux_route h (rq_Method r) (rq_segments r) = Some RPost"
    and "h_keygen h = NewRandom [] \<or> h_keygen h = NewPhonetic" and "0 \<le> cfg_KeyLength (h_cfg h)"
    and "serve lib h env r st = (Some rep, st1)" and "rp_status rep = 201"
  shows "\<exists>data key n. post_data lib h r = Some data \<and> rp_body rep = created key \<and>
    backend_content (sv_store st) (backend_slot sha (sv_store st) key) = None \<and>
    backend_content (sv_store st1) = (backend_content (sv_store st))(backend_slot sha (sv_store st) key \<mapsto> data) \<and>
    (\<forall>env' r' st2 ext. sv_store st2 = sv_store st1 \<and> (ext = [] \<or> hd ext = CHR ''.'') \<and>
       mux_route h (rq_Method r') (rq_segments r') = Some (RRawGet (key @ ext)) \<and> \<not> is_head r' \<and>
       fst (lets_pass env' r' st2) \<and> io_ok (ce_io env' 0) \<and>
       backend_lasts (ce_io env n) (ce_io env' 0) (sv_store st1) \<longrightarrow>
       (\<exists>rep' st3. serve lib h env' r' st2 = (Some rep', st3) \<and> rp_status rep' = 200 \<and> rp_body rep' = data))"
proof -
  from post_stores [OF assms(1-3,6,7)] assms(4,5) obtain data key n where d: "post_data lib h r = Some data"
    and body: "rp_body rep = created key"
    and free: "backend_content (sv_store st) (backend_slot sha (sv_store st) key) = None"
    and content: "backend_content (sv_store st1) =
      (backend_content (sv_store st))(backend_slot sha (sv_store st) key \<mapsto> data)"
    and slot: "backend_slot sha (sv_store st1) = backend_slot sha (sv_store st)" and ok: "backend_ok (sv_store st1)"
    and live: "\<And>e. backend_lasts (ce_io env n) e (sv_store st1) \<Longrightarrow>
      backend_live e (sv_store st1) (backend_slot sha (sv_store st1) key)"
    and dot: "CHR ''.'' \<notin> set key" by (metis (no_types, lifting))
  have "\<exists>rep' st3. serve lib h env' r' st2 = (Some rep', st3) \<and> rp_status rep' = 200 \<and> rp_body rep' = data"
    if st2: "sv_store st2 = sv_store st1" and ext: "ext = [] \<or> hd ext = CHR ''.''"
      and rt: "mux_route h (rq_Method r') (rq_segments r') = Some (RRawGet (key @ ext))" "\<not> is_head r'"
      and pass: "fst (lets_pass env' r' st2)" "io_ok (ce_io env' 0)"
      and lasts: "backend_lasts (ce_io env n) (ce_io env' 0) (sv_store st1)" for env' r' st2 ext
  proof -
    have k: "keyParam (key @ ext) = key" using keyParam_ext [OF dot ext] .
    have "backend_ok (sv_store st2)" using st2 ok by simp
    moreover have "mux_route h (rq_Method r') (rq_segments r') \<in> {Some (RGet (key @ ext)), Some (RRawGet (key @ ext))}"
      using rt by simp
    ultimately obtain rep' st3 where "serve lib h env' r' st2 = (Some rep', st3)" and
      "if backend_live (ce_io env' 0) (sv_store st2) (backend_slot sha (sv_store st2) (keyParam (key @ ext)))
       then rp_status rep' = 200 \<and>
         (\<exists>d. backend_content (sv_store st2) (backend_slot sha (sv_store st2) (keyParam (key @ ext))) = Some d \<and>
          rp_body rep' = (if is_head r' then []
            else if mux_route h (rq_Method r') (rq_segments r') = Some (RRawGet (key @ ext)) then d
            else json_encode (JObj [(''content'', JStr d), (''id'', JStr (keyParam (key @ ext)))]) @ [CHR 0x0A]))
       else rp_status rep' = (if backend_refuses sha (sv_store st2) (keyParam (key @ ext)) then 500 else 404)"
      using read_reply [OF assms(1) _ _ pass] by blast
    with rt k live [OF lasts] content slot st2 show ?thesis by simp
  qed
  with d body free content show ?thesis by blast
qed

lemma post_then_get_witness:
  "\<exists>rep st1 key. serve demo_lib demo_web demo_env demo_post (demo_state demo_sqlite) = (Some rep, st1) \<and>
     rp_body rep = created key \<and> backend_content (sv_store st1) key = Some ''hello''"
proof -
  obtain rep st1 where x: "serve demo_lib demo_web demo_env demo_post (demo_state demo_sqlite) = (Some rep, st1)"
    and "rp_status rep = 201" by (rule demo_posted)
  moreover have "mux_route demo_web (rq_Method demo_post) (rq_segments demo_post) = Some RPost"
    by (simp add: demo_web_def demo_route)
  moreover have "post_data demo_lib demo_web demo_post = Some ''hello''" by (simp add: demo_web_def demo_post_data)
  moreover have "backend_slot zero_hash demo_sqlite = (\<lambda>k. k)" by (simp add: demo_sqlite_def backend_slot_ext)
  ultimately show ?thesis
    using post_then_get [OF demo_web_simps(1) _ _ _ _ x] by auto
qed

text \<open>
  C3. Who can remove a paste. Whatever a request does, a stored paste keeps its content, unless the
  request comes with a live admin session and is a purge, or the deletion of that very handle,
  which is not a preloaded one. In particular without a console no request removes anything.
\<close>

theorem only_admin_removes:
  assumes "h_store h = backend_ops sha srt" and "backend_ok (sv_store st)"
    and "backend_content (sv_store st) k = Some d"
  shows "backend_content (sv_store (snd (serve lib h env r st))) k = Some d \<or>
    backend_content (sv_store (snd (serve lib h env r st))) k = None \<and>
    (\<exists>m. console h = Some m \<and>
       admin_session (auth_lib.truncate lib) m (ce_now env) r (at_sessions st) \<noteq> None \<and>
       (mux_route h (rq_Method r) (rq_segments r) = Some RAdminPurge \<or>
        mux_route h (rq_Method r) (rq_segments r) = Some (RAdminDelete k) \<and> k \<notin> set (h_staticKeys h)))"
  (is "?P (sv_store (snd (serve lib h env r st)))")
proof (rule store.serve_store [OF assms(1), where Q = ?P], goal_cases)
  case 1
  with assms(3) show ?case by simp
next
  case (2 e k' b)
  with assms store.get_content [OF assms(2), of sha srt e k' b] show ?case by simp
next
  case (3 e k' d')
  with assms store.set_keeps [OF assms(2,3), of sha srt e k' d'] show ?case by simp
next
  case (4 e k' m)
  show ?case
  proof (cases "k' = k")
    case True
    with 4 assms(3) store.exec_keeps store.delete_content [OF assms(2), of sha srt e k] 
      store.delete_failed [of sha srt e k "sv_store st"]
    show ?thesis
      by (cases "backend_Delete e k (sv_store st)"; cases "fst (backend_Delete e k (sv_store st))")
        (auto simp: admin_call_def)
  next
    case False
    with assms(3) store.delete_other [OF assms(2), of k k' sha srt e] show ?thesis by simp
  qed
next
  case (5 e m)
  with assms(3) store.purge_removes [OF assms(2), of sha srt e k] show ?case by (auto simp: admin_call_def)
qed

lemma demo_one_row: "backend_ok (sv_store (demo_state (Sqlite \<lparr>sq_db = one_row, sq_expire = 60\<rparr>)))"
    "backend_content (sv_store (demo_state (Sqlite \<lparr>sq_db = one_row, sq_expire = 60\<rparr>))) ''k'' = Some ''text''"
   apply (simp add: sqlite_ok_def one_row_ok)
  apply (simp add: sqlite_content_def tb_content_def tb_lookup_def one_row_def)
  done

lemma only_admin_removes_witness:
  "backend_content (sv_store (snd (serve demo_lib demo_web demo_env demo_post
     (demo_state (Sqlite \<lparr>sq_db = one_row, sq_expire = 60\<rparr>))))) ''k'' = Some ''text''"
  using only_admin_removes [OF demo_web_simps(1) demo_one_row, of demo_lib demo_env demo_post] by simp

text \<open>The requests one after the other.\<close>

fun serve_run ::
  "('r, 'z) web_lib_scheme \<Rightarrow> 's server \<Rightarrow> (call_env \<times> http_request) list \<Rightarrow> ('r, 's) server_state \<Rightarrow> ('r, 's) server_state" where
  "serve_run lib h [] st = st"
| "serve_run lib h ((env, r) # rs) st = serve_run lib h rs (snd (serve lib h env r st))"

lemma serve_keeps:
  assumes "h_store h = backend_ops sha srt" and "backend_ok (sv_store st)"
    and "backend_content (sv_store st) k = Some d"
    and "mux_route h (rq_Method r) (rq_segments r) \<notin> {Some RAdminPurge, Some (RAdminDelete k)}"
  shows "backend_ok (sv_store (snd (serve lib h env r st))) \<and>
    backend_content (sv_store (snd (serve lib h env r st))) k = Some d"
  (is "?P (sv_store (snd (serve lib h env r st)))")
proof (rule store.serve_store [OF assms(1), where Q = ?P], goal_cases)
  case (2 e k' b)
  with assms store.get_content [OF assms(2), of sha srt e k' b] store.get_invar [OF assms(2), of sha srt e k' b]
  show ?case by simp
next
  case (3 e k' d')
  with assms store.set_keeps [OF assms(2,3), of sha srt e k' d'] store.set_invar [OF assms(2), of sha srt e k' d']
  show ?case by simp
next
  case (4 e k' m)
  with assms have "k \<noteq> k'" by auto
  with assms(3) store.delete_other [OF assms(2) this, of sha srt e] store.delete_invar [OF assms(2), of sha srt e k']
  show ?case by simp
qed (use assms in simp_all)

text \<open>
  C4. Acknowledged means stored. After a \<open>POST\<close> that was answered with 201, any number of requests
  of any clients, at any times and with any failures of the backend, leave the paste as it was
  posted, as long as none of them is a purge or the deletion of its handle.
\<close>

theorem acknowledged_is_durable:
  assumes "h_store h = backend_ops sha srt" and "backend_ok (sv_store st)"
    and "mux_route h (rq_Method r) (rq_segments r) = Some RPost"
    and "serve lib h env r st = (Some rep, st1)" and "rp_status rep = 201"
  shows "\<exists>data key. post_data lib h r = Some data \<and> rp_body rep = created key \<and>
    (\<forall>rs. (\<forall>(env', r') \<in> set rs. mux_route h (rq_Method r') (rq_segments r') \<notin>
          {Some RAdminPurge, Some (RAdminDelete (backend_slot sha (sv_store st) key))}) \<longrightarrow>
       backend_content (sv_store (serve_run lib h rs st1)) (backend_slot sha (sv_store st) key) = Some data)"
proof -
  from post_stores [OF assms] obtain data key where d: "post_data lib h r = Some data" and body: "rp_body rep = created key"
    and content: "backend_content (sv_store st1) =
      (backend_content (sv_store st))(backend_slot sha (sv_store st) key \<mapsto> data)"
    and ok: "backend_ok (sv_store st1)" by metis
  have "backend_content (sv_store (serve_run lib h rs s)) k = Some data"
    if "\<forall>(env', r') \<in> set rs. mux_route h (rq_Method r') (rq_segments r') \<notin> {Some RAdminPurge, Some (RAdminDelete k)}"
      and "backend_ok (sv_store s)" and "backend_content (sv_store s) k = Some data" for rs s k
    using that
  proof (induction rs arbitrary: s)
    case (Cons x rs)
    obtain e q where x: "x = (e, q)" by (cases x)
    with Cons.prems serve_keeps [OF assms(1) Cons.prems(2,3), of q lib e] Cons.IH [of "snd (serve lib h e q s)"]
    show ?case by auto
  qed simp
  from this [OF _ ok] content d body show ?thesis by auto
qed

lemma acknowledged_is_durable_witness:
  "\<exists>rep st1 key. serve demo_lib demo_web demo_env demo_post (demo_state demo_sqlite) = (Some rep, st1) \<and>
     rp_body rep = created key \<and>
     backend_content (sv_store (serve_run demo_lib demo_web [(demo_env, demo_post), (demo_env, demo_get_request ''x'')] st1)) key
       = Some ''hello''"
proof -
  obtain rep st1 where x: "serve demo_lib demo_web demo_env demo_post (demo_state demo_sqlite) = (Some rep, st1)"
    and "rp_status rep = 201" by (rule demo_posted)
  moreover have rt: "mux_route demo_web (rq_Method demo_post) (rq_segments demo_post) = Some RPost"
    by (simp add: demo_web_def demo_route)
  moreover have "post_data demo_lib demo_web demo_post = Some ''hello''" by (simp add: demo_web_def demo_post_data)
  moreover have "backend_slot zero_hash demo_sqlite = (\<lambda>k. k)" by (simp add: demo_sqlite_def backend_slot_ext)
  ultimately obtain key where "rp_body rep = created key" and
    "\<And>rs. (\<forall>(env', r') \<in> set rs. mux_route demo_web (rq_Method r') (rq_segments r') \<notin>
          {Some RAdminPurge, Some (RAdminDelete key)}) \<Longrightarrow>
       backend_content (sv_store (serve_run demo_lib demo_web rs st1)) key = Some ''hello''"
    using acknowledged_is_durable [OF demo_web_simps(1) _ rt x] by auto
  note this(1) and this(2) [of "[(demo_env, demo_post), (demo_env, demo_get_request ''x'')]"]
  with x rt show ?thesis by (auto simp: demo_get_route wild_def)
qed

end
