(* ===== verification/Post_Facts.thy ===== *)
theory Post_Facts
  imports Paste_Facts
begin

text \<open>
  Which \<open>POST\<close> requests are accepted and what becomes of them: the origin check, the size limit,
  the client address the budget is charged to, the search for a key; and the cases in which the
  code does not do what it is meant to.
\<close>

section \<open>Accepted requests\<close>

text \<open>The request reaches \<open>handlePost\<close> and its data passes the checks and the byte budget.\<close>

definition accepted ::
  "('r, 'z) web_lib_scheme \<Rightarrow> 's server \<Rightarrow> call_env \<Rightarrow> http_request \<Rightarrow> ('r, 's) server_state \<Rightarrow> string \<Rightarrow> bool" where
  "accepted lib h env r st data \<longleftrightarrow>
     mux_route h (rq_Method r) (rq_segments r) = Some RPost \<and> fst (lets_pass env r st) \<and>
     post_data lib h r = Some data \<and>
     fst (chargeBytes (snd (lets_pass env r st)) (clientIP r (cfg_TrustedProxyCount (h_cfg h)))
       (int (length data)) (ce_now env))"

lemma accepted_serve:
  assumes "accepted lib h env r st data"
  obtains l where "serve lib h env r st =
    (case storePaste lib h env data r (entry h r) ((begun lib r st)\<lparr>sv_pattern := ''POST /api/pastes'', sv_limiter := l\<rparr>) of
        (Returns, w, st) \<Rightarrow> answered lib h r w st
      | (Panics p, w, st) \<Rightarrow> (Some (finish r (panicked w)), recovered lib r p st)
      | (Hangs, w, st) \<Rightarrow> (None, st))"
proof -
  let ?st = "(begun lib r st)\<lparr>sv_limiter := snd (lets_pass env r st), sv_pattern := ''POST /api/pastes''\<rparr>"
  have "\<not> preflight h r" using assms route_method(3) by (intro get_not_preflight) (auto simp: accepted_def)
  then have s: "serve lib h env r st = (case handlePost lib h env r (entry h r) ?st of
        (Returns, w, st) \<Rightarrow> answered lib h r w st
      | (Panics p, w, st) \<Rightarrow> (Some (finish r (panicked w)), recovered lib r p st)
      | (Hangs, w, st) \<Rightarrow> (None, st))"
    using assms by (simp add: serve_eq accepted_def reach_def mux_def)
  show thesis
    using entry_unsent [of h r]
  proof (rule handlePost_cases [where lib = lib and h = h and env = env and r = r and st = ?st], goal_cases)
    case (1 code w' l)
    with assms show ?case by (auto simp: accepted_def)
  next
    case (2 data' l)
    with assms have "data' = data" by (simp add: accepted_def)
    then show ?case using that [of l] s 2 by simp
  qed
qed

lemma accepted_hangs:
  assumes "accepted lib h env r st data"
  shows "fst (serve lib h env r st) = None \<longleftrightarrow>
    chooseKey (wl_randint lib) h env 0 (at_rng st) (sv_store st) = None"
proof -
  have "\<not> preflight h r" using assms route_method(3) by (intro get_not_preflight) (auto simp: accepted_def)
  with assms show ?thesis by (auto simp: answered_or_hangs accepted_def searches_forever_def)
qed

lemma demo_accepted: "accepted demo_lib (demo_server (demo_cfg\<lparr>cfg_KeyLength := n\<rparr>) gen ops) env demo_post (demo_state s) ''hello''"
  by (simp add: accepted_def demo_route demo_limiter demo_post_data)

lemma demo_web_accepted: "accepted demo_lib demo_web env demo_post (demo_state s) ''hello''"
  by (simp add: demo_web_def demo_accepted)

section \<open>Termination\<close>

lemma default_always_keys:
  assumes "rand_total ri" and "h_keygen h = NewRandom [] \<or> h_keygen h = NewPhonetic" and "0 \<le> cfg_KeyLength (h_cfg h)"
  shows "always_keys ri h"
  using assms random_keys.key_made [OF assms(3,1)] phonetic_keys.key_made [OF assms(3,1)]
  by (auto simp: always_keys_def)

text \<open>
  C17. The search for a key ends exactly when it can: with a working source of randomness, a backend
  that answers and a clock that stands still meanwhile, an accepted \<open>POST\<close> is answered if and only
  if one of the keys the generator would draw, one after the other, holds no paste that a reader
  could see. If all of them do, the request runs forever.
\<close>

theorem post_answered_iff_free_key:
  assumes "h_store h = backend_ops sha srt" and "backend_ok (sv_store st)"
    and "rand_total (wl_randint lib)" and "h_keygen h = NewRandom [] \<or> h_keygen h = NewPhonetic"
    and "0 \<le> cfg_KeyLength (h_cfg h)" and "ce_io env = (\<lambda>_. e)" and "io_ok e"
    and "accepted lib h env r st data"
  shows "fst (serve lib h env r st) \<noteq> None \<longleftrightarrow>
    (\<exists>i key. nth_key (wl_randint lib) (h_keygen h) (cfg_KeyLength (h_cfg h)) i (at_rng st) = Inr key \<and>
       \<not> backend_live e (sv_store st) (backend_slot sha (sv_store st) key))"
proof -
  note keys = default_always_keys [OF assms(3-5)]
  have "chooseKey (wl_randint lib) h env 0 (at_rng st) (sv_store st) \<noteq> None"
    if "nth_key (wl_randint lib) (h_keygen h) (cfg_KeyLength (h_cfg h)) i (at_rng st) = Inr key"
      "\<not> backend_live e (sv_store st) (backend_slot sha (sv_store st) key)" for i key
    using store.chooseKey_ends [OF assms(1,2) keys that(1), of env 0] that(2) assms(6) by simp
  moreover have "chooseKey (wl_randint lib) h env 0 (at_rng st) (sv_store st) = None"
    if none: "\<nexists>i key. nth_key (wl_randint lib) (h_keygen h) (cfg_KeyLength (h_cfg h)) i (at_rng st) = Inr key \<and>
       \<not> backend_live e (sv_store st) (backend_slot sha (sv_store st) key)"
  proof (rule store.chooseKey_hangs [OF assms(1,2)])
    show "io_ok (ce_io env m)" for m using assms(6,7) by simp
    fix i
    have "\<not> isl (nth_key (wl_randint lib) (h_keygen h) (cfg_KeyLength (h_cfg h)) i (at_rng st))"
      using keys by (simp add: nth_key_def always_keys_def)
    with none assms(6) show "store.taken sha h env (sv_store st)
        (nth_key (wl_randint lib) (h_keygen h) (cfg_KeyLength (h_cfg h)) i (at_rng st))"
      by (cases "nth_key (wl_randint lib) (h_keygen h) (cfg_KeyLength (h_cfg h)) i (at_rng st)")
        (auto simp: store.taken_def)
  qed
  ultimately have "chooseKey (wl_randint lib) h env 0 (at_rng st) (sv_store st) \<noteq> None \<longleftrightarrow>
    (\<exists>i key. nth_key (wl_randint lib) (h_keygen h) (cfg_KeyLength (h_cfg h)) i (at_rng st) = Inr key \<and>
       \<not> backend_live e (sv_store st) (backend_slot sha (sv_store st) key))"
    by metis
  then show ?thesis by (simp only: accepted_hangs [OF assms(8)] not_not)
qed

lemma demo_parts: "wl_randint demo_lib = first_rand" "ce_io demo_env = (\<lambda>_. calm 0)" "io_ok (calm 0)"
  by (simp_all add: fun_eq_iff)

lemma post_answered_iff_free_key_witness:
  "fst (serve demo_lib demo_web demo_env demo_post (demo_state demo_sqlite)) \<noteq> None"
proof -
  have "\<not> backend_live (calm 0) demo_sqlite ''AA''"
    by (simp add: demo_sqlite_def sqlite_live_def tb_live_def tb_lookup_def empty_table_def)
  moreover have "backend_slot zero_hash demo_sqlite = (\<lambda>k. k)" by (simp add: demo_sqlite_def backend_slot_ext)
  ultimately show ?thesis
    using post_answered_iff_free_key [where lib = demo_lib and h = demo_web and env = demo_env and r = demo_post
        and st = "demo_state demo_sqlite" and e = "calm 0" and sha = zero_hash and srt = id and data = "''hello''"]
      demo_web_accepted [of demo_env demo_sqlite]
    by (auto simp: demo_parts first_rand_total nth_key_def demo_key intro!: exI [of _ 0])
qed

text \<open>
  A configured key length of zero (or less, for the random generator) makes the server hang:
  every key is the empty one, and as soon as one paste is stored under it, every later accepted
  \<open>POST\<close> searches forever.
\<close>

lemma key_length_zero_hangs:
  assumes "h_store h = backend_ops sha srt" and "backend_ok (sv_store st)"
    and "h_keygen h = NewRandom [] \<and> cfg_KeyLength (h_cfg h) \<le> 0 \<or> h_keygen h = NewPhonetic \<and> cfg_KeyLength (h_cfg h) = 0"
    and "\<And>m. io_ok (ce_io env m)"
    and "\<And>m. backend_live (ce_io env m) (sv_store st) (backend_slot sha (sv_store st) [])"
    and "accepted lib h env r st data"
  shows "fst (serve lib h env r st) = None"
proof -
  have "CreateKey (wl_randint lib) (h_keygen h) (cfg_KeyLength (h_cfg h)) rng = (Inr [], rng)" for rng
    using assms(3) by (auto simp: NewRandom_default NewPhonetic_def slice_to_def phonetic_loop.simps [of _ 0])
  then have "nth_key (wl_randint lib) (h_keygen h) (cfg_KeyLength (h_cfg h)) i (at_rng st) = Inr []" for i
    by (simp add: nth_key_def)
  then have "chooseKey (wl_randint lib) h env 0 (at_rng st) (sv_store st) = None"
    by (intro store.chooseKey_hangs [OF assms(1,2,4)]) (simp add: store.taken_def assms(5))
  then show ?thesis using accepted_hangs [OF assms(6)] by simp
qed

lemma key_length_zero_hangs_witness:
  "fst (serve demo_lib (demo_server (demo_cfg\<lparr>cfg_KeyLength := 0\<rparr>) (NewRandom []) (backend_ops zero_hash id)) demo_env
     demo_post (demo_state (Files \<lparr>fs_basePath = ''data'', fs_dir = fmupd (filename zero_hash []) (EFile ''x'' 0) fmempty\<rparr>))) = None"
  by (rule key_length_zero_hangs [where sha = zero_hash and srt = id, OF _ _ _ _ _ demo_accepted])
    (simp_all add: file_live_def file_content_def filename_handle)

text \<open>
  C40. A key that is free for readers can still be occupied. When the key that is drawn belongs to a
  paste that has expired but has not been purged, the probe says it is free and the write says it
  exists; the request fails with a 500 and nothing is stored, although the generator would have
  made another key.
\<close>

theorem expired_key_fails:
  assumes "h_store h = backend_ops sha srt" and "backend_ok (sv_store st)"
    and "fst (CreateKey (wl_randint lib) (h_keygen h) (cfg_KeyLength (h_cfg h)) (at_rng st)) = Inr key"
    and "\<And>m. io_ok (ce_io env m)"
    and "\<not> backend_live (ce_io env 0) (sv_store st) (backend_slot sha (sv_store st) key)"
    and "backend_content (sv_store st) (backend_slot sha (sv_store st) key) \<noteq> None"
    and "accepted lib h env r st data"
  shows "\<exists>rep st1. serve lib h env r st = (Some rep, st1) \<and> rp_status rep = 500 \<and>
    backend_content (sv_store st1) = backend_content (sv_store st)"
proof -
  obtain rng1 where made: "CreateKey (wl_randint lib) (h_keygen h) (cfg_KeyLength (h_cfg h)) (at_rng st) = (Inr key, rng1)"
    using assms(3) by (cases "CreateKey (wl_randint lib) (h_keygen h) (cfg_KeyLength (h_cfg h)) (at_rng st)") simp
  obtain g s' where g: "backend_Get sha (ce_io env 0) key False (sv_store st) = (g, s')" by fastforce
  have "s' = sv_store st" using store.get_probe [of sha srt "ce_io env 0" key "sv_store st"] g by simp
  moreover have "\<not> isl g" using store.get_succeeds [OF assms(2,4), of sha srt 0 key False] assms(6) g by simp
  ultimately have probe: "backend_Get sha (ce_io env 0) key False (sv_store st) = (Inr None, sv_store st)"
    using store.get_found [OF assms(2), of sha srt "ce_io env 0" key False _ s'] assms(5) g by (cases g) auto
  obtain e s1 where set: "backend_Set sha (ce_io env 1) key data (sv_store st) = (e, s1)" by fastforce
  have e: "e \<noteq> None" and content: "backend_content s1 = backend_content (sv_store st)"
    using store.set_taken [OF assms(2,6), of srt "ce_io env 1" data] set by simp_all
  have "chooseKey (wl_randint lib) h env 0 (at_rng st) (sv_store st) = Some (KeyFree key, 1, rng1, sv_store st)"
    using made probe assms(1) by (simp add: chooseKey.simps)
  moreover obtain l where "serve lib h env r st =
    (case storePaste lib h env data r (entry h r) ((begun lib r st)\<lparr>sv_pattern := ''POST /api/pastes'', sv_limiter := l\<rparr>) of
        (Returns, w, st) \<Rightarrow> answered lib h r w st
      | (Panics p, w, st) \<Rightarrow> (Some (finish r (panicked w)), recovered lib r p st)
      | (Hangs, w, st) \<Rightarrow> (None, st))" by (rule accepted_serve [OF assms(7)])
  ultimately show ?thesis
    using set e assms(1) content by (auto simp: storePaste_def answered_def writeError_status)
qed

lemma expired_key_fails_witness:
  "\<exists>rep st1. serve demo_lib demo_web (demo_env\<lparr>ce_io := (\<lambda>_. calm (10 ^ 12))\<rparr>) demo_post
     (demo_state (Sqlite \<lparr>sq_db = \<lparr>tb_rows = [\<lparr>row_id = 1, row_slug = ''AA'', row_body = ''old'', row_created = 0,
        row_expires = Some 60\<rparr>], tb_next = 2\<rparr>, sq_expire = 60\<rparr>)) = (Some rep, st1) \<and> rp_status rep = 500"
proof -
  let ?t = "\<lparr>tb_rows = [\<lparr>row_id = 1, row_slug = ''AA'', row_body = ''old'', row_created = 0, row_expires = Some 60\<rparr>], tb_next = 2\<rparr>"
  let ?s = "Sqlite \<lparr>sq_db = ?t, sq_expire = 60\<rparr>"
  have "\<exists>rep st1. serve demo_lib demo_web (demo_env\<lparr>ce_io := (\<lambda>_. calm (10 ^ 12))\<rparr>) demo_post (demo_state ?s) = (Some rep, st1) \<and>
      rp_status rep = 500 \<and> backend_content (sv_store st1) = backend_content (sv_store (demo_state ?s))"
  proof (rule expired_key_fails [OF demo_web_simps(1) _ _ _ _ _ demo_web_accepted])
    show "backend_ok (sv_store (demo_state ?s))" by (simp add: sqlite_ok_def table_ok_def)
    show "fst (CreateKey (wl_randint demo_lib) (h_keygen demo_web) (cfg_KeyLength (h_cfg demo_web)) (at_rng (demo_state ?s))) = Inr ''AA''"
      by (simp add: demo_key)
  qed (simp_all add: sqlite_live_def sqlite_content_def tb_live_def tb_content_def tb_lookup_def row_live_def unix_def)
  then show ?thesis by blast
qed

text \<open>
  C27. What PostgreSQL does not take for text cannot be pasted. On a PostgreSQL store an accepted
  \<open>POST\<close> whose data is no text in the encoding of the database (in UTF-8: a zero byte, or bytes that
  are no UTF-8) is never stored: if it is answered, whatever else happens, then with a 500, and the
  stored pastes are unchanged. The checks of the handler let such data pass.
\<close>

theorem no_text_no_paste:
  assumes "h_store h = backend_ops sha srt" and "sv_store st = Postgres t"
    and "accepted lib h env r st data" and "\<not> pg_text t data"
    and "serve lib h env r st = (Some rep, st1)"
  shows "rp_status rep = 500 \<and> backend_content (sv_store st1) = backend_content (Postgres t)"
proof -
  obtain l where s: "serve lib h env r st =
    (case storePaste lib h env data r (entry h r) ((begun lib r st)\<lparr>sv_pattern := ''POST /api/pastes'', sv_limiter := l\<rparr>) of
        (Returns, w, st) \<Rightarrow> answered lib h r w st
      | (Panics p, w, st) \<Rightarrow> (Some (finish r (panicked w)), recovered lib r p st)
      | (Hangs, w, st) \<Rightarrow> (None, st))" by (rule accepted_serve [OF assms(3)])
  then obtain res n rng s' where ck: "chooseKey (wl_randint lib) h env 0 (at_rng st) (sv_store st) = Some (res, n, rng, s')"
    using assms(5) by (auto simp: storePaste_def split: option.splits)
  have s': "s' = Postgres t" using store.chooseKey_result [OF ck assms(1)] assms(2) by simp
  have refused: "\<exists>err u. postgres_Set e key data t = (Some err, u) \<and> postgres_content u = postgres_content t" for e key
    using assms(4) by (simp add: postgres_Set_eq)
  show ?thesis
  proof (cases res)
    case (KeyFree key)
    obtain err u where "postgres_Set (ce_io env n) key data t = (Some err, u)"
      and "postgres_content u = postgres_content t" using refused by blast
    with KeyFree s ck s' assms(1,5) show ?thesis by (auto simp: storePaste_def answered_def writeError_status)
  next
    case (KeyErr e)
    with s ck s' assms(1,5) show ?thesis by (auto simp: storePaste_def answered_def writeError_status)
  next
    case (KeyPanic p)
    have "rp_status (finish r (panicked (entry h r))) = 500" by (simp add: panicked_def finish_def)
    with KeyPanic s ck s' assms(1,5) show ?thesis by (auto simp: storePaste_def)
  qed
qed

text \<open>A database in UTF-8, and a paste with a zero byte.\<close>

definition utf8_database :: "string \<Rightarrow> bool" where
  "utf8_database s \<longleftrightarrow> valid_utf8 s \<and> CHR 0x00 \<notin> set s"

definition zero_post :: http_request where
  "zero_post = demo_post\<lparr>rq_body := ([CHR ''a'', CHR 0x00], False)\<rparr>"

definition demo_postgres :: postgresStore where
  "demo_postgres = \<lparr>pg_pool = empty_table, pg_expire = 60, pg_text = utf8_database\<rparr>"

lemma zero_accepted: "accepted demo_lib demo_web env zero_post (demo_state s) [CHR ''a'', CHR 0x00]"
proof -
  have "trim_space [CHR ''a'', CHR 0x00] = [CHR ''a'', CHR 0x00]"
    by (rule trim_space_id) (simp_all add: leading_rune_def space_runes_def has_prefix_def)
  moreover have "readBody demo_web zero_post new_response = Inr [CHR ''a'', CHR 0x00]"
    by (simp add: readBody_def zero_post_def demo_post_def plain_request_def header_get_def first_value_def has_prefix_def
        read_limited_def wrap64_nonneg demo_web_def demo_cfg_def Defaults_def)
  moreover have "writeOriginAllowed demo_lib demo_web zero_post"
    by (simp add: writeOriginAllowed_def zero_post_def demo_post_def plain_request_def header_get_def first_value_def)
  moreover have "mux_route demo_web (rq_Method zero_post) (rq_segments zero_post) = Some RPost"
    using demo_route by (simp add: zero_post_def demo_web_def)
  ultimately show ?thesis
    by (simp add: accepted_def post_data_def demo_limiter demo_web_def demo_cfg_def Defaults_def)
qed

lemma no_text_no_paste_witness:
  "\<exists>rep st1. serve demo_lib demo_web demo_env zero_post (demo_state (Postgres demo_postgres)) = (Some rep, st1) \<and>
     rp_status rep = 500"
proof -
  have key: "utf8_database ''AA''" by (simp add: utf8_database_def ascii_valid ascii_def in_bytes_def)
  then have "chooseKey (wl_randint demo_lib) demo_web demo_env 0 (at_rng (demo_state (Postgres demo_postgres)))
      (sv_store (demo_state (Postgres demo_postgres))) \<noteq> None"
    using demo_key
    by (simp add: chooseKey.simps demo_web_def demo_postgres_def postgres_Get_eq sql_select_def empty_table_def)
  then have "fst (serve demo_lib demo_web demo_env zero_post (demo_state (Postgres demo_postgres))) \<noteq> None"
    by (simp add: accepted_hangs [OF zero_accepted])
  then obtain rep st1 where "serve demo_lib demo_web demo_env zero_post (demo_state (Postgres demo_postgres)) = (Some rep, st1)"
    by (cases "serve demo_lib demo_web demo_env zero_post (demo_state (Postgres demo_postgres))") auto
  moreover have "\<not> pg_text demo_postgres [CHR ''a'', CHR 0x00]"
    by (simp add: demo_postgres_def utf8_database_def)
  ultimately show ?thesis
    using no_text_no_paste [OF demo_web_simps(1) _ zero_accepted] by fastforce
qed

section \<open>Where a write may come from\<close>

lemma answered_refusal:
  assumes "mux_route h (rq_Method r) (rq_segments r) = Some RPost" and "fst (lets_pass env r st)"
    and "handlePost lib h env r (entry h r)
      ((begun lib r st)\<lparr>sv_limiter := snd (lets_pass env r st), sv_pattern := ''POST /api/pastes''\<rparr>) = (Returns, w, st')"
  shows "serve lib h env r st = answered lib h r w st'"
proof -
  have "\<not> preflight h r" using assms(1) route_method(3) by (intro get_not_preflight) auto
  then show ?thesis by (rule serve_route_answer [OF assms(1) _ assms(2)]) (simp add: assms(3))
qed

text \<open>
  C29. Cross-site writes are refused. A \<open>POST\<close> that does not declare itself same-origin, same-site or
  user-initiated and either carries a fetch-metadata site without an origin, or an origin whose host
  is not the requested one and which is not in the allow-list, is answered with 403. Its body is
  not even read; nothing is stored, no key is drawn, no session changes and no bytes are charged.
\<close>

theorem cross_site_refused:
  assumes "mux_route h (rq_Method r) (rq_segments r) = Some RPost" and "fst (lets_pass env r st)"
    and "header_get r ''Sec-Fetch-Site'' \<notin> {''same-origin'', ''same-site'', ''none''}"
    and "if header_get r ''Origin'' = [] then header_get r ''Sec-Fetch-Site'' \<noteq> []
      else (\<forall>host. wl_parse_host lib (header_get r ''Origin'') = Some host \<longrightarrow> host = [] \<or> host \<noteq> rq_Host r) \<and>
        ''*'' \<notin> set (sec_CORSOrigins (cfg_Security (h_cfg h))) \<and>
        header_get r ''Origin'' \<notin> set (sec_CORSOrigins (cfg_Security (h_cfg h)))"
  shows "\<exists>rep st1. serve lib h env r st = (Some rep, st1) \<and> rp_status rep = 403 \<and>
    sv_store st1 = sv_store st \<and> at_sessions st1 = at_sessions st \<and> at_rng st1 = at_rng st \<and>
    sv_limiter st1 = snd (lets_pass env r st)"
proof -
  have "\<not> writeOriginAllowed lib h r"
    using assms(3,4) by (auto simp: writeOriginAllowed_def corsOrigin_eq Let_def split: option.splits if_splits)
  then show ?thesis
    using answered_refusal [OF assms(1,2), of lib] by (simp add: handlePost_def answered_def writeError_status)
qed

definition foreign_post :: http_request where
  "foreign_post = demo_post\<lparr>rq_header := [(''Sec-Fetch-Site'', ''cross-site''), (''Origin'', ''https://evil.example'')]\<rparr>"

lemma cross_site_refused_witness:
  "\<exists>rep st1. serve demo_lib demo_web demo_env foreign_post (demo_state demo_sqlite) = (Some rep, st1) \<and>
     rp_status rep = 403 \<and> sv_store st1 = demo_sqlite"
proof -
  have "\<exists>rep st1. serve demo_lib demo_web demo_env foreign_post (demo_state demo_sqlite) = (Some rep, st1) \<and>
     rp_status rep = 403 \<and> sv_store st1 = sv_store (demo_state demo_sqlite) \<and>
     at_sessions st1 = at_sessions (demo_state demo_sqlite) \<and> at_rng st1 = at_rng (demo_state demo_sqlite) \<and>
     sv_limiter st1 = snd (lets_pass demo_env foreign_post (demo_state demo_sqlite))"
    by (rule cross_site_refused)
      (simp_all add: foreign_post_def demo_web_def demo_route demo_limiter header_get_def first_value_def demo_lib_def
        auth_lib.defs web_lib.defs demo_cfg_def Defaults_def)
  then show ?thesis by auto
qed

section \<open>What is stored\<close>

lemma raw_data:
  assumes "post_data lib h r = Some data" and "\<not> has_prefix (header_get r ''Content-Type'') ''multipart/form-data''"
  shows "read_limited r (wrap64 (cfg_MaxLength (h_cfg h) + 1)) = Some data \<and> trim_space data \<noteq> [] \<and>
    (0 < cfg_MaxLength (h_cfg h) \<longrightarrow> int (length data) \<le> cfg_MaxLength (h_cfg h))"
  using assms by (auto simp: post_data_def readBody_def Let_def split: sum.splits if_splits option.splits)

lemma read_whole: "read_limited r n = Some data \<Longrightarrow> int (length data) < n \<Longrightarrow> data = fst (rq_body r)"
  by (auto simp: read_limited_def split: prod.splits if_splits)

lemma raw_cut:
  assumes "post_data lib h r = Some data" and "\<not> has_prefix (header_get r ''Content-Type'') ''multipart/form-data''"
    and "in_int64 (cfg_MaxLength (h_cfg h))"
  shows "0 \<le> cfg_MaxLength (h_cfg h)"
    and "data = (if cfg_MaxLength (h_cfg h) = 0 then take 1 (fst (rq_body r)) else fst (rq_body r))"
proof -
  note raw = raw_data [OF assms(1,2)]
  have empty: "data = []" if "wrap64 (cfg_MaxLength (h_cfg h) + 1) \<le> 0"
    using raw that by (auto simp: read_limited_def split: prod.splits if_splits)
  have fits: "cfg_MaxLength (h_cfg h) < 2 ^ 63 - 1"
  proof (rule ccontr)
    assume "\<not> cfg_MaxLength (h_cfg h) < 2 ^ 63 - 1"
    with assms(3) have "cfg_MaxLength (h_cfg h) = 2 ^ 63 - 1" by (simp add: in_int64_def)
    then have "wrap64 (cfg_MaxLength (h_cfg h) + 1) \<le> 0" by (simp add: wrap64_def)
    with empty raw show False by simp
  qed
  show nonneg: "0 \<le> cfg_MaxLength (h_cfg h)"
  proof (rule ccontr)
    assume neg: "\<not> 0 \<le> cfg_MaxLength (h_cfg h)"
    with assms(3) have "wrap64 (cfg_MaxLength (h_cfg h) + 1) = cfg_MaxLength (h_cfg h) + 1"
      by (intro wrap64_id) (simp add: in_int64_def)
    with neg empty raw show False by simp
  qed
  from nonneg fits have limit: "wrap64 (cfg_MaxLength (h_cfg h) + 1) = cfg_MaxLength (h_cfg h) + 1"
    by (simp add: wrap64_nonneg)
  show "data = (if cfg_MaxLength (h_cfg h) = 0 then take 1 (fst (rq_body r)) else fst (rq_body r))"
  proof (cases "cfg_MaxLength (h_cfg h) = 0")
    case True
    with raw limit show ?thesis by (auto simp: read_limited_def split: prod.splits if_splits)
  next
    case False
    with raw limit nonneg read_whole [of r "cfg_MaxLength (h_cfg h) + 1" data] show ?thesis by simp
  qed
qed

text \<open>
  C28. The size limit. Under a positive limit an acknowledged \<open>POST\<close> of a raw body has stored the whole
  body, byte for byte, and it is at most the configured number of bytes: the limit neither lets too much
  through nor cuts anything off. Under a limit of zero, which turns the check of the length off, what is
  stored is the first byte alone; under a negative limit nothing is ever acknowledged. What is stored is
  never white space only.
\<close>

theorem stored_whole:
  assumes "h_store h = backend_ops sha srt" and "backend_ok (sv_store st)"
    and "mux_route h (rq_Method r) (rq_segments r) = Some RPost"
    and "serve lib h env r st = (Some rep, st1)" and "rp_status rep = 201"
    and "in_int64 (cfg_MaxLength (h_cfg h))"
    and "\<not> has_prefix (header_get r ''Content-Type'') ''multipart/form-data''"
  shows "0 \<le> cfg_MaxLength (h_cfg h) \<and>
    (\<exists>key stored. rp_body rep = created key \<and>
       backend_content (sv_store st1) (backend_slot sha (sv_store st1) key) = Some stored \<and>
       (if cfg_MaxLength (h_cfg h) = 0 then stored = take 1 (fst (rq_body r))
        else stored = fst (rq_body r) \<and> int (length stored) \<le> cfg_MaxLength (h_cfg h)) \<and>
       trim_space stored \<noteq> [])"
proof -
  from post_stores [OF assms(1-5)] obtain data key where d: "post_data lib h r = Some data"
    and body: "rp_body rep = created key"
    and content: "backend_content (sv_store st1) (backend_slot sha (sv_store st1) key) = Some data"
    by (metis fun_upd_same)
  note raw = raw_data [OF d assms(7)] and cut = raw_cut [OF d assms(7,6)]
  have "if cfg_MaxLength (h_cfg h) = 0 then data = take 1 (fst (rq_body r))
      else data = fst (rq_body r) \<and> int (length data) \<le> cfg_MaxLength (h_cfg h)"
    using raw cut by (cases "cfg_MaxLength (h_cfg h) = 0") simp_all
  with body content raw cut(1) show ?thesis by (intro conjI exI [of _ key] exI [of _ data]) simp_all
qed

lemma stored_whole_witness:
  "\<exists>rep st1 key. serve demo_lib demo_web demo_env demo_post (demo_state demo_sqlite) = (Some rep, st1) \<and>
     rp_body rep = created key \<and>
     backend_content (sv_store st1) (backend_slot zero_hash (sv_store st1) key) = Some ''hello''"
proof -
  obtain rep st1 where x: "serve demo_lib demo_web demo_env demo_post (demo_state demo_sqlite) = (Some rep, st1)"
    and "rp_status rep = 201" by (rule demo_posted)
  moreover have "mux_route demo_web (rq_Method demo_post) (rq_segments demo_post) = Some RPost"
    by (simp add: demo_web_def demo_route)
  moreover have "\<not> has_prefix (header_get demo_post ''Content-Type'') ''multipart/form-data''" "fst (rq_body demo_post) = ''hello''"
    by (simp_all add: demo_post_def plain_request_def header_get_def first_value_def has_prefix_def)
  moreover have "cfg_MaxLength demo_cfg = 157286400" by (simp add: demo_cfg_def Defaults_def)
  ultimately show ?thesis
    using stored_whole [OF demo_web_simps(1) _ _ x] x by (auto simp: in_int64_def)
qed

text \<open>
  A limit of zero does not mean unlimited: the length check is off, but the body is still read
  up to one byte past the limit, so a paste that is acknowledged has been cut to its first byte.
\<close>

lemma zero_limit_truncates:
  assumes "h_store h = backend_ops sha srt" and "backend_ok (sv_store st)"
    and "mux_route h (rq_Method r) (rq_segments r) = Some RPost"
    and "serve lib h env r st = (Some rep, st1)" and "rp_status rep = 201"
    and "cfg_MaxLength (h_cfg h) = 0"
    and "\<not> has_prefix (header_get r ''Content-Type'') ''multipart/form-data''"
  shows "\<exists>key. rp_body rep = created key \<and>
    backend_content (sv_store st1) (backend_slot sha (sv_store st1) key) = Some (take 1 (fst (rq_body r)))"
proof -
  from post_stores [OF assms(1-5)] obtain data key where d: "post_data lib h r = Some data"
    and body: "rp_body rep = created key"
    and content: "backend_content (sv_store st1) (backend_slot sha (sv_store st1) key) = Some data"
    by (metis fun_upd_same)
  have "data = take 1 (fst (rq_body r))" using raw_cut(2) [OF d assms(7)] assms(6) by (simp add: in_int64_def)
  with body content show ?thesis by blast
qed

lemma zero_limit_truncates_witness:
  "\<exists>rep st1 key. serve demo_lib (demo_server (demo_cfg\<lparr>cfg_KeyLength := 2, cfg_MaxLength := 0\<rparr>) (NewRandom [])
       (backend_ops zero_hash id)) demo_env demo_post (demo_state demo_sqlite) = (Some rep, st1) \<and>
     backend_content (sv_store st1) (backend_slot zero_hash (sv_store st1) key) = Some ''h''"
proof -
  let ?h = "demo_server (demo_cfg\<lparr>cfg_KeyLength := 2, cfg_MaxLength := 0\<rparr>) (NewRandom []) (backend_ops zero_hash id)"
  have t: "trim_space ''h'' = ''h''"
    by (rule trim_space_id) (simp_all add: leading_rune_def space_runes_def has_prefix_def)
  have "post_data demo_lib ?h demo_post = Some ''h''"
    by (simp add: post_data_def writeOriginAllowed_def readBody_def demo_post_def plain_request_def header_get_def
        first_value_def has_prefix_def read_limited_def Let_def wrap64_nonneg t)
  then obtain rep st1 where x: "serve demo_lib ?h demo_env demo_post (demo_state demo_sqlite) = (Some rep, st1)"
    and s: "rp_status rep = 201" by (rule demo_posted_with) simp
  have "\<not> has_prefix (header_get demo_post ''Content-Type'') ''multipart/form-data''" "fst (rq_body demo_post) = ''hello''"
    by (simp_all add: demo_post_def plain_request_def header_get_def first_value_def has_prefix_def)
  with zero_limit_truncates [OF _ _ demo_route x s, where sha = zero_hash and srt = id] show ?thesis
    using x by (auto simp: demo_sqlite_def sqlite_ok_def)
qed

section \<open>The client's address\<close>

text \<open>The header line the client sent, if any, with the entries the proxies appended.\<close>

definition appended :: "string option \<Rightarrow> string list \<Rightarrow> string" where
  "appended sent entries = (case sent of None \<Rightarrow> join '','' entries | Some s \<Rightarrow> s @ '','' @ join '','' entries)"



end
