(* ===== verification/Interleaving.thy ===== *)
theory Interleaving
  imports Post_Facts
begin

text \<open>
  Requests run concurrently, and between the probe of a free key and the write under it any other
  request may run: the requests that create, read and delete pastes as a step relation, whose
  atomic steps are the calls of the store. The handlers of \<open>Handler\<close> are runs of these steps.
\<close>

section \<open>Steps\<close>

text \<open>
  A \<open>POST\<close> in flight, once its data has been accepted: it searches a key (\<open>chooseKey\<close>), has found
  one the store called free, or has been answered, with the key or with an error. The keys it
  draws are arbitrary. \<open>pl_console\<close> lists the calls the admin console has made, the last one first.
\<close>

datatype post = Searching string | Found string string | Acked string string | Failed string

record 's pool =
  pl_store :: 's
  pl_posts :: "post list"
  pl_console :: "store_call list"

text \<open>What the console calls: everything but the two operations of the paste API.\<close>

fun console_call :: "store_call \<Rightarrow> bool" where
  "console_call (CGet _ _) = False"
| "console_call (CSet _ _) = False"
| "console_call _ = True"

inductive step :: "'s store_ops \<Rightarrow> 's pool \<Rightarrow> 's pool \<Rightarrow> bool" for ops where
  Arrive: "step ops c (c\<lparr>pl_posts := pl_posts c @ [Searching d]\<rparr>)"
| Free: "i < length (pl_posts c) \<Longrightarrow> pl_posts c ! i = Searching d \<Longrightarrow> op_Get ops e k False (pl_store c) = (Inr None, s) \<Longrightarrow>
    step ops c (c\<lparr>pl_store := s, pl_posts := (pl_posts c)[i := Found d k]\<rparr>)"
| Taken: "i < length (pl_posts c) \<Longrightarrow> pl_posts c ! i = Searching d \<Longrightarrow>
    op_Get ops e k False (pl_store c) = (Inr (Some d'), s) \<Longrightarrow> step ops c (c\<lparr>pl_store := s\<rparr>)"
| Unavailable: "i < length (pl_posts c) \<Longrightarrow> pl_posts c ! i = Searching d \<Longrightarrow>
    op_Get ops e k False (pl_store c) = (Inl err, s) \<Longrightarrow>
    step ops c (c\<lparr>pl_store := s, pl_posts := (pl_posts c)[i := Failed d]\<rparr>)"
| Stored: "i < length (pl_posts c) \<Longrightarrow> pl_posts c ! i = Found d k \<Longrightarrow> op_Set ops e k d (pl_store c) = (None, s) \<Longrightarrow>
    step ops c (c\<lparr>pl_store := s, pl_posts := (pl_posts c)[i := Acked d k]\<rparr>)"
| Refused: "i < length (pl_posts c) \<Longrightarrow> pl_posts c ! i = Found d k \<Longrightarrow> op_Set ops e k d (pl_store c) = (Some err, s) \<Longrightarrow>
    step ops c (c\<lparr>pl_store := s, pl_posts := (pl_posts c)[i := Failed d]\<rparr>)"
| Read: "op_Get ops e k b (pl_store c) = (res, s) \<Longrightarrow> step ops c (c\<lparr>pl_store := s\<rparr>)"
| Console: "console_call x \<Longrightarrow>
    step ops c (c\<lparr>pl_store := store_exec ops e x (pl_store c), pl_console := x # pl_console c\<rparr>)"

abbreviation steps :: "'s store_ops \<Rightarrow> 's pool \<Rightarrow> 's pool \<Rightarrow> bool" where
  "steps ops \<equiv> (step ops)\<^sup>*\<^sup>*"

text \<open>The console has deleted the slot, or purged, at some time.\<close>

definition removed :: "'s pool \<Rightarrow> string \<Rightarrow> bool" where
  "removed c h \<longleftrightarrow> list_ex (removes h) (pl_console c)"

lemma step_removed: "step ops c c' \<Longrightarrow> removed c h \<Longrightarrow> removed c' h"
  by (induction rule: step.induct) (auto simp: removed_def)

text \<open>What one step may do to a request that has been answered: nothing.\<close>

lemma step_answered:
  "step ops c c' \<Longrightarrow> i < length (pl_posts c) \<Longrightarrow> pl_posts c ! i \<in> {Acked d k, Failed d} \<Longrightarrow>
   i < length (pl_posts c') \<and> pl_posts c' ! i = pl_posts c ! i"
  by (induction rule: step.induct) (auto simp: nth_append nth_list_update)

lemma steps_answered:
  "steps ops c c' \<Longrightarrow> i < length (pl_posts c) \<Longrightarrow> pl_posts c ! i \<in> {Acked d k, Failed d} \<Longrightarrow>
   i < length (pl_posts c') \<and> pl_posts c' ! i = pl_posts c ! i"
  by (induction rule: rtranclp_induct) (auto dest: step_answered)

section \<open>The handler is a run of steps\<close>

context managed_store
begin

lemma storePaste_steps:
  assumes "h_store h = ops" and "storePaste lib h env data r w st = (Returns, w', st')"
    and c: "pl_store c = sv_store st" "i < length (pl_posts c)" "pl_posts c ! i = Searching data"
  shows "(\<exists>key. w' = writeJSON r 201 (JObj [(''id'', JStr key)]) w \<and>
      steps ops c (c\<lparr>pl_store := sv_store st', pl_posts := (pl_posts c)[i := Acked data key]\<rparr>)) \<or>
    w' = writeError r 500 ''The paste could not be stored.'' w \<and>
      steps ops c (c\<lparr>pl_store := sv_store st', pl_posts := (pl_posts c)[i := Failed data]\<rparr>)"
proof -
  obtain res n rng s where x: "chooseKey (wl_randint lib) h env 0 (at_rng st) (sv_store st) = Some (res, n, rng, s)"
    using assms(2) by (auto simp: storePaste_def split: option.splits)
  have s: "s = sv_store st" using chooseKey_result [OF x assms(1)] by blast
  show ?thesis
  proof (cases res)
    case (KeyFree key)
    from chooseKey_result [OF x assms(1)] KeyFree obtain m
      where "fst (op_Get ops (ce_io env m) key False (sv_store st)) = Inr None" by auto
    then have "op_Get ops (ce_io env m) key False (pl_store c) = (Inr None, pl_store c)"
      using get_probe [of "ce_io env m" key "sv_store st"] c(1) by (simp add: prod_eq_iff)
    from Free [OF c(2,3) this] have found: "step ops c (c\<lparr>pl_posts := (pl_posts c)[i := Found data key]\<rparr>)"
      by simp
    let ?c = "c\<lparr>pl_posts := (pl_posts c)[i := Found data key]\<rparr>"
    obtain e s' where set: "op_Set ops (ce_io env n) key data s = (e, s')" by fastforce
    then have set': "op_Set ops (ce_io env n) key data (pl_store ?c) = (e, s')" using s c(1) by simp
    show ?thesis
    proof (cases e)
      case None
      from Stored [of i ?c data key ops "ce_io env n" s'] set' None c(2)
      have "step ops ?c (c\<lparr>pl_store := s', pl_posts := (pl_posts c)[i := Acked data key]\<rparr>)" by simp
      with found have "steps ops c (c\<lparr>pl_store := s', pl_posts := (pl_posts c)[i := Acked data key]\<rparr>)"
        by (meson converse_rtranclp_into_rtranclp r_into_rtranclp)
      moreover have "w' = writeJSON r 201 (JObj [(''id'', JStr key)]) w" "sv_store st' = s'"
        using assms(1,2) x KeyFree set None by (auto simp: storePaste_def)
      ultimately show ?thesis by auto
    next
      case (Some err)
      from Refused [of i ?c data key ops "ce_io env n" err s'] set' Some c(2)
      have "step ops ?c (c\<lparr>pl_store := s', pl_posts := (pl_posts c)[i := Failed data]\<rparr>)" by simp
      with found have "steps ops c (c\<lparr>pl_store := s', pl_posts := (pl_posts c)[i := Failed data]\<rparr>)"
        by (meson converse_rtranclp_into_rtranclp r_into_rtranclp)
      moreover have "w' = writeError r 500 ''The paste could not be stored.'' w" "sv_store st' = s'"
        using assms(1,2) x KeyFree set Some by (auto simp: storePaste_def)
      ultimately show ?thesis by auto
    qed
  next
    case (KeyErr e)
    with chooseKey_error [OF x [unfolded KeyErr] assms(1)] c(1) obtain m key
      where "op_Get ops (ce_io env m) key False (pl_store c) = (Inl e, pl_store c)" by auto
    from Unavailable [OF c(2,3) this] have "step ops c (c\<lparr>pl_posts := (pl_posts c)[i := Failed data]\<rparr>)" by simp
    moreover have "w' = writeError r 500 ''The paste could not be stored.'' w" "sv_store st' = pl_store c"
      using assms(1,2) x KeyErr s c(1) by (auto simp: storePaste_def)
    ultimately show ?thesis by auto
  qed (use assms(2) x in \<open>simp add: storePaste_def\<close>)
qed

section \<open>Invariant\<close>

text \<open>
  Every paste that has been acknowledged is in the store with its own data, and has a slot of its
  own, unless the console has emptied the slot.
\<close>

definition acknowledged :: "'a pool \<Rightarrow> bool" where
  "acknowledged c \<longleftrightarrow> invar (pl_store c) \<and>
     (\<forall>i d k. i < length (pl_posts c) \<and> pl_posts c ! i = Acked d k \<longrightarrow>
        content (pl_store c) (slot (pl_store c) k) = Some d \<or> removed c (slot (pl_store c) k)) \<and>
     (\<forall>i j d k d' k'. i < length (pl_posts c) \<and> pl_posts c ! i = Acked d k \<and>
        j < length (pl_posts c) \<and> pl_posts c ! j = Acked d' k' \<and> i \<noteq> j \<longrightarrow>
        slot (pl_store c) k \<noteq> slot (pl_store c) k' \<or> removed c (slot (pl_store c) k))"

lemma acknowledged_frame:
  assumes "acknowledged c" and "invar (pl_store c')" and "slot (pl_store c') = slot (pl_store c)"
    and "\<And>h d. content (pl_store c) h = Some d \<Longrightarrow> content (pl_store c') h = Some d \<or> removed c' h"
    and "\<And>h. removed c h \<Longrightarrow> removed c' h"
    and "\<And>i d k. i < length (pl_posts c') \<Longrightarrow> pl_posts c' ! i = Acked d k \<Longrightarrow>
      i < length (pl_posts c) \<and> pl_posts c ! i = Acked d k"
  shows "acknowledged c'"
  using assms(1,2,4-6) unfolding acknowledged_def assms(3) by meson

lemma acknowledged_stored:
  assumes "acknowledged c" and "i < length (pl_posts c)" and "pl_posts c ! i = Found d k"
    and "op_Set ops e k d (pl_store c) = (None, s)"
  shows "acknowledged (c\<lparr>pl_store := s, pl_posts := (pl_posts c)[i := Acked d k]\<rparr>)"
proof -
  let ?c = "c\<lparr>pl_store := s, pl_posts := (pl_posts c)[i := Acked d k]\<rparr>"
  from assms(1) have inv: "invar (pl_store c)"
    and own: "\<And>j d' k'. j < length (pl_posts c) \<Longrightarrow> pl_posts c ! j = Acked d' k' \<Longrightarrow>
      content (pl_store c) (slot (pl_store c) k') = Some d' \<or> removed c (slot (pl_store c) k')"
    and apart: "\<And>j j' d k d' k'. j < length (pl_posts c) \<Longrightarrow> pl_posts c ! j = Acked d k \<Longrightarrow>
      j' < length (pl_posts c) \<Longrightarrow> pl_posts c ! j' = Acked d' k' \<Longrightarrow> j \<noteq> j' \<Longrightarrow>
      slot (pl_store c) k \<noteq> slot (pl_store c) k' \<or> removed c (slot (pl_store c) k)"
    unfolding acknowledged_def by blast+
  note stores = set_stores [OF inv assms(4)]
  have slot: "slot s = slot (pl_store c)" using set_slot [of e k d "pl_store c"] assms(4) by simp
  have same: "removed ?c h \<longleftrightarrow> removed c h" for h by (simp add: removed_def)
  have new: "slot (pl_store c) k' \<noteq> slot (pl_store c) k \<or> removed c (slot (pl_store c) k)"
    if "j < length (pl_posts c)" "pl_posts c ! j = Acked d' k'" for j d' k'
    using own [OF that] stores by auto
  have inv': "invar s" using set_invar [OF inv, of e k d] assms(4) by simp
  have own': "content s (slot s k') = Some d' \<or> removed c (slot s k')"
    if "j < length (pl_posts c)" "(pl_posts c)[i := Acked d k] ! j = Acked d' k'" for j d' k'
    using that own [of j d' k'] new [of j d' k'] stores slot by (auto simp: nth_list_update assms(2) split: if_splits)
  have apart': "slot s k1 \<noteq> slot s k2 \<or> removed c (slot s k1)"
    if "j < length (pl_posts c)" "(pl_posts c)[i := Acked d k] ! j = Acked d1 k1"
      "j' < length (pl_posts c)" "(pl_posts c)[i := Acked d k] ! j' = Acked d2 k2" "j \<noteq> j'" for j j' d1 k1 d2 k2
    using that new [of j d1 k1] new [of j' d2 k2] apart [of j d1 k1 j' d2 k2] slot
    by (auto simp: nth_list_update assms(2) split: if_splits)
  from inv' own' apart' show ?thesis unfolding acknowledged_def same by (simp del: nth_list_update) blast
qed

lemma acknowledged_step:
  assumes "step ops c c'" and "acknowledged c"
  shows "acknowledged c'"
proof -
  have inv: "invar (pl_store c)" using assms(2) by (simp add: acknowledged_def)
  have get: "acknowledged (c\<lparr>pl_store := s, pl_posts := ps\<rparr>)"
    if "op_Get ops e k b (pl_store c) = (res, s)"
      and "\<And>i d k. i < length ps \<Longrightarrow> ps ! i = Acked d k \<Longrightarrow> i < length (pl_posts c) \<and> pl_posts c ! i = Acked d k"
    for e k b res s ps
    by (rule acknowledged_frame [OF assms(2)])
      (use get_invar [OF inv, of e k b] get_slot [of e k b "pl_store c"] get_content [OF inv, of e k b] that
        in \<open>auto simp: removed_def\<close>)
  from assms(1) show ?thesis
  proof cases
    case (Arrive d)
    show ?thesis unfolding Arrive
      by (rule acknowledged_frame [OF assms(2)]) (auto simp: removed_def inv nth_append split: if_splits)
  next
    case (Free i d e k s)
    show ?thesis unfolding Free(1) by (rule get [OF Free(4)]) (auto simp: nth_list_update Free(2) split: if_splits)
  next
    case (Taken i d e k d' s)
    from get [OF Taken(4), of "pl_posts c"] Taken(1) show ?thesis by simp
  next
    case (Unavailable i d e k err s)
    show ?thesis unfolding Unavailable(1)
      by (rule get [OF Unavailable(4)]) (auto simp: nth_list_update Unavailable(2) split: if_splits)
  next
    case (Stored i d k e s)
    then show ?thesis using acknowledged_stored [OF assms(2)] by simp
  next
    case (Refused i d k e err s)
    show ?thesis unfolding Refused(1)
      by (rule acknowledged_frame [OF assms(2)])
        (use set_invar [OF inv, of e k d] set_slot [of e k d "pl_store c"] set_keeps [OF inv, of _ _ e k d] Refused(4)
          in \<open>auto simp: removed_def nth_list_update Refused(2) split: if_splits\<close>)
  next
    case (Read e k b res s)
    from get [OF Read(2), of "pl_posts c"] Read(1) show ?thesis by simp
  next
    case (Console x e)
    show ?thesis unfolding Console(1)
      by (rule acknowledged_frame [OF assms(2)])
        (use exec_invar [OF inv, of e x] exec_keeps [OF inv, of _ _ x e] exec_slot [of e x "pl_store c"]
          in \<open>auto simp: removed_def\<close>)
  qed
qed

lemma acknowledged_steps: "steps ops c c' \<Longrightarrow> acknowledged c \<Longrightarrow> acknowledged c'"
  by (induction rule: rtranclp_induct) (auto intro: acknowledged_step)

end

section \<open>Properties\<close>

text \<open>
  C1. Concurrent posts never overwrite each other. However any number of \<open>POST\<close> requests are
  interleaved, even when several of them have found the same free key, and with any reads, any calls
  of the admin console and any backend failures in between: a paste whose request was answered with a
  key is in the store, with the data of its own request, from then on, and no two requests are
  answered with the same slot, unless the console has deleted that slot or purged the store.
\<close>

theorem concurrent_posts:
  assumes "backend_ok s" and "steps (backend_ops sha srt) \<lparr>pl_store = s, pl_posts = [], pl_console = []\<rparr> c"
    and "i < length (pl_posts c)" and "pl_posts c ! i = Acked d k"
  shows "(\<forall>c'. steps (backend_ops sha srt) c c' \<longrightarrow> pl_posts c' ! i = Acked d k \<and>
       (backend_content (pl_store c') (backend_slot sha (pl_store c') k) = Some d \<or>
        removed c' (backend_slot sha (pl_store c') k))) \<and>
    (\<forall>j d' k'. j < length (pl_posts c) \<and> j \<noteq> i \<and> pl_posts c ! j = Acked d' k' \<longrightarrow>
       backend_slot sha (pl_store c) k' \<noteq> backend_slot sha (pl_store c) k \<or>
       removed c (backend_slot sha (pl_store c) k))"
proof -
  have "store.acknowledged sha \<lparr>pl_store = s, pl_posts = [], pl_console = []\<rparr>"
    using assms(1) by (simp add: store.acknowledged_def)
  note acked = store.acknowledged_steps [OF assms(2) this]
  have "pl_posts c' ! i = Acked d k \<and> (backend_content (pl_store c') (backend_slot sha (pl_store c') k) = Some d \<or>
      removed c' (backend_slot sha (pl_store c') k))"
    if st: "steps (backend_ops sha srt) c c'" for c'
  proof -
    from steps_answered [OF st assms(3)] assms(4) have "i < length (pl_posts c')" "pl_posts c' ! i = Acked d k" by simp_all
    with store.acknowledged_steps [OF st acked] show ?thesis unfolding store.acknowledged_def by blast
  qed
  moreover have "backend_slot sha (pl_store c) k' \<noteq> backend_slot sha (pl_store c) k \<or> removed c (backend_slot sha (pl_store c) k)"
    if "j < length (pl_posts c)" "j \<noteq> i" "pl_posts c ! j = Acked d' k'" for j d' k'
    using acked that assms(3,4) unfolding store.acknowledged_def by metis
  ultimately show ?thesis by blast
qed

text \<open>Two requests that have found the same key.\<close>

lemma concurrent_posts_witness:
  "\<exists>c. steps (backend_ops zero_hash id) \<lparr>pl_store = demo_sqlite, pl_posts = [], pl_console = []\<rparr> c \<and>
     pl_posts c = [Acked ''one'' ''AA'', Failed ''two''] \<and>
     backend_content (pl_store c) (backend_slot zero_hash (pl_store c) ''AA'') = Some ''one''"
proof -
  let ?step = "step (backend_ops zero_hash id)"
  have probe: "backend_Get zero_hash (calm 0) ''AA'' False demo_sqlite = (Inr None, demo_sqlite)"
    by (simp add: demo_sqlite_def sqlite_Get_def sql_select_def empty_table_def Let_def)
  obtain s1 where set: "backend_Set zero_hash (calm 0) ''AA'' ''one'' demo_sqlite = (None, s1)"
    by (simp add: demo_sqlite_def sqlite_Set_def sql_insert_def slug_taken_def empty_table_def Let_def)
  obtain err s2 where dup: "backend_Set zero_hash (calm 0) ''AA'' ''two'' s1 = (Some err, s2)"
    using set by (auto simp: demo_sqlite_def sqlite_Set_def sql_insert_def slug_taken_def empty_table_def Let_def)
  have 1: "?step \<lparr>pl_store = demo_sqlite, pl_posts = [], pl_console = []\<rparr> \<lparr>pl_store = demo_sqlite, pl_posts = [Searching ''one''], pl_console = []\<rparr>"
    using Arrive [of _ "\<lparr>pl_store = demo_sqlite, pl_posts = [], pl_console = []\<rparr>" "''one''"] by simp
  have 2: "?step \<lparr>pl_store = demo_sqlite, pl_posts = [Searching ''one''], pl_console = []\<rparr>
      \<lparr>pl_store = demo_sqlite, pl_posts = [Searching ''one'', Searching ''two''], pl_console = []\<rparr>"
    using Arrive [of _ "\<lparr>pl_store = demo_sqlite, pl_posts = [Searching ''one''], pl_console = []\<rparr>" "''two''"] by simp
  have 3: "?step \<lparr>pl_store = demo_sqlite, pl_posts = [Searching ''one'', Searching ''two''], pl_console = []\<rparr>
      \<lparr>pl_store = demo_sqlite, pl_posts = [Found ''one'' ''AA'', Searching ''two''], pl_console = []\<rparr>"
    using Free [of 0 "\<lparr>pl_store = demo_sqlite, pl_posts = [Searching ''one'', Searching ''two''], pl_console = []\<rparr>" "''one''"
        "backend_ops zero_hash id" "calm 0" "''AA''" demo_sqlite] probe by simp
  have 4: "?step \<lparr>pl_store = demo_sqlite, pl_posts = [Found ''one'' ''AA'', Searching ''two''], pl_console = []\<rparr>
      \<lparr>pl_store = demo_sqlite, pl_posts = [Found ''one'' ''AA'', Found ''two'' ''AA''], pl_console = []\<rparr>"
    using Free [of 1 "\<lparr>pl_store = demo_sqlite, pl_posts = [Found ''one'' ''AA'', Searching ''two''], pl_console = []\<rparr>" "''two''"
        "backend_ops zero_hash id" "calm 0" "''AA''" demo_sqlite] probe by simp
  have 5: "?step \<lparr>pl_store = demo_sqlite, pl_posts = [Found ''one'' ''AA'', Found ''two'' ''AA''], pl_console = []\<rparr>
      \<lparr>pl_store = s1, pl_posts = [Acked ''one'' ''AA'', Found ''two'' ''AA''], pl_console = []\<rparr>"
    using Stored [of 0 "\<lparr>pl_store = demo_sqlite, pl_posts = [Found ''one'' ''AA'', Found ''two'' ''AA''], pl_console = []\<rparr>" "''one''" "''AA''"
        "backend_ops zero_hash id" "calm 0" s1] set by simp
  have 6: "?step \<lparr>pl_store = s1, pl_posts = [Acked ''one'' ''AA'', Found ''two'' ''AA''], pl_console = []\<rparr>
      \<lparr>pl_store = s2, pl_posts = [Acked ''one'' ''AA'', Failed ''two''], pl_console = []\<rparr>"
    using Refused [of 1 "\<lparr>pl_store = s1, pl_posts = [Acked ''one'' ''AA'', Found ''two'' ''AA''], pl_console = []\<rparr>" "''two''" "''AA''"
        "backend_ops zero_hash id" "calm 0" err s2] dup by simp
  let ?c = "\<lparr>pl_store = s2, pl_posts = [Acked ''one'' ''AA'', Failed ''two''], pl_console = []\<rparr>"
  have run: "steps (backend_ops zero_hash id) \<lparr>pl_store = demo_sqlite, pl_posts = [], pl_console = []\<rparr> ?c"
    by (rule converse_rtranclp_into_rtranclp [where r = ?step], rule 1,
        rule converse_rtranclp_into_rtranclp [where r = ?step], rule 2,
        rule converse_rtranclp_into_rtranclp [where r = ?step], rule 3,
        rule converse_rtranclp_into_rtranclp [where r = ?step], rule 4,
        rule converse_rtranclp_into_rtranclp [where r = ?step], rule 5,
        rule r_into_rtranclp [where r = ?step], rule 6)
  have "backend_content (pl_store ?c) (backend_slot zero_hash (pl_store ?c) ''AA'') = Some ''one''"
    using concurrent_posts [OF demo_web_simps(5) run, of 0 "''one''" "''AA''"] by (auto simp: removed_def)
  with run show ?thesis by (intro exI [of _ ?c]) simp
qed

text \<open>
  C18. The requests of the server are runs of these steps. Whatever else is in flight, an accepted \<open>POST\<close>
  that is answered has gone from searching to acknowledged with the key of its 201, or to failed with a
  500, by steps of the relation, and has made the store what the steps made it; a panic, which the random
  source alone can cause, leaves the store as it was. So \<open>concurrent_posts\<close> speaks of the handler.
\<close>

theorem post_is_steps:
  assumes "h_store h = backend_ops sha srt" and "accepted lib h env r st data"
    and "serve lib h env r st = (Some rep, st1)"
    and "pl_store c = sv_store st" and "i < length (pl_posts c)" and "pl_posts c ! i = Searching data"
  shows "(\<exists>key. rp_status rep = 201 \<and> rp_body rep = created key \<and>
      steps (backend_ops sha srt) c (c\<lparr>pl_store := sv_store st1, pl_posts := (pl_posts c)[i := Acked data key]\<rparr>)) \<or>
    rp_status rep = 500 \<and>
      (steps (backend_ops sha srt) c (c\<lparr>pl_store := sv_store st1, pl_posts := (pl_posts c)[i := Failed data]\<rparr>) \<or>
       sv_store st1 = sv_store st)"
proof -
  obtain l where s: "serve lib h env r st =
    (case storePaste lib h env data r (entry h r) ((begun lib r st)\<lparr>sv_pattern := ''POST /api/pastes'', sv_limiter := l\<rparr>) of
        (Returns, w, st) \<Rightarrow> answered lib h r w st
      | (Panics p, w, st) \<Rightarrow> (Some (finish r (panicked w)), recovered lib r p st)
      | (Hangs, w, st) \<Rightarrow> (None, st))" by (rule accepted_serve [OF assms(2)])
  let ?st = "(begun lib r st)\<lparr>sv_pattern := ''POST /api/pastes'', sv_limiter := l\<rparr>"
  obtain res w st' where sp: "storePaste lib h env data r (entry h r) ?st = (res, w, st')" by (rule prod_cases3)
  have "\<not> is_head r" using route_method(3) [of h "rq_Method r"] assms(2) by (auto simp: is_head_def accepted_def)
  then have body: "rp_body (finish r (writeJSON r 201 (JObj [(''id'', JStr key)]) (entry h r))) = created key" for key
    by (simp add: writeJSON_body created_def)
  show ?thesis
  proof (cases res)
    case Returns
    with s sp assms(3) have "rep = finish r w" "sv_store st1 = sv_store st'" by (auto simp: answered_def)
    moreover have "pl_store c = sv_store ?st" using assms(4) by simp
    ultimately show ?thesis
      using store.storePaste_steps [OF assms(1) sp [unfolded Returns] _ assms(5,6)] body
      by (auto simp: writeJSON_status writeError_status)
  next
    case (Panics p)
    obtain n rng s' where ck: "chooseKey (wl_randint lib) h env 0 (at_rng st) (sv_store st) = Some (KeyPanic p, n, rng, s')"
      using sp Panics by (auto simp: storePaste_def split: option.splits prod.splits chosen.splits)
    have "s' = sv_store st" using store.chooseKey_result [OF ck assms(1)] by blast
    with ck sp Panics have "sv_store st' = sv_store st" "w = entry h r" by (auto simp: storePaste_def)
    with s sp Panics assms(3) show ?thesis by (auto simp: panicked_def finish_def)
  qed (use s sp assms(3) in auto)
qed

lemma post_is_steps_witness:
  "\<exists>rep st1 c. serve demo_lib demo_web demo_env demo_post (demo_state demo_sqlite) = (Some rep, st1) \<and>
     steps (backend_ops zero_hash id) \<lparr>pl_store = demo_sqlite, pl_posts = [Searching ''other'', Searching ''hello''], pl_console = []\<rparr> c \<and>
     (\<exists>key. pl_posts c = [Searching ''other'', Acked ''hello'' key])"
proof -
  obtain rep st1 where x: "serve demo_lib demo_web demo_env demo_post (demo_state demo_sqlite) = (Some rep, st1)"
    and s: "rp_status rep = 201" by (rule demo_posted)
  from post_is_steps [OF demo_web_simps(1) demo_web_accepted x,
      of "\<lparr>pl_store = demo_sqlite, pl_posts = [Searching ''other'', Searching ''hello''], pl_console = []\<rparr>" 1] s x
  show ?thesis by auto
qed

end
