(* ===== verification/Json_Facts.thy ===== *)
theory Json_Facts
  imports Paste_Facts
begin

text \<open>
  What the JSON encoder writes is read back by a JSON parser as what was encoded. The parser below
  is a reference definition, after the grammar of JSON strings: it is not part of the program.
\<close>

section \<open>A parser for JSON strings\<close>

definition hex_value :: "char \<Rightarrow> nat option" where
  "hex_value c =
     (let n = of_char c in
      if 48 \<le> n \<and> n \<le> 57 then Some (n - 48) else if 97 \<le> n \<and> n \<le> 102 then Some (n - 87)
      else if 65 \<le> n \<and> n \<le> 70 then Some (n - 55) else None)"

definition hex4 :: "char \<Rightarrow> char \<Rightarrow> char \<Rightarrow> char \<Rightarrow> nat option" where
  "hex4 a b c d = (case (hex_value a, hex_value b, hex_value c, hex_value d) of
      (Some a, Some b, Some c, Some d) \<Rightarrow> Some (((a * 16 + b) * 16 + c) * 16 + d) | _ \<Rightarrow> None)"

text \<open>The UTF-8 encoding of a code point below \<open>2\<^sup>1\<^sup>6\<close>.\<close>

definition utf8 :: "nat \<Rightarrow> string" where
  "utf8 n = map char_of
     (if n < 128 then [n] else if n < 2048 then [192 + n div 64, 128 + n mod 64]
      else [224 + n div 4096, 128 + n div 64 mod 64, 128 + n mod 64])"

definition plain_escape :: "char \<Rightarrow> char option" where
  "plain_escape e = map_of [(CHR 0x22, CHR 0x22), (CHR 0x5C, CHR 0x5C), (CHR ''/'', CHR ''/''),
     (CHR ''b'', CHR 0x08), (CHR ''f'', CHR 0x0C), (CHR ''n'', CHR 0x0A), (CHR ''r'', CHR 0x0D), (CHR ''t'', CHR 0x09)] e"

text \<open>From after the opening quote: the string, and what follows the closing quote.\<close>

function parse_string :: "string \<Rightarrow> (string \<times> string) option" where
  "parse_string [] = None"
| "parse_string (c # cs) =
     (if c = CHR 0x22 then Some ([], cs)
      else if c = CHR 0x5C then
        (case cs of
           [] \<Rightarrow> None
         | e # cs' \<Rightarrow>
             if e = CHR ''u'' then
               (case cs' of
                  x1 # x2 # x3 # x4 # r \<Rightarrow>
                    (case hex4 x1 x2 x3 x4 of None \<Rightarrow> None
                     | Some n \<Rightarrow> map_option (apfst ((@) (utf8 n))) (parse_string r))
                | _ \<Rightarrow> None)
             else (case plain_escape e of None \<Rightarrow> None
                   | Some b \<Rightarrow> map_option (apfst ((#) b)) (parse_string cs')))
      else if of_char c < (32 :: nat) then None
      else map_option (apfst ((#) c)) (parse_string cs))"
  by pat_completeness auto
termination by (relation "measure length") auto

declare rune_len.simps [simp del] parse_string.simps [simp del]

lemma parse_plain:
  assumes "c \<noteq> CHR 0x22" and "c \<noteq> CHR 0x5C" and "32 \<le> (of_char c :: nat)"
  shows "parse_string (c # cs) = map_option (apfst ((#) c)) (parse_string cs)"
  using assms by (simp add: parse_string.simps)

lemma parse_plains:
  "\<forall>c \<in> set u. 128 \<le> (of_char c :: nat) \<Longrightarrow> parse_string (u @ cs) = map_option (apfst ((@) u)) (parse_string cs)"
proof (induction u)
  case Nil
  show ?case by (cases "parse_string cs") (simp_all add: apfst_def map_prod_def split: prod.split)
next
  case (Cons c u)
  from Cons.prems have "c \<noteq> CHR 0x22" "c \<noteq> CHR 0x5C" "32 \<le> (of_char c :: nat)" by auto
  with Cons show ?case
    by (cases "parse_string cs") (auto simp: parse_plain)
qed

section \<open>Valid text\<close>

lemma rune_error_len: "rune_len (CHR 0xEF # CHR 0xBF # CHR 0xBD # r) = 3"
  by (simp add: rune_len.simps in_bytes_def)

lemma valid_cases:
  assumes "valid_utf8 s" and "s \<noteq> []"
  shows "rune_len s \<noteq> 0 \<and> valid_utf8 (drop (rune_len s) s)"
proof -
  have "rune_len s \<noteq> 0"
  proof
    assume z: "rune_len s = 0"
    with assms have "s = rune_error @ concat (runes (tl s))"
      by (metis concat.simps(2) runes.simps valid_utf8_def)
    then have "rune_len s = 3"
      by (metis append_Cons rune_error_def rune_error_len)
    with z show False by simp
  qed
  moreover from this assms have "take (rune_len s) s @ concat (runes (drop (rune_len s) s)) = s"
    by (metis concat.simps(2) runes.simps valid_utf8_def)
  ultimately show ?thesis by (metis append_take_drop_id same_append_eq valid_utf8_def)
qed

lemma rune_len_values: "rune_len s \<in> {0, 1, 2, 3, 4}"
  by (cases s) (simp_all add: rune_len.simps split: if_split list.split)

lemma rune_two: "rune_len s = 2 \<Longrightarrow> \<exists>c c1 r. s = c # c1 # r \<and> in_bytes 194 223 c \<and> in_bytes 128 191 c1"
  by (cases s) (simp_all add: rune_len.simps split: if_split_asm list.split_asm)

lemma rune_three: "rune_len s = 3 \<Longrightarrow> \<exists>c c1 c2 r lo hi. s = c # c1 # c2 # r \<and> in_bytes 224 239 c \<and>
    in_bytes lo hi c1 \<and> 128 \<le> lo \<and> in_bytes 128 191 c2"
  by (cases s) (auto simp add: rune_len.simps split: if_split_asm list.split_asm)

lemma rune_four: "rune_len s = 4 \<Longrightarrow> \<exists>c c1 c2 c3 r lo hi. s = c # c1 # c2 # c3 # r \<and> in_bytes 240 244 c \<and>
    in_bytes lo hi c1 \<and> 128 \<le> lo \<and> in_bytes 128 191 c2 \<and> in_bytes 128 191 c3"
  by (cases s) (auto simp add: rune_len.simps split: if_split_asm list.split_asm)

lemma long_rune_bytes: "1 < rune_len s \<Longrightarrow> \<forall>c \<in> set (take (rune_len s) s). 128 \<le> (of_char c :: nat)"
proof -
  assume "1 < rune_len s"
  with rune_len_values [of s] consider "rune_len s = 2" | "rune_len s = 3" | "rune_len s = 4" by auto
  then show ?thesis
  proof cases
    case 1
    with rune_two [OF this] show ?thesis by (auto simp: in_bytes_def)
  next
    case 2
    with rune_three [OF this] show ?thesis by (auto simp: numeral_3_eq_3 in_bytes_def)
  next
    case 3
    with rune_four [OF this] show ?thesis by (auto simp: eval_nat_numeral in_bytes_def)
  qed
qed

lemma one_rune_byte: "rune_len (c # s) = 1 \<Longrightarrow> (of_char c :: nat) < 128"
  by (simp add: rune_len.simps split: if_split_asm list.split_asm) (simp add: in_bytes_def)

section \<open>One rune\<close>

lemma hex_value_digit: "n < 16 \<Longrightarrow> hex_value (hex_digits ! n) = Some n"
proof -
  assume "n < 16"
  then have "n \<in> {0, 1, 2, 3, 4, 5, 6, 7, 8, 9, 10, 11, 12, 13, 14, 15}" by simp presburger
  then show ?thesis by (elim insertE) (simp_all add: hex_value_def hex_digits_def)
qed

lemma parse_ascii:
  assumes "(of_char c :: nat) < 128"
  shows "parse_string (json_ascii c @ cs) = map_option (apfst ((#) c)) (parse_string cs)"
proof -
  let ?special = "{CHR 0x22, CHR 0x5C, CHR 0x08, CHR 0x0C, CHR 0x0A, CHR 0x0D, CHR 0x09}"
  show ?thesis
  proof (cases "c \<in> ?special")
    case True
    then show ?thesis
      by (elim insertE) (simp_all add: json_ascii_def plain_escape_def parse_string.simps)
  next
    case ordinary: False
    show ?thesis
    proof (cases "of_char c < (32::nat) \<or> c \<in> {CHR ''<'', CHR ''>'', CHR ''&''}")
      case True
      have "hex4 (CHR ''0'') (CHR ''0'') (hex_digits ! (of_char c div 16)) (hex_digits ! (of_char c mod 16)) = Some (of_char c)"
        using assms by (simp add: hex4_def hex_value_digit) (simp add: hex_value_def)
      moreover have "utf8 (of_char c) = [c]" using assms by (simp add: utf8_def)
      moreover have "json_ascii c = [CHR 0x5C, CHR ''u'', CHR ''0'', CHR ''0'', hex_digits ! (of_char c div 16), hex_digits ! (of_char c mod 16)]"
        using True ordinary by (simp add: json_ascii_def Let_def)
      moreover have "(@) [c] = (#) c" by (simp add: fun_eq_iff)
      ultimately show ?thesis by (simp add: parse_string.simps)
    next
      case False
      with ordinary have "json_ascii c = [c]" by (simp add: json_ascii_def)
      with False ordinary show ?thesis by (simp add: parse_plain)
    qed
  qed
qed

lemma separator_bytes: "char_of (226 :: nat) = CHR 0xE2" "char_of (128 :: nat) = CHR 0x80"
    "char_of (168 :: nat) = CHR 0xA8" "char_of (169 :: nat) = CHR 0xA9"
  by (simp_all add: char_of_eq_iff take_bit_eq_mod)

lemma parse_separators:
  "parse_string (CHR 0x5C # ''u2028'' @ cs) = map_option (apfst ((@) [CHR 0xE2, CHR 0x80, CHR 0xA8])) (parse_string cs)"
  "parse_string (CHR 0x5C # ''u2029'' @ cs) = map_option (apfst ((@) [CHR 0xE2, CHR 0x80, CHR 0xA9])) (parse_string cs)"
  by (simp_all add: parse_string.simps hex4_def hex_value_def utf8_def separator_bytes)

lemma parse_escape:
  "valid_utf8 s \<Longrightarrow> parse_string (json_escape s @ CHR 0x22 # rest) = Some (s, rest)"
proof (induction s rule: length_induct)
  case (1 s)
  note valid = 1(2)
  have IH: "parse_string (json_escape s' @ CHR 0x22 # rest) = Some (s', rest)" if "length s' < length s" "valid_utf8 s'" for s'
    using 1(1) that by blast
  show ?case
  proof (cases s)
    case Nil
    then show ?thesis by (simp add: json_escape.simps parse_string.simps)
  next
    case (Cons c cs)
    with valid_cases [OF valid] have n: "rune_len s \<noteq> 0" and rest: "valid_utf8 (drop (rune_len s) s)" by simp_all
    show ?thesis
    proof (cases "rune_len s = 1")
      case True
      with Cons rest have "valid_utf8 cs" by simp
      moreover have "json_escape s = json_ascii c @ json_escape cs" using True Cons
        by (simp add: json_escape.simps [of "c # cs"])
      moreover have "(of_char c :: nat) < 128" using one_rune_byte [of c cs] True Cons by simp
      ultimately show ?thesis using IH [of cs] Cons by (simp add: parse_ascii)
    next
      case False
      define u where "u = take (rune_len s) s"
      have split: "u @ drop (rune_len s) s = s" by (simp add: u_def)
      have esc: "json_escape s = (if u = [CHR 0xE2, CHR 0x80, CHR 0xA8] then CHR 0x5C # ''u2028''
             else if u = [CHR 0xE2, CHR 0x80, CHR 0xA9] then CHR 0x5C # ''u2029'' else u) @ json_escape (drop (rune_len s) s)"
        using n False Cons by (simp add: json_escape.simps [of "c # cs"] u_def Let_def)
      have "parse_string (json_escape s @ CHR 0x22 # rest) =
          map_option (apfst ((@) u)) (parse_string (json_escape (drop (rune_len s) s) @ CHR 0x22 # rest))"
        using long_rune_bytes [of s] n False parse_separators parse_plains [of u]
        by (auto simp: esc u_def [symmetric])
      moreover have "length (drop (rune_len s) s) < length s" using n Cons by simp
      ultimately show ?thesis using IH [OF _ rest] split by simp
    qed
  qed
qed

text \<open>What a browser must not see in a reply that it might take for HTML.\<close>

definition html_safe :: "char \<Rightarrow> bool" where
  "html_safe c \<longleftrightarrow> c \<notin> {CHR ''<'', CHR ''>'', CHR ''&''} \<and> 32 \<le> (of_char c :: nat)"

lemma hex_digits_safe: "list_all html_safe hex_digits"
  by (simp add: html_safe_def hex_digits_def)

lemma json_ascii_safe: "list_all html_safe (json_ascii c)"
proof -
  have "html_safe (hex_digits ! n)" if "n < 16" for n
    using hex_digits_safe that by (simp add: list_all_length)
  moreover have "of_char c div 16 < (16 :: nat)" using of_char_less_256 [of c] by (simp add: less_mult_imp_div_less)
  ultimately have "list_all html_safe (hex_encode [c])" by (simp add: Let_def)
  then show ?thesis by (simp add: json_ascii_def html_safe_def del: hex_encode.simps)
qed

lemma json_escape_safe: "list_all html_safe (json_escape s)"
proof (induction s rule: length_induct)
  case (1 s)
  show ?case
  proof (cases s)
    case Nil
    then show ?thesis by (simp add: json_escape.simps)
  next
    case (Cons c cs)
    then have IH: "list_all html_safe (json_escape cs)" "rune_len s \<noteq> 0 \<Longrightarrow> list_all html_safe (json_escape (drop (rune_len s) s))"
      using 1 by simp_all
    have "list_all html_safe (take (rune_len s) s)" if "1 < rune_len s"
      using long_rune_bytes [OF that] by (force simp: list_all_iff html_safe_def)
    with IH show ?thesis
      using Cons by (simp add: json_escape.simps [of "c # cs"] json_ascii_safe Let_def) (simp add: html_safe_def)
  qed
qed

section \<open>Replies\<close>

text \<open>The object \<open>handleGet\<close> sends: the content and the key.\<close>

definition parse_reply :: "string \<Rightarrow> (string \<times> string) option" where
  "parse_reply body =
     (let head = CHR ''{'' # CHR 0x22 # ''content'' @ [CHR 0x22, CHR '':'', CHR 0x22];
          between = CHR '','' # CHR 0x22 # ''id'' @ [CHR 0x22, CHR '':'', CHR 0x22]
      in if \<not> has_prefix body head then None
         else case parse_string (drop (length head) body) of None \<Rightarrow> None
         | Some (d, rest) \<Rightarrow>
             if \<not> has_prefix rest between then None
             else (case parse_string (drop (length between) rest) of None \<Rightarrow> None
               | Some (k, rest) \<Rightarrow> if rest = [CHR ''}'', CHR 0x0A] then Some (d, k) else None))"

lemma escape_names: "json_escape ''content'' = ''content''" "json_escape ''id'' = ''id''"
  by code_simp+

lemma parse_reply_encode:
  assumes "valid_utf8 d" and "valid_utf8 k"
  shows "parse_reply (json_encode (JObj [(''content'', JStr d), (''id'', JStr k)]) @ [CHR 0x0A]) = Some (d, k)"
  using parse_escape [OF assms(1)] parse_escape [OF assms(2)]
  by (simp add: parse_reply_def json_quote_def escape_names has_prefix_def Let_def)

text \<open>
  C19. The JSON form of a paste is faithful for text. When a stored paste is valid UTF-8, a JSON
  parser reads from the reply of a \<open>GET\<close> exactly the paste and its key; and the encoded content
  holds no character with which a browser could take the reply for HTML, nor a control character.
\<close>

theorem json_reply_parses:
  assumes "h_store h = backend_ops sha srt" and "backend_ok (sv_store st)"
    and "mux_route h (rq_Method r) (rq_segments r) = Some (RGet ident)" and "\<not> is_head r"
    and "fst (lets_pass env r st)" and "io_ok (ce_io env 0)"
    and "backend_live (ce_io env 0) (sv_store st) (backend_slot sha (sv_store st) (keyParam ident))"
    and "backend_content (sv_store st) (backend_slot sha (sv_store st) (keyParam ident)) = Some d"
    and "valid_utf8 d" and "valid_utf8 (keyParam ident)"
  shows "\<exists>rep st'. serve lib h env r st = (Some rep, st') \<and> rp_status rep = 200 \<and>
    parse_reply (rp_body rep) = Some (d, keyParam ident) \<and> list_all html_safe (json_escape d)"
proof -
  have "mux_route h (rq_Method r) (rq_segments r) \<in> {Some (RGet ident), Some (RRawGet ident)}" using assms(3) by simp
  from read_reply [OF assms(1,2) this assms(5,6), of lib] assms(3,4,7,8) obtain rep st'
    where "serve lib h env r st = (Some rep, st')" and "rp_status rep = 200"
      and "rp_body rep = json_encode (JObj [(''content'', JStr d), (''id'', JStr (keyParam ident))]) @ [CHR 0x0A]"
    by auto
  with parse_reply_encode [OF assms(9,10)] show ?thesis by (simp add: json_escape_safe)
qed

lemma json_reply_parses_witness:
  "\<exists>rep st'. serve demo_lib demo_web demo_env (plain_request\<lparr>rq_segments := [''api'', ''pastes'', ''k'']\<rparr>)
      (demo_state (Sqlite \<lparr>sq_db = one_row, sq_expire = 60\<rparr>)) = (Some rep, st') \<and>
     parse_reply (rp_body rep) = Some (''text'', ''k'')"
proof -
  let ?s = "Sqlite \<lparr>sq_db = one_row, sq_expire = 60\<rparr>" and ?r = "plain_request\<lparr>rq_segments := [''api'', ''pastes'', ''k'']\<rparr>"
  have k: "keyParam ''k'' = ''k''" by (simp add: keyParam_def)
  have "backend_live (calm 0) ?s ''k''"
    by (simp add: sqlite_live_def tb_live_def tb_lookup_def one_row_def row_live_def unix_def)
  moreover have "mux_route demo_web (rq_Method ?r) (rq_segments ?r) = Some (RGet ''k'')" "\<not> is_head ?r"
    by (simp_all add: mux_route_def public_route_def is_head_def plain_request_def wild_def)
  moreover have "valid_utf8 ''text''" "valid_utf8 ''k''" by (simp_all add: ascii_valid ascii_def in_bytes_def)
  ultimately show ?thesis
    using json_reply_parses [OF demo_web_simps(1) demo_one_row(1), of ?r "''k''" demo_env "''text''" demo_lib]
      demo_one_row(2) k by (auto simp: demo_limiter)
qed

text \<open>Bytes that are no UTF-8 do not survive: different pastes can have the same JSON form.\<close>

lemma invalid_utf8_collides:
  "json_encode (JStr [CHR 0xFF]) = json_encode (JStr [CHR 0xFE])" "\<not> valid_utf8 [CHR 0xFF]"
  by code_simp+

end
