(* ===== verification/Server_Facts.thy ===== *)
theory Server_Facts
  imports Post_Facts
begin

text \<open>
  The assembled server: what a server without a console exposes, and where the parts do not fit
  together: the preloaded document among the expiring pastes, and the handles of the file backend
  against the list of preloaded keys.
\<close>

section \<open>Without a console\<close>

lemma public_route_range: "public_route meth segs \<in> {None, Some RPost, Some RFrontend} \<union> range (Some \<circ> RGet) \<union> range (Some \<circ> RRawGet)"
  by (auto simp: public_route_def split: list.split)

lemma public_sessions:
  assumes "rt \<in> {RPost, RFrontend} \<union> range RGet \<union> range RRawGet"
  shows "at_sessions (snd (snd (serve_route lib h m env rt r w st))) = at_sessions st"
proof -
  have "at_sessions (snd (snd (storePaste lib h env d r w st))) = at_sessions st" for d st
    by (simp add: storePaste_def split: option.split prod.split chosen.split)
  then have "at_sessions (snd (snd (handlePost lib h env r w st))) = at_sessions st"
    by (simp add: handlePost_def split: sum.split prod.split bool.split)
  moreover have "at_sessions (snd (snd (handleGet h env k r w st))) = at_sessions st" for k
    by (simp add: handleGet_def Let_def split: prod.split sum.split option.split)
  moreover have "at_sessions (snd (snd (handleRawGet h env k r w st))) = at_sessions st" for k
    by (simp add: handleRawGet_def Let_def split: prod.split sum.split option.split)
  ultimately show ?thesis using assms by (auto simp: handleFrontend_state)
qed

text \<open>
  C21. A server whose configuration enables no console has no administrative surface: every request
  is routed to the paste API or the frontend (or has no route), the session table never changes,
  whatever cookie is presented, and no request removes or changes a stored paste.
\<close>

theorem no_console_no_admin:
  assumes "h_store h = backend_ops sha srt" and "backend_ok (sv_store st)" and "console h = None"
  shows "mux_route h (rq_Method r) (rq_segments r) \<in>
      {None, Some RPost, Some RFrontend} \<union> range (Some \<circ> RGet) \<union> range (Some \<circ> RRawGet) \<and>
    at_sessions (snd (serve lib h env r st)) = at_sessions st \<and>
    (\<forall>k d. backend_content (sv_store st) k = Some d \<longrightarrow>
       backend_content (sv_store (snd (serve lib h env r st))) k = Some d)"
proof -
  have route: "mux_route h (rq_Method r) (rq_segments r) \<in>
      {None, Some RPost, Some RFrontend} \<union> range (Some \<circ> RGet) \<union> range (Some \<circ> RRawGet)"
    using public_route_range by (simp only: mux_route_def assms(3) Let_def option.case)
  have "at_sessions (snd (snd (reach lib h env r st))) = at_sessions st"
  proof (cases "mux_route h (rq_Method r) (rq_segments r)")
    case (Some rt)
    with route have "rt \<in> {RPost, RFrontend} \<union> range RGet \<union> range RRawGet" by auto
    with Some show ?thesis by (simp add: reach_def mux_def public_sessions)
  qed (simp add: reach_def mux_def)
  then have "at_sessions (snd (serve lib h env r st)) = at_sessions st"
    by (rule_tac serve_cases [where lib = lib and h = h and env = env and r = r and st = st]) (auto simp: answered_def)
  moreover have "mux_route h (rq_Method r) (rq_segments r) \<notin> {Some RAdminPurge, Some (RAdminDelete k)}" for k
    using route by auto
  ultimately show ?thesis using route serve_keeps [OF assms(1,2)] by blast
qed

lemma no_console_no_admin_witness:
  "at_sessions (snd (serve demo_lib demo_web demo_env demo_post (demo_state demo_sqlite))) = newSessionStore"
  using no_console_no_admin [OF demo_web_simps(1) _ demo_web_simps(4), of "demo_state demo_sqlite" demo_post demo_lib demo_env]
  by (simp add: demo_state_def)

section \<open>The preloaded document\<close>

text \<open>
  The preloaded document expires like any paste. Although it is meant to be always reachable, a
  SQLite store with an expiry gives it a deadline when it is seeded; reads of it do not slide the
  deadline; after it readers get nothing; and a restart does not seed it again, because the expired
  row still occupies the key: the store stays as it is and the key counts as preloaded.
\<close>

lemma about_expires:
  assumes "sqlite_ok t" and "backend_Set sha env aboutKey about (Sqlite t) = (None, s1)" and "0 < sq_expire t"
    and "wrap64 (unix env + sq_expire t) \<le> unix env'" and "io_ok env'"
  shows "preloadDocuments (backend_ops sha srt) env about (Sqlite t) = ([aboutKey], s1) \<and>
    backend_Get sha env' aboutKey False s1 = (Inr None, s1) \<and>
    preloadDocuments (backend_ops sha srt) env' about' s1 = ([aboutKey], s1)"
proof -
  from assms(2) obtain t1 where set: "sqlite_Set env aboutKey about t = (None, t1)" and s1: "s1 = Sqlite t1"
    by (auto simp: apsnd_eq)
  then obtain tb where tb: "sql_insert aboutKey about (unix env) (sqlite_deadline env t) (sq_db t) = Some tb"
    and t1: "t1 = t\<lparr>sq_db := tb\<rparr>"
    by (auto simp: sqlite_Set_eq split: if_splits option.splits)
  have io: "\<not> io_fail env' 0" using assms(5) by (simp add: io_ok_def)
  have ok: "table_ok tb" using insert_ok [OF _ tb] assms(1) by (simp add: sqlite_ok_def)
  have "tb_lookup tb aboutKey = Some \<lparr>row_id = tb_next (sq_db t), row_slug = aboutKey, row_body = about,
      row_created = unix env, row_expires = Some (wrap64 (unix env + sq_expire t))\<rparr>"
    using insert_lookup [OF tb, of aboutKey] assms(3) by (simp add: sqlite_deadline_def)
  then have get: "sqlite_Get env' aboutKey False t1 = (Inr None, t1)"
    and dup: "sqlite_Set env' aboutKey about' t1 = (Some ErrKeyExists, t1)"
    using assms(4) io
    by (simp_all add: sqlite_Get_eq sqlite_Set_eq t1 sql_select_eq [OF ok] row_live_def sql_insert_def slug_taken_lookup)
  from assms(2) get dup s1 show ?thesis by (simp add: preloadDocuments_def)
qed

lemma about_expires_witness:
  "backend_Get zero_hash (calm (10 ^ 11)) aboutKey False
     (snd (preloadDocuments (backend_ops zero_hash id) (calm 0) ''# about'' demo_sqlite)) =
   (Inr None, snd (preloadDocuments (backend_ops zero_hash id) (calm 0) ''# about'' demo_sqlite))"
proof -
  let ?t = "\<lparr>sq_db = empty_table, sq_expire = 60\<rparr>"
  obtain s1 where "backend_Set zero_hash (calm 0) aboutKey ''# about'' (Sqlite ?t) = (None, s1)"
    by (simp add: sqlite_Set_def sql_insert_def slug_taken_def empty_table_def Let_def)
  from about_expires [OF _ this, of "calm (10 ^ 11)" id] show ?thesis
    by (simp add: sqlite_ok_def unix_def wrap64_nonneg demo_sqlite_def)
qed

text \<open>
  With the file backend the protection of the preloaded document from deletion has no effect: the
  console's handles are hashes there, while the list of preloaded keys has the key itself. The
  listing does not mark the document, and an administrator's deletion removes it.
\<close>

lemma file_backend_builtin_deletable:
  assumes "h_store h = backend_ops sha srt" and "h_staticKeys h = [aboutKey]" and "sv_store st = Files t"
    and "file_content t (filename sha aboutKey) = Some d" and "io_ok (ce_io env 0)" and "rs_sent w = None"
  shows "\<exists>w' st'. adminDeletePaste h env (filename sha aboutKey) r w st = (Returns, w', st') \<and>
    rp_status (finish r w') = 200 \<and> backend_content (sv_store st') (filename sha aboutKey) = None \<and>
    \<not> pr_Builtin (pasteRow_of h \<lparr>pm_Key = filename sha aboutKey, pm_Size = n, pm_Created = c, pm_Expiration = e\<rparr>)"
proof -
  have len: "length (filename sha aboutKey) = 64" by (simp add: filename_def)
  then have ne: "filename sha aboutKey \<noteq> aboutKey" "filename sha aboutKey \<noteq> []" by (auto simp: aboutKey_def)
  have io: "\<not> io_fail (ce_io env 0) 0" using assms(5) by (simp add: io_ok_def)
  obtain t' where del: "file_Delete (ce_io env 0) (filename sha aboutKey) t = (Inr True, t')"
    and gone: "file_content t' (filename sha aboutKey) = None"
    using assms(4) io filename_handle [of sha aboutKey]
    by (auto simp: file_Delete_def file_content_def split: option.splits dirent.splits if_splits)
  from del gone ne assms(1-3,6) show ?thesis
    by (simp add: adminDeletePaste_def writeJSON_status pasteRow_of_def PasteMeta.defs pasteRow.defs)
qed

section \<open>From start-up on\<close>

lemma handler_New_fields:
  assumes "handler_New template idx embedded overlay cfg ops gen m keys assets s rng = Some (h, st)"
  shows "h_cfg h = cfg" "h_store h = ops" "h_keygen h = gen" "h_auth h = Some m" "h_staticKeys h = keys"
    "sv_store st = s" "at_sessions st = newSessionStore" "sv_log st = []"
  using assms by (auto simp: handler_New_def Let_def split: bind_splits)

lemma New_generator:
  "New openFile typ path = Inr gen \<Longrightarrow> gen \<in> {NewRandom [], NewPhonetic} \<or> (\<exists>w ws. gen = Dictionary (w # ws))"
  by (auto simp: New_def NewDictionary_def Let_def neq_Nil_conv split: if_splits option.splits)

text \<open>The tables the databases already have are as their constraints and their encoding make them.\<close>

definition tables_ok :: "backend_world \<Rightarrow> bool" where
  "tables_ok bw \<longleftrightarrow>
     (\<forall>dsn tb. bw_pool bw dsn = Some tb \<longrightarrow> table_ok tb \<and> (\<forall>k \<in> slugs tb. bw_accepts bw k)) \<and>
     (\<forall>path tb. bw_sqlite bw path = Some tb \<longrightarrow> table_ok tb)"

lemma store_New_ok: "store_New env bw cfg = Inr s \<Longrightarrow> tables_ok bw \<Longrightarrow> backend_ok s"
  by (auto simp: store_New_def newPostgres_def createPastesTable_def newSQLite_def newFile_def Let_def postgres_ok_def sqlite_ok_def tables_ok_def
      split: if_splits sum.splits option.splits)

lemma preload_keys:
  "fst (preloadDocuments ops env about s) \<in> {[], [aboutKey]}"
  "snd (preloadDocuments ops env about s) = snd (op_Set ops env aboutKey about s)"
  by (auto simp: preloadDocuments_def split: prod.split option.split store_error.split)

lemma runE:
  assumes "run sw cfg rng = Inr (h, st)"
  obtains gen s where "New (sw_openFile sw) (kg_Type (cfg_KeyGenerator cfg)) (kg_Path (cfg_KeyGenerator cfg)) = Inr gen"
    and "store_New (sw_io sw 0) (sw_backend sw) (cfg_Storage cfg) = Inr s"
    and "h_cfg h = cfg" "h_keygen h = gen" "h_store h = backend_ops (sw_sha256 sw) (sw_srt sw)"
    and "h_staticKeys h \<in> {[], [aboutKey]}" "at_sessions st = newSessionStore"
    and "sv_store st = snd (backend_Set (sw_sha256 sw) (sw_io sw 1) aboutKey (AboutMD (sw_web sw)) s)"
proof -
  obtain gen where gen: "New (sw_openFile sw) (kg_Type (cfg_KeyGenerator cfg)) (kg_Path (cfg_KeyGenerator cfg)) = Inr gen"
    using assms by (auto simp: run_def split: sum.splits)
  obtain s where s: "store_New (sw_io sw 0) (sw_backend sw) (cfg_Storage cfg) = Inr s"
    using assms gen by (auto simp: run_def split: sum.splits)
  let ?ops = "backend_ops (sw_sha256 sw) (sw_srt sw)"
  obtain keys s1 where p: "preloadDocuments ?ops (sw_io sw 1) (AboutMD (sw_web sw)) s = (keys, s1)" by fastforce
  obtain m idx where "handler_New (sw_template sw) idx (sw_embedded_themes sw) (sw_theme_dir sw) cfg ?ops gen m keys
      (Static (sw_web sw)) s1 rng = Some (h, st)"
    using assms gen s p by (auto simp: run_def Let_def split: sum.splits option.splits)
  note fields = handler_New_fields [OF this]
  have "keys \<in> {[], [aboutKey]}" "s1 = snd (backend_Set (sw_sha256 sw) (sw_io sw 1) aboutKey (AboutMD (sw_web sw)) s)"
    using preload_keys [of ?ops "sw_io sw 1" "AboutMD (sw_web sw)" s] p by simp_all
  with fields gen s show thesis by (intro that [of gen s]) simp_all
qed

lemma serve_backend_ok:
  assumes "h_store h = backend_ops sha srt" and "backend_ok (sv_store st)"
  shows "backend_ok (sv_store (snd (serve lib h env r st)))"
  by (rule store.serve_store [OF assms(1), where Q = backend_ok])
    (use assms(2) store.invariants(1-4) [OF assms(2)] in simp_all)

lemma serve_run_backend_ok:
  "h_store h = backend_ops sha srt \<Longrightarrow> backend_ok (sv_store st) \<Longrightarrow> backend_ok (sv_store (serve_run lib h rs st))"
  by (induction rs arbitrary: st) (auto simp: serve_backend_ok)

text \<open>
  C14. A server that starts is well formed, and stays so. When \<open>main\<close> gets as far as serving, whatever
  the configuration file, the environment, the word list and the backend were: the configuration is a
  normalised one, the generator is one of the three with something to draw from, nobody is logged in,
  and the store satisfies the invariant of its backend, at the start and after any requests. These are
  the hypotheses the other theorems have of a server and its state.
\<close>

theorem started_server:
  assumes "main_start readFile unmarshal env sw path rng = Inr (h, st)" and "tables_ok (sw_backend sw)"
  shows "h_store h = backend_ops (sw_sha256 sw) (sw_srt sw) \<and> auth_wf (cfg_Auth (h_cfg h)) \<and> theme_wf (cfg_Theme (h_cfg h)) \<and>
    (h_keygen h \<in> {NewRandom [], NewPhonetic} \<or> (\<exists>w ws. h_keygen h = Dictionary (w # ws))) \<and>
    h_staticKeys h \<in> {[], [aboutKey]} \<and> at_sessions st = newSessionStore \<and>
    (\<forall>rs. backend_ok (sv_store (serve_run lib h rs st)))"
proof -
  from assms(1) obtain cfg where load: "Load readFile unmarshal env path = Inr cfg" and "run sw cfg rng = Inr (h, st)"
    by (auto simp: main_start_def split: sum.splits)
  then obtain gen s where gen: "New (sw_openFile sw) (kg_Type (cfg_KeyGenerator cfg)) (kg_Path (cfg_KeyGenerator cfg)) = Inr gen"
    and s: "store_New (sw_io sw 0) (sw_backend sw) (cfg_Storage cfg) = Inr s"
    and h: "h_cfg h = cfg" "h_keygen h = gen" "h_store h = backend_ops (sw_sha256 sw) (sw_srt sw)"
      "h_staticKeys h \<in> {[], [aboutKey]}"
    and st: "at_sessions st = newSessionStore"
      "sv_store st = snd (backend_Set (sw_sha256 sw) (sw_io sw 1) aboutKey (AboutMD (sw_web sw)) s)"
    by (elim runE)
  have "backend_ok s" by (rule store_New_ok [OF s assms(2)])
  from store.set_invar [OF this, of "sw_sha256 sw" undefined "sw_io sw 1" aboutKey "AboutMD (sw_web sw)"] st(2)
  have ok: "backend_ok (sv_store st)" by simp
  have "auth_wf (cfg_Auth cfg) \<and> theme_wf (cfg_Theme cfg)" using load by (rule Load_InrE) (auto dest: Auth_normalize_wf Theme_normalize_wf)
  with h st(1) New_generator [OF gen] show ?thesis by (simp add: serve_run_backend_ok [OF h(3) ok])
qed

text \<open>The defaults, on an empty data directory.\<close>

definition demo_world :: start_world where
  "demo_world = \<lparr>sw_openFile = (\<lambda>_. None),
     sw_backend = \<lparr>bw_parse = (\<lambda>_. None), bw_str = (\<lambda>_. []), bw_errText = (\<lambda>_. []), bw_pool = (\<lambda>_. None),
       bw_accepts = (\<lambda>_. True), bw_sqlite = (\<lambda>_. None), bw_dir = (\<lambda>_. fmempty)\<rparr>,
     sw_io = (\<lambda>_. calm 0), sw_sha256 = zero_hash, sw_srt = id,
     sw_web = \<lparr>staticFS = (\<lambda>n. if n = ''static/index.html'' then Some (NFile ''<html>'') else None), aboutMD = ''# about'',
       adminFS = (\<lambda>_. None)\<rparr>,
     sw_discover = (\<lambda>_. None), sw_dummy = [], sw_template = (\<lambda>t _. Some t), sw_embedded_themes = None,
     sw_theme_dir = (\<lambda>_. None)\<rparr>"

lemma started_server_witness:
  "\<exists>h st. main_start (\<lambda>_. None) (\<lambda>_ _. None) (\<lambda>_. None) demo_world [] () = Inr (h, st) \<and>
     backend_ok (sv_store (serve_run demo_lib h [(demo_env, demo_post)] st))"
proof -
  obtain cfg where load: "Load (\<lambda>_. None) (\<lambda>_ _. None) (\<lambda>_. None) [] = Inr cfg" and
    cfg: "cfg_KeyGenerator cfg = \<lparr>kg_Type = ''random'', kg_Path = []\<rparr>" "stg_Type (cfg_Storage cfg) = ''file''"
      "au_Mode (cfg_Auth cfg) = []"
    by (simp add: load_defs)
  have sw: "sw_openFile demo_world = (\<lambda>_. None)" "sw_io demo_world n = calm 0" "bw_dir (sw_backend demo_world) = (\<lambda>_. fmempty)"
      "sw_discover demo_world = (\<lambda>_. None)" "sw_template demo_world = (\<lambda>t _. Some t)"
      "Static (sw_web demo_world) ''index.html'' = Some (NFile ''<html>'')" for n
    by (simp_all add: demo_world_def Static_def)
  have gen: "New (sw_openFile demo_world) ''random'' [] = Inr (NewRandom [])" by (simp add: New_def)
  obtain s where s: "store_New (calm 0) (sw_backend demo_world) (cfg_Storage cfg) = Inr s"
    by (simp add: store_New_def cfg newFile_def Let_def)
  obtain m where m: "auth_New (sw_discover demo_world) (sw_dummy demo_world) (cfg_Auth cfg) = Inr m"
    by (simp add: auth_New_def Auth_Enabled_def cfg)
  obtain keys s1 where p: "preloadDocuments (backend_ops (sw_sha256 demo_world) (sw_srt demo_world)) (calm 0)
      (AboutMD (sw_web demo_world)) s = (keys, s1)" by fastforce
  obtain h st where start: "main_start (\<lambda>_. None) (\<lambda>_ _. None) (\<lambda>_. None) demo_world [] () = Inr (h, st)"
    by (simp add: main_start_def load run_def cfg gen s m p sw(2,5,6) handler_New_def renderIndex_def Let_def)
  have "tables_ok (sw_backend demo_world)" by (simp add: tables_ok_def demo_world_def)
  from started_server [OF start this, of demo_lib] start show ?thesis by blast
qed

end
