(* ===== verification/Directory.thy ===== *)
theory Directory
  imports Store_Facts
begin

text \<open>
  What the store is, for somebody who does not want to know which backend it has: a directory of
  pastes, each with its data and perhaps a deadline, under the six operations of the \<open>Store\<close>
  interface. The three backends refine it: tables with row identities and the hashed file names are
  implementation details.
\<close>

section \<open>The abstract directory\<close>

type_synonym directory = "string \<Rightarrow> (string \<times> int option) option"

text \<open>What a call answers, an error of the backend included.\<close>

datatype answer =
    AGot "string option"
  | AStored bool \<comment> \<open>\<open>False\<close> is \<open>ErrKeyExists\<close>\<close>
  | AListed "PasteMeta list"
  | ADeleted bool
  | AStats go_int go_int
  | APurged go_int
  | AError

definition visible :: "int \<Rightarrow> directory \<Rightarrow> string set" where
  "visible now m = {h. \<exists>d x. m h = Some (d, x) \<and> (x = None \<or> now < the x)}"

text \<open>Only a paste that has a deadline gets a new one, and only where pastes expire.\<close>

definition renew :: "int option \<Rightarrow> string \<Rightarrow> directory \<Rightarrow> directory" where
  "renew e h m = (case m h of
      Some (d, Some _) \<Rightarrow> (case e of Some x \<Rightarrow> m(h \<mapsto> (d, Some x)) | None \<Rightarrow> m)
    | _ \<Rightarrow> m)"

text \<open>
  One call at time \<open>now\<close>, where a paste written or renewed at this time gets the deadline \<open>e\<close> and
  \<open>slot\<close> is where a key lives. What the store does not take for a text is an error. A purge is the
  only way a deadline removes anything; a listing shows visible pastes, as many as there are up to the
  limit, each with its size and an expiration exactly when it has a deadline.
\<close>

fun dir_step ::
  "(string \<Rightarrow> string) \<Rightarrow> (string \<Rightarrow> bool) \<Rightarrow> int \<Rightarrow> int option \<Rightarrow> store_call \<Rightarrow>
     directory \<Rightarrow> answer \<Rightarrow> directory \<Rightarrow> bool" where
  "dir_step slot takes now e (CGet k bump) m a m' \<longleftrightarrow>
     (if \<not> takes k then a = AError \<and> m' = m
      else if slot k \<in> visible now m
      then a = AGot (Some (fst (the (m (slot k))))) \<and> m' = (if bump then renew e (slot k) m else m)
      else a = AGot None \<and> m' = m)"
| "dir_step slot takes now e (CSet k d) m a m' \<longleftrightarrow>
     (if \<not> takes k \<or> \<not> takes d then a = AError \<and> m' = m
      else if m (slot k) = None then a = AStored True \<and> m' = m(slot k \<mapsto> (d, e)) else a = AStored False \<and> m' = m)"
| "dir_step slot takes now e (CList n) m a m' \<longleftrightarrow> m' = m \<and>
     (\<exists>rows. a = AListed rows \<and> distinct (map pm_Key rows) \<and>
        (\<forall>x \<in> set rows. pm_Key x \<in> visible now m \<and> pm_Size x = int (length (fst (the (m (pm_Key x))))) \<and>
           (pm_Expiration x = None \<longleftrightarrow> snd (the (m (pm_Key x))) = None)) \<and>
        length rows = min (nat (if n \<le> 0 then 500 else n)) (card (visible now m)))"
| "dir_step slot takes now e (CDelete h) m a m' \<longleftrightarrow>
     (if \<not> takes h then a = AError \<and> m' = m else a = ADeleted (m h \<noteq> None) \<and> m' = m(h := None))"
| "dir_step slot takes now e CStats m a m' \<longleftrightarrow> m' = m \<and>
     a = AStats (int (card (visible now m))) (int (\<Sum>h \<in> visible now m. length (fst (the (m h)))))"
| "dir_step slot takes now e CPurge m a m' \<longleftrightarrow>
     a = APurged (int (card (dom m - visible now m))) \<and> m' = m |` visible now m"

fun dir_run ::
  "(string \<Rightarrow> string) \<Rightarrow> (string \<Rightarrow> bool) \<Rightarrow> (int \<times> int option \<times> store_call) list \<Rightarrow> directory \<Rightarrow> answer list \<Rightarrow> directory \<Rightarrow> bool" where
  "dir_run slot takes [] m as m' \<longleftrightarrow> as = [] \<and> m' = m"
| "dir_run slot takes ((now, e, c) # cs) m as m' \<longleftrightarrow>
     (\<exists>a as' m1. as = a # as' \<and> dir_step slot takes now e c m a m1 \<and> dir_run slot takes cs m1 as' m')"

section \<open>What the code answers\<close>

fun store_answer :: "'s store_ops \<Rightarrow> io_env \<Rightarrow> store_call \<Rightarrow> 's \<Rightarrow> answer \<times> 's" where
  "store_answer ops env (CGet k b) s =
     apfst (case_sum (\<lambda>_. AError) AGot) (op_Get ops env k b s)"
| "store_answer ops env (CSet k d) s =
     apfst (\<lambda>r. case r of None \<Rightarrow> AStored True | Some ErrKeyExists \<Rightarrow> AStored False | Some (StoreErr _) \<Rightarrow> AError)
       (op_Set ops env k d s)"
| "store_answer ops env (CList n) s =
     apfst (case_sum (\<lambda>_. AError) AListed) (op_List ops env n s)"
| "store_answer ops env (CDelete h) s =
     apfst (case_sum (\<lambda>_. AError) ADeleted) (op_Delete ops env h s)"
| "store_answer ops env CStats s =
     apfst (case_sum (\<lambda>_. AError) (\<lambda>st. AStats (st_Count st) (st_Bytes st))) (op_Stats ops env s)"
| "store_answer ops env CPurge s =
     apfst (case_sum (\<lambda>_. AError) APurged) (op_PurgeExpired ops env s)"

fun store_answers :: "'s store_ops \<Rightarrow> (io_env \<times> store_call) list \<Rightarrow> 's \<Rightarrow> answer list \<times> 's" where
  "store_answers ops [] s = ([], s)"
| "store_answers ops ((env, c) # cs) s =
     (let (a, s) = store_answer ops env c s in apfst ((#) a) (store_answers ops cs s))"

lemma store_answer_exec: "snd (store_answer ops env c s) = store_exec ops env c s"
  by (cases c) simp_all

section \<open>A table is a directory\<close>

definition tb_dir :: "table \<Rightarrow> directory" where
  "tb_dir tb k = map_option (\<lambda>r. (row_body r, row_expires r)) (tb_lookup tb k)"

lemma visible_tb: "visible now (tb_dir tb) = {h. tb_live now tb h}"
proof -
  have "(\<exists>d x. tb_dir tb h = Some (d, x) \<and> (x = None \<or> now < the x)) \<longleftrightarrow> tb_live now tb h" for h
  proof (cases "tb_lookup tb h")
    case (Some r)
    then show ?thesis by (cases "row_expires r") (simp_all add: tb_dir_def tb_live_def row_live_def)
  qed (simp add: tb_dir_def tb_live_def)
  then show ?thesis by (simp add: visible_def)
qed

lemma lookup_row: "table_ok tb \<Longrightarrow> r \<in> set (tb_rows tb) \<Longrightarrow> tb_lookup tb (row_slug r) = Some r"
  using find_unique [of row_slug "tb_rows tb" r] by (simp add: tb_lookup_def table_ok_def)

lemma visible_rows:
  "table_ok tb \<Longrightarrow> visible now (tb_dir tb) = row_slug ` set (filter (row_live now) (tb_rows tb))"
  by (auto simp: visible_tb tb_live_def image_iff lookup_row dest: lookup_slug split: option.splits)

lemma live_rows_distinct: "table_ok tb \<Longrightarrow> distinct (map row_slug (filter P (tb_rows tb)))"
  by (simp add: table_ok_def distinct_map_filter)

lemma card_visible:
  assumes "table_ok tb"
  shows "card (visible now (tb_dir tb)) = length (filter (row_live now) (tb_rows tb))"
  using distinct_card [OF live_rows_distinct [OF assms, of "row_live now"]] by (simp add: visible_rows [OF assms])

lemma tb_dir_row: "table_ok tb \<Longrightarrow> r \<in> set (tb_rows tb) \<Longrightarrow> tb_dir tb (row_slug r) = Some (row_body r, row_expires r)"
  by (simp add: tb_dir_def lookup_row)

lemma sum_visible:
  assumes "table_ok tb"
  shows "(\<Sum>h \<in> visible now (tb_dir tb). length (fst (the (tb_dir tb h)))) =
    sum_list (map (length \<circ> row_body) (filter (row_live now) (tb_rows tb)))"
proof -
  let ?rs = "filter (row_live now) (tb_rows tb)"
  have "(\<Sum>h \<in> visible now (tb_dir tb). length (fst (the (tb_dir tb h)))) =
      sum_list (map (\<lambda>h. length (fst (the (tb_dir tb h)))) (map row_slug ?rs))"
    using sum_list_distinct_conv_sum_set [OF live_rows_distinct [OF assms, of "row_live now"],
        of "\<lambda>h. length (fst (the (tb_dir tb h)))"]
    by (simp add: visible_rows [OF assms])
  also have "\<dots> = sum_list (map (length \<circ> row_body) ?rs)"
    by (auto simp: tb_dir_row [OF assms] intro!: arg_cong [of _ _ sum_list])
  finally show ?thesis .
qed

lemma tb_dir_insert: "sql_insert k d c e tb = Some tb' \<Longrightarrow> tb_dir tb' = (tb_dir tb)(k \<mapsto> (d, e))"
  by (auto simp: fun_eq_iff tb_dir_def insert_lookup)

lemma tb_dir_burn: "tb_dir (tb\<lparr>tb_next := n\<rparr>) = tb_dir tb"
  by (simp add: fun_eq_iff tb_dir_def tb_lookup_def)

lemma tb_dir_delete: "tb_dir (snd (sql_delete k tb)) = (tb_dir tb)(k := None)"
  by (auto simp: fun_eq_iff tb_dir_def delete_lookup)

lemma tb_dir_touch:
  assumes "table_ok tb" and "tb_lookup tb k = Some r"
  shows "tb_dir (sql_touch (row_id r) e tb) = (tb_dir tb)(k \<mapsto> (row_body r, Some e))"
proof
  fix h
  show "tb_dir (sql_touch (row_id r) e tb) h = ((tb_dir tb)(k \<mapsto> (row_body r, Some e))) h"
    using assms(2) touch_other [OF assms, of h e] by (cases "h = k") (simp_all add: tb_dir_def touch_lookup)
qed

lemma tb_dir_purge: "table_ok tb \<Longrightarrow> tb_dir (snd (sql_purge now tb)) = tb_dir tb |` visible now (tb_dir tb)"
  by (auto simp: fun_eq_iff tb_dir_def purge_lookup restrict_map_def visible_tb tb_live_def split: option.splits)

lemma purge_count:
  assumes "table_ok tb"
  shows "fst (sql_purge now tb) = card (dom (tb_dir tb) - visible now (tb_dir tb))"
proof -
  have "dom (tb_dir tb) - visible now (tb_dir tb) = row_slug ` set (filter (\<lambda>r. \<not> row_live now r) (tb_rows tb))"
    by (auto simp: visible_tb tb_live_def dom_def tb_dir_def image_iff lookup_row [OF assms] dest: lookup_slug
        split: option.splits)
  then show ?thesis
    using distinct_card [OF live_rows_distinct [OF assms, of "\<lambda>r. \<not> row_live now r"]] by (simp add: sql_purge_def)
qed

text \<open>The rows of a listing.\<close>

lemma tb_dir_list:
  assumes "table_ok tb"
  shows "distinct (map row_slug (sql_list now limit tb)) \<and>
    (\<forall>r \<in> set (sql_list now limit tb). row_slug r \<in> visible now (tb_dir tb) \<and>
       the (tb_dir tb (row_slug r)) = (row_body r, row_expires r)) \<and>
    length (sql_list now limit tb) = min (nat limit) (card (visible now (tb_dir tb)))"
proof -
  have "card (row_slug ` {r \<in> set (tb_rows tb). row_live now r}) = length (filter (row_live now) (tb_rows tb))"
    using card_visible [OF assms, of now] by (simp add: visible_rows [OF assms])
  moreover have "row_slug r \<in> visible now (tb_dir tb) \<and> the (tb_dir tb (row_slug r)) = (row_body r, row_expires r)"
    if "r \<in> set (sql_list now limit tb)" for r
    using that by (auto simp: tb_dir_row [OF assms] visible_rows [OF assms] sql_list_eq [OF assms] dest!: in_set_takeD)
  ultimately show ?thesis
    using distinct_rows [OF assms, of now limit]
    by (auto simp: visible_rows [OF assms] sql_list_eq [OF assms] simp del: distinct_map)
qed

section \<open>A base directory is a directory\<close>

definition file_dir :: "fileStore \<Rightarrow> directory" where
  "file_dir s h = map_option (\<lambda>d. (d, None)) (file_content s h)"

text \<open>Nobody has put a directory where a paste would go.\<close>

definition files_only :: "fileStore \<Rightarrow> bool" where
  "files_only s \<longleftrightarrow> (\<forall>h b. isHexHandle h \<longrightarrow> fmlookup (fs_dir s) h \<noteq> Some (EDir b))"

lemma visible_files: "visible now (file_dir s) = dom (file_content s)"
  by (auto simp: visible_def file_dir_def)

lemma dir_pastes_calm:
  assumes "io_ok env"
  shows "set (dir_pastes env s) = {(n, d, t). isHexHandle n \<and> fmlookup (fs_dir s) n = Some (EFile d t)}"
proof -
  define g where "g = (\<lambda>n. case fmlookup (fs_dir s) n of
      Some (EFile data mtime) \<Rightarrow> if isHexHandle n then [(n, data, mtime)] else [] | _ \<Rightarrow> [])"
  have "dir_pastes env s = concat (map g (sorted_list_of_fset (fmdom (fs_dir s))))"
    using assms by (simp add: dir_pastes_def io_ok_def g_def)
  moreover have "(n, d, t) \<in> set (g n') \<longleftrightarrow> n = n' \<and> isHexHandle n \<and> fmlookup (fs_dir s) n = Some (EFile d t)" for n d t n'
    by (auto simp: g_def split: option.split dirent.split)
  ultimately show ?thesis by (auto simp: fmdomI)
qed

lemma file_content_iff:
  "file_content s h = Some d \<longleftrightarrow> isHexHandle h \<and> (\<exists>t. fmlookup (fs_dir s) h = Some (EFile d t))"
  by (simp add: file_content_def split: option.split dirent.split)

lemma dir_pastes_dom:
  assumes "io_ok env"
  shows "fst ` set (dir_pastes env s) = dom (file_content s)"
    and "card (dom (file_content s)) = length (dir_pastes env s)"
    and "(n, d, t) \<in> set (dir_pastes env s) \<Longrightarrow> file_content s n = Some d"
proof -
  show dom: "fst ` set (dir_pastes env s) = dom (file_content s)"
    by (auto simp: dir_pastes_calm [OF assms] file_content_iff image_iff dom_def)
  show "card (dom (file_content s)) = length (dir_pastes env s)"
    using distinct_card [OF dir_pastes_distinct [of env s]] by (simp add: dom)
  show "(n, d, t) \<in> set (dir_pastes env s) \<Longrightarrow> file_content s n = Some d"
    by (auto simp: dir_pastes_calm [OF assms] file_content_iff)
qed

lemma dir_pastes_sum:
  assumes "io_ok env"
  shows "(\<Sum>h \<in> dom (file_content s). length (the (file_content s h))) =
    sum_list (map (\<lambda>(_, data, _). length data) (dir_pastes env s))"
proof -
  have "(\<Sum>h \<in> dom (file_content s). length (the (file_content s h))) =
      sum_list (map (\<lambda>h. length (the (file_content s h))) (map fst (dir_pastes env s)))"
    using sum_list_distinct_conv_sum_set [OF dir_pastes_distinct [of env s], of "\<lambda>h. length (the (file_content s h))"]
    by (simp add: dir_pastes_dom(1) [OF assms])
  also have "\<dots> = sum_list (map (\<lambda>(_, data, _). length data) (dir_pastes env s))"
    by (auto simp: dir_pastes_dom(3) [OF assms] intro!: arg_cong [of _ _ sum_list])
  finally show ?thesis .
qed

section \<open>The interface\<close>

text \<open>
  A store that answers and changes as the directory does. \<open>clock\<close> is the time a store reads, in its
  own unit, and \<open>expiry\<close> the deadline it gives at this time.
\<close>

locale directory_store =
  fixes ops :: "'s store_ops"
    and ok :: "'s \<Rightarrow> bool"
    and slot :: "'s \<Rightarrow> string \<Rightarrow> string"
    and clock :: "'s \<Rightarrow> io_env \<Rightarrow> int"
    and expiry :: "'s \<Rightarrow> io_env \<Rightarrow> int option"
    and dir :: "'s \<Rightarrow> directory"
    and takes :: "'s \<Rightarrow> string \<Rightarrow> bool"
  assumes refines: "ok s \<Longrightarrow> io_ok env \<Longrightarrow>
        dir_step (slot s) (takes s) (clock s env) (expiry s env) c (dir s) (fst (store_answer ops env c s))
          (dir (store_exec ops env c s))"
    and keeps_ok: "ok s \<Longrightarrow> io_ok env \<Longrightarrow> ok (store_exec ops env c s)"
    and keeps_config: "slot (store_exec ops env c s) = slot s"
        "clock (store_exec ops env c s) = clock s" "expiry (store_exec ops env c s) = expiry s"
        "takes (store_exec ops env c s) = takes s"
begin

lemma run_refines:
  assumes "ok s" and "list_all (io_ok \<circ> fst) cs"
  shows "dir_run (slot s) (takes s) (map (\<lambda>(env, c). (clock s env, expiry s env, c)) cs) (dir s)
    (fst (store_answers ops cs s)) (dir (snd (store_answers ops cs s)))"
  using assms
proof (induction cs arbitrary: s)
  case (Cons p cs)
  obtain env c where p: "p = (env, c)" by (cases p)
  obtain a s1 where a: "store_answer ops env c s = (a, s1)" by fastforce
  then have s1: "s1 = store_exec ops env c s" using store_answer_exec [of ops env c s] by simp
  from Cons.prems p have io: "io_ok env" by simp
  have "dir_step (slot s) (takes s) (clock s env) (expiry s env) c (dir s) a (dir s1)"
    using refines [OF Cons.prems(1) io, of c] a s1 by simp
  moreover have "dir_run (slot s) (takes s) (map (\<lambda>(env, c). (clock s env, expiry s env, c)) cs) (dir s1)
      (fst (store_answers ops cs s1)) (dir (snd (store_answers ops cs s1)))"
    using Cons.IH [of s1] keeps_ok [OF Cons.prems(1) io, of c] Cons.prems(2)
    by (simp add: s1 keeps_config p)
  ultimately show ?case using p a by (auto simp: Let_def)
qed simp

end

section \<open>The backends refine the directory\<close>

lemma select_visible:
  "table_ok tb \<Longrightarrow> sql_select k now tb = (if k \<in> visible now (tb_dir tb) then tb_lookup tb k else None)"
  by (simp add: sql_select_eq visible_tb tb_live_def split: option.split)

lemma visible_lookup: "k \<in> visible now (tb_dir tb) \<Longrightarrow> \<exists>r. tb_lookup tb k = Some r"
  by (auto simp: visible_tb tb_live_def split: option.splits)

lemma renew_touch:
  "table_ok tb \<Longrightarrow> tb_lookup tb k = Some r \<Longrightarrow> renew e k (tb_dir tb) =
     (case e of Some x \<Rightarrow> if row_expires r = None then tb_dir tb else tb_dir (sql_touch (row_id r) x tb)
      | None \<Rightarrow> tb_dir tb)"
  by (auto simp: renew_def tb_dir_touch split: option.split) (simp_all add: tb_dir_def)

lemma free_insert: "sql_insert k d c e tb = None \<longleftrightarrow> tb_dir tb k \<noteq> None"
  by (simp add: insert_iff tb_content_def tb_dir_def)

lemma sqlite_refines:
  assumes "sqlite_ok t" and "io_ok env"
  shows "dir_step (\<lambda>k. k) (\<lambda>_. True) (unix env) (sqlite_deadline env t) c (tb_dir (sq_db t))
    (fst (store_answer sqlite_ops env c t)) (tb_dir (sq_db (store_exec sqlite_ops env c t)))"
proof -
  have ok: "table_ok (sq_db t)" and io: "\<not> io_fail env n" for n
    using assms by (simp_all add: sqlite_ok_def io_ok_def)
  show ?thesis
  proof (cases c)
    case (CGet k b)
    show ?thesis
    proof (cases "k \<in> visible (unix env) (tb_dir (sq_db t))")
      case True
      then obtain r where "tb_lookup (sq_db t) k = Some r" using visible_lookup by blast
      with CGet True io show ?thesis
        by (auto simp: sqlite_Get_eq select_visible [OF ok] renew_touch [OF ok] sqlite_deadline_def)
          (simp_all add: tb_dir_def)
    qed (use CGet io in \<open>simp add: sqlite_Get_eq select_visible [OF ok]\<close>)
  next
    case (CSet k d)
    then show ?thesis
      using free_insert [of k d "unix env" "sqlite_deadline env t" "sq_db t"] io
      by (auto simp: sqlite_Set_eq split: option.split dest: tb_dir_insert)
  next
    case (CList n)
    then show ?thesis
      using tb_dir_list [OF ok, of "unix env" "if n \<le> 0 then 500 else n"] io
      by (auto simp: sqlite_List_def Let_def DefaultListLimit_def comp_def)
  next
    case (CDelete h)
    then show ?thesis using io by (auto simp: sqlite_Delete_eq delete_count tb_dir_delete tb_dir_def)
  next
    case CStats
    then show ?thesis
      using io by (simp add: sqlite_Stats_def sql_stats_def Let_def card_visible [OF ok] sum_visible [OF ok])
  next
    case CPurge
    then show ?thesis using io by (simp add: sqlite_PurgeExpired_eq purge_count [OF ok] tb_dir_purge [OF ok])
  qed
qed

lemma postgres_refines:
  assumes "postgres_ok t" and "io_ok env"
  shows "dir_step (\<lambda>k. k) (pg_text t) (micros (io_now env)) (pg_expires env t) c (tb_dir (pg_pool t))
    (fst (store_answer postgres_ops env c t)) (tb_dir (pg_pool (store_exec postgres_ops env c t)))"
proof -
  have ok: "table_ok (pg_pool t)" and io: "\<not> io_fail env n" for n
    using assms by (simp_all add: postgres_ok_def io_ok_def)
  show ?thesis
  proof (cases c)
    case (CGet k b)
    show ?thesis
    proof (cases "k \<in> visible (micros (io_now env)) (tb_dir (pg_pool t))")
      case True
      then obtain r where "tb_lookup (pg_pool t) k = Some r" using visible_lookup by blast
      with CGet True io show ?thesis
        by (auto simp: postgres_Get_eq select_visible [OF ok] renew_touch [OF ok] pg_expires_def)
          (simp_all add: tb_dir_def)
    qed (use CGet io in \<open>simp add: postgres_Get_eq select_visible [OF ok]\<close>)
  next
    case (CSet k d)
    then show ?thesis
      using free_insert [of k d "io_dbnow env" "pg_expires env t" "pg_pool t"] io
      by (auto simp: postgres_Set_eq tb_dir_burn split: option.split dest: tb_dir_insert)
  next
    case (CList n)
    then show ?thesis
      using tb_dir_list [OF ok, of "micros (io_now env)" "if n \<le> 0 then 500 else n"] io
      by (auto simp: postgres_List_def Let_def DefaultListLimit_def comp_def)
  next
    case (CDelete h)
    then show ?thesis using io by (auto simp: postgres_Delete_eq delete_count tb_dir_delete tb_dir_def)
  next
    case CStats
    then show ?thesis
      using io by (simp add: postgres_Stats_def sql_stats_def Let_def card_visible [OF ok] sum_visible [OF ok])
  next
    case CPurge
    then show ?thesis using io by (simp add: postgres_PurgeExpired_eq purge_count [OF ok] tb_dir_purge [OF ok])
  qed
qed

lemma file_dir_calm:
  assumes "files_only t" and "isHexHandle h"
  shows "fmlookup (fs_dir t) h = None \<longleftrightarrow> file_dir t h = None"
  using assms by (auto simp: file_dir_def file_content_def files_only_def split: option.split dirent.split)

lemma file_List_length:
  assumes "sorts_newest_first srt" and "file_List srt env n t = (Inr ms, t')"
  shows "length ms = min (nat (if n \<le> 0 then 500 else n)) (length (dir_pastes env t))"
proof -
  have "length (srt xs) = length xs" for xs using assms(1) by (metis sorts_newest_first_def mset_eq_length)
  with assms(2) show ?thesis by (auto simp: file_List_def Let_def DefaultListLimit_def split: if_splits)
qed

lemma file_Get_refines:
  assumes "files_only t" and io: "\<not> io_fail env 0"
  shows "dir_step (filename sha) (\<lambda>_. True) now e (CGet k b) (file_dir t)
    (fst (store_answer (file_ops sha srt) env (CGet k b) t)) (file_dir t)"
proof (cases "file_content t (filename sha k)")
  case None
  then have "fmlookup (fs_dir t) (filename sha k) = None"
    using file_dir_calm [OF assms(1) filename_handle] by (simp add: file_dir_def)
  with None io show ?thesis by (simp add: file_Get_def visible_files domIff)
next
  case (Some d)
  then obtain mt where "fmlookup (fs_dir t) (filename sha k) = Some (EFile d mt)" by (auto simp: file_content_iff)
  with Some io show ?thesis by (simp add: file_Get_def visible_files domIff file_dir_def renew_def)
qed

lemma file_List_refines:
  assumes "sorts_newest_first srt" and io: "io_ok env"
  shows "dir_step (filename sha) (\<lambda>_. True) now e (CList n) (file_dir t)
    (fst (store_answer (file_ops sha srt) env (CList n) t)) (file_dir t)"
proof -
  obtain ms where ms: "file_List srt env n t = (Inr ms, t)" using io by (simp add: file_List_def Let_def io_ok_def)
  have "length ms = min (nat (if n \<le> 0 then 500 else n)) (length (dir_pastes env t))"
    using ms file_List_length [OF assms(1), of env n t ms t] by simp
  with ms file_list_sound [OF assms(1) ms] show ?thesis
    by (auto simp: visible_files dir_pastes_dom(2) [OF io] comp_def file_dir_def)
qed

lemma files_refine:
  assumes "files_only t" and "sorts_newest_first srt" and "io_ok env"
  shows "dir_step (filename sha) (\<lambda>_. True) now None c (file_dir t)
    (fst (store_answer (file_ops sha srt) env c t)) (file_dir (store_exec (file_ops sha srt) env c t))"
proof -
  have io: "\<not> io_fail env n" for n using assms(3) by (simp add: io_ok_def)
  show ?thesis
  proof (cases c)
    case (CGet k b)
    with file_Get_refines [OF assms(1) io] show ?thesis by (simp add: file_Get_reads del: dir_step.simps)
  next
    case (CSet k d)
    then show ?thesis
      using io file_dir_calm [OF assms(1) filename_handle [of sha k]]
      by (auto simp: file_Set_def Let_def file_dir_def file_content_def filename_handle fun_eq_iff)
  next
    case (CList n)
    with file_List_refines [OF assms(2,3)] show ?thesis by (simp add: file_List_reads del: dir_step.simps)
  next
    case (CDelete h)
    then show ?thesis
      using io assms(1)
      by (auto simp: file_Delete_def file_dir_def file_content_def fun_eq_iff files_only_def split: option.splits dirent.splits)
  next
    case CStats
    have "(\<Sum>h \<in> dom (file_content t). length (fst (the (file_dir t h)))) =
        (\<Sum>h \<in> dom (file_content t). length (the (file_content t h)))"
      by (rule sum.cong) (auto simp: file_dir_def)
    with CStats show ?thesis
      by (simp add: file_Stats_def io visible_files Let_def dir_pastes_dom(2) [OF assms(3)] dir_pastes_sum [OF assms(3)])
  next
    case CPurge
    have "dom (file_dir t) = dom (file_content t)" by (auto simp: file_dir_def)
    with CPurge show ?thesis
      by (auto simp: file_PurgeExpired_def visible_files file_dir_def restrict_map_def fun_eq_iff)
  qed
qed

lemma sqlite_exec_config:
  "sq_expire (store_exec sqlite_ops env c t) = sq_expire t"
  by (cases c)
    (simp_all add: sqlite_Get_eq sqlite_Set_eq sqlite_List_reads sqlite_Stats_reads sqlite_Delete_eq sqlite_PurgeExpired_eq
      split: option.split)

lemma postgres_exec_config:
  "pg_expire (store_exec postgres_ops env c t) = pg_expire t" "pg_text (store_exec postgres_ops env c t) = pg_text t"
  by (cases c;
    simp add: postgres_Get_eq postgres_Set_eq postgres_List_reads postgres_Stats_reads postgres_Delete_eq
      postgres_PurgeExpired_eq split: option.split)+

lemma exec_deadlines:
  "sqlite_deadline env' (store_exec sqlite_ops env c t) = sqlite_deadline env' t"
  "pg_expires env' (store_exec postgres_ops env c u) = pg_expires env' u"
  by (simp_all add: sqlite_deadline_def sqlite_exec_config pg_expires_def pg_deadline_def postgres_exec_config)

lemma files_exec_only: "files_only t \<Longrightarrow> files_only (store_exec (file_ops sha srt) env c t)"
  by (cases c)
    (auto simp: files_only_def file_Get_reads file_List_reads file_Stats_reads file_Set_def file_Delete_def Let_def
      file_PurgeExpired_def split: option.split dirent.split bool.split)

interpretation sqlite_dir: directory_store sqlite_ops sqlite_ok "\<lambda>_ k. k" "\<lambda>_. unix"
  "\<lambda>t env. sqlite_deadline env t" "\<lambda>t. tb_dir (sq_db t)" "\<lambda>_ _. True"
  by unfold_locales
    (simp_all add: sqlite_refines sqlite.exec_invar exec_deadlines fun_eq_iff)

interpretation postgres_dir: directory_store postgres_ops postgres_ok "\<lambda>_ k. k" "\<lambda>_ env. micros (io_now env)"
  "\<lambda>t env. pg_expires env t" "\<lambda>t. tb_dir (pg_pool t)" pg_text
  by unfold_locales
    (simp_all add: postgres_refines postgres.exec_invar exec_deadlines postgres_exec_config fun_eq_iff)

interpretation files_dir: directory_store "file_ops sha srt" "\<lambda>t. files_only t \<and> sorts_newest_first srt"
  "\<lambda>_. filename sha" "\<lambda>_ _. 0" "\<lambda>_ _. None" file_dir "\<lambda>_ _. True" for sha srt
  by unfold_locales (simp_all add: files_refine files_exec_only)

section \<open>The store of the server\<close>

fun backend_dir :: "backend \<Rightarrow> directory" where
  "backend_dir (Postgres t) = tb_dir (pg_pool t)"
| "backend_dir (Sqlite t) = tb_dir (sq_db t)"
| "backend_dir (Files t) = file_dir t"

fun backend_clock :: "backend \<Rightarrow> io_env \<Rightarrow> int" where
  "backend_clock (Postgres t) env = micros (io_now env)"
| "backend_clock (Sqlite t) env = unix env"
| "backend_clock (Files t) env = 0"

fun backend_expiry :: "backend \<Rightarrow> io_env \<Rightarrow> int option" where
  "backend_expiry (Postgres t) env = pg_expires env t"
| "backend_expiry (Sqlite t) env = sqlite_deadline env t"
| "backend_expiry (Files t) env = None"

fun backend_plain :: "backend \<Rightarrow> bool" where
  "backend_plain (Files t) = files_only t"
| "backend_plain _ = True"

text \<open>A call to the store is the call to its backend.\<close>

lemma backend_answer:
  "store_answer (backend_ops sha srt) env c (Postgres t) = apsnd Postgres (store_answer postgres_ops env c t)"
  "store_answer (backend_ops sha srt) env c (Sqlite u) = apsnd Sqlite (store_answer sqlite_ops env c u)"
  "store_answer (backend_ops sha srt) env c (Files v) = apsnd Files (store_answer (file_ops sha srt) env c v)"
  by (cases c; simp add: apfst_def apsnd_def map_prod_def split: prod.split)+

lemma backend_exec:
  "store_exec (backend_ops sha srt) env c (Postgres t) = Postgres (store_exec postgres_ops env c t)"
  "store_exec (backend_ops sha srt) env c (Sqlite u) = Sqlite (store_exec sqlite_ops env c u)"
  "store_exec (backend_ops sha srt) env c (Files v) = Files (store_exec (file_ops sha srt) env c v)"
  by (cases c; simp)+

lemma backend_exec_slot: "backend_slot sha (store_exec (backend_ops sha srt) env c s) = backend_slot sha s"
  by (cases s) (simp_all add: backend_exec backend_slot_ext)

interpretation store_dir: directory_store "backend_ops sha srt"
  "\<lambda>s. backend_ok s \<and> backend_plain s \<and> sorts_newest_first srt" "backend_slot sha" backend_clock backend_expiry
  backend_dir backend_takes for sha srt
proof (unfold_locales, goal_cases)
  case (1 s env c)
  then show ?case
    using sqlite_refines postgres_refines files_refine
    by (cases s) (simp_all add: backend_answer backend_exec backend_slot_ext)
next
  case (2 s env c)
  then show ?case
    by (cases s) (simp_all add: backend_exec sqlite.exec_invar postgres.exec_invar files_exec_only)
next
  case (4 env c s)
  then show ?case by (cases s) (simp_all add: backend_exec fun_eq_iff)
next
  case (5 env c s)
  then show ?case by (cases s) (simp_all add: backend_exec fun_eq_iff exec_deadlines)
next
  case (6 env c s)
  then show ?case by (cases s) (simp_all add: backend_exec postgres_exec_config)
qed (simp add: backend_exec_slot)

text \<open>
  C10. The store is a directory. Whatever calls are made, at whatever times, the store of the server,
  with any of the three backends, answers each of them as the abstract directory does and ends in
  the directory's state; nothing of the implementation (row identities, insertion order, hashed file
  names) can be told from the answers. The backend is taken to work; on a base directory nobody has
  made a subdirectory with the name of a paste.
\<close>

theorem backend_is_directory:
  assumes "backend_ok s" and "backend_plain s" and "sorts_newest_first srt" and "list_all (io_ok \<circ> fst) cs"
  shows "dir_run (backend_slot sha s) (backend_takes s) (map (\<lambda>(env, c). (backend_clock s env, backend_expiry s env, c)) cs)
    (backend_dir s) (fst (store_answers (backend_ops sha srt) cs s))
    (backend_dir (snd (store_answers (backend_ops sha srt) cs s)))"
  using assms by (intro store_dir.run_refines) simp_all

lemma backend_is_directory_witness:
  "dir_run id (\<lambda>_. True) [(0, Some 60, CSet ''k'' ''d''), (59, Some 119, CGet ''k'' True), (118, Some 178, CDelete ''j''),
      (119, Some 179, CGet ''k'' True), (119, Some 179, CSet ''k'' ''e''), (119, Some 179, CPurge)]
    Map.empty [AStored True, AGot (Some ''d''), ADeleted False, AGot None, AStored False, APurged 1] Map.empty"
proof -
  let ?srt = "\<lambda>ms :: PasteMeta list. rev (sort_key (\<lambda>m. the (pm_Created m)) ms)"
  let ?t = "\<lambda>n. calm (n * 1000000000)"
  let ?cs = "[(?t 0, CSet ''k'' ''d''), (?t 59, CGet ''k'' True), (?t 118, CDelete ''j''),
      (?t 119, CGet ''k'' True), (?t 119, CSet ''k'' ''e''), (?t 119, CPurge)]"
  note sql = sqlite_Set_def sqlite_Get_def sqlite_Delete_def sqlite_PurgeExpired_def sql_insert_def sql_select_def
    sql_touch_def sql_delete_def sql_purge_def slug_taken_def row_live_def unix_def empty_table_def Let_def wrap64_nonneg
  have run: "store_answers (backend_ops zero_hash ?srt) ?cs demo_sqlite =
      ([AStored True, AGot (Some ''d''), ADeleted False, AGot None, AStored False, APurged 1],
       Sqlite \<lparr>sq_db = \<lparr>tb_rows = [], tb_next = 2\<rparr>, sq_expire = 60\<rparr>)"
    by (simp add: demo_sqlite_def sql isSQLiteUnique_def)
  have empty: "tb_dir \<lparr>tb_rows = [], tb_next = n\<rparr> = Map.empty" for n
    by (simp add: fun_eq_iff tb_dir_def tb_lookup_def)
  have pre: "backend_ok demo_sqlite" "backend_plain demo_sqlite" "list_all (io_ok \<circ> fst) ?cs"
    and start: "backend_slot zero_hash demo_sqlite = id" "backend_takes demo_sqlite = (\<lambda>_. True)"
      "backend_dir demo_sqlite = Map.empty"
    by (simp_all add: demo_sqlite_def sqlite_ok_def backend_slot_ext id_def empty empty_table_def table_ok_def)
  have "map (\<lambda>(env, c). (backend_clock demo_sqlite env, backend_expiry demo_sqlite env, c)) ?cs =
      [(0, Some 60, CSet ''k'' ''d''), (59, Some 119, CGet ''k'' True), (118, Some 178, CDelete ''j''),
       (119, Some 179, CGet ''k'' True), (119, Some 179, CSet ''k'' ''e''), (119, Some 179, CPurge)]"
    by (simp add: demo_sqlite_def sqlite_deadline_def unix_def wrap64_nonneg)
  with backend_is_directory [OF pre(1,2) sorts_exist pre(3), of zero_hash] show ?thesis
    unfolding run start fst_conv snd_conv backend_dir.simps sqliteStore.simps empty by (simp del: dir_run.simps)
qed

end
