(* ===== verification/Databases.thy ===== *)
theory Databases
  imports Directory
begin

text \<open>
  SQLite and PostgreSQL side by side. \<open>sqlite.go\<close> keeps Unix seconds and lets the process stamp its
  rows; \<open>postgres.go\<close> keeps microseconds, lets the server stamp them and burns an identity with every
  refused insert. At whole seconds none of this can be observed.
\<close>

section \<open>The same rows in two units\<close>

definition same_row :: "row \<Rightarrow> row \<Rightarrow> bool" where
  "same_row r r' \<longleftrightarrow> row_slug r' = row_slug r \<and> row_body r' = row_body r \<and>
     row_created r' = 1000000 * row_created r \<and> row_expires r' = map_option ((*) 1000000) (row_expires r)"

definition same_table :: "table \<Rightarrow> table \<Rightarrow> bool" where
  "same_table tb tb' \<longleftrightarrow> list_all2 same_row (tb_rows tb) (tb_rows tb')"

lemma same_live: "same_row r r' \<Longrightarrow> row_live (1000000 * now) r' = row_live now r"
  by (auto simp: same_row_def row_live_def split: option.split)

lemma same_slug: "same_row r r' \<Longrightarrow> row_slug r' = row_slug r"
  by (simp add: same_row_def)

lemma list_all2_filter:
  "list_all2 R xs ys \<Longrightarrow> (\<And>x y. R x y \<Longrightarrow> Q y = P x) \<Longrightarrow> list_all2 R (filter P xs) (filter Q ys)"
  by (induction rule: list_all2_induct) auto

lemma list_all2_find:
  "list_all2 R xs ys \<Longrightarrow> (\<And>x y. R x y \<Longrightarrow> Q y = P x) \<Longrightarrow> rel_option R (find P xs) (find Q ys)"
  by (induction rule: list_all2_induct) auto

lemma list_all2_map_eq: "list_all2 R xs ys \<Longrightarrow> (\<And>x y. R x y \<Longrightarrow> g y = f x) \<Longrightarrow> map g ys = map f xs"
  by (induction rule: list_all2_induct) auto

lemma same_lookup: "same_table tb tb' \<Longrightarrow> rel_option same_row (tb_lookup tb k) (tb_lookup tb' k)"
  unfolding same_table_def tb_lookup_def by (erule list_all2_find) (simp add: same_slug)

lemma same_select:
  "same_table tb tb' \<Longrightarrow> rel_option same_row (sql_select k now tb) (sql_select k (1000000 * now) tb')"
  unfolding same_table_def sql_select_def by (erule list_all2_find) (simp add: same_slug same_live)

lemma same_filter:
  "same_table tb tb' \<Longrightarrow> (\<And>r r'. same_row r r' \<Longrightarrow> Q r' = P r) \<Longrightarrow>
   list_all2 same_row (filter P (tb_rows tb)) (filter Q (tb_rows tb'))"
  unfolding same_table_def by (rule list_all2_filter)

section \<open>The statements agree\<close>

lemma same_insert:
  assumes "same_table tb tb'"
  shows "rel_option same_table (sql_insert k d now e tb)
    (sql_insert k d (1000000 * now) (map_option ((*) 1000000) e) tb')"
proof (cases "tb_lookup tb k")
  case None
  moreover have "tb_lookup tb' k = None" using same_lookup [OF assms, of k] None by simp
  ultimately show ?thesis
    using assms by (auto simp: sql_insert_def slug_taken_lookup same_table_def same_row_def intro: list_all2_appendI)
next
  case (Some r)
  then obtain r' where "tb_lookup tb' k = Some r'" using same_lookup [OF assms, of k] by (auto simp: option_rel_Some1)
  with Some show ?thesis by (simp add: sql_insert_def slug_taken_lookup)
qed

text \<open>Identities differ, so the row that is touched is told by its slug.\<close>

lemma touch_slug:
  assumes "table_ok tb" and "tb_lookup tb k = Some r"
  shows "tb_rows (sql_touch (row_id r) e tb) =
    map (\<lambda>r'. if row_slug r' = k then r'\<lparr>row_expires := Some e\<rparr> else r') (tb_rows tb)"
proof -
  have "row_id r' = row_id r \<longleftrightarrow> row_slug r' = k" if "r' \<in> set (tb_rows tb)" for r'
  proof -
    from assms have r: "r \<in> set (tb_rows tb)" "row_slug r = k" using lookup_slug [of tb k r] by simp_all
    have "inj_on row_id (set (tb_rows tb))" and "inj_on row_slug (set (tb_rows tb))"
      using assms(1) by (simp_all add: table_ok_def strict_sorted_iff distinct_map)
    with r that show ?thesis by (auto dest: inj_onD)
  qed
  then show ?thesis by (simp add: sql_touch_def)
qed

lemma same_touch:
  assumes "same_table tb tb'" and "table_ok tb" and "table_ok tb'"
    and "tb_lookup tb k = Some r" and "tb_lookup tb' k = Some r'"
  shows "same_table (sql_touch (row_id r) e tb) (sql_touch (row_id r') (1000000 * e) tb')"
  using assms(1)
  by (auto simp: same_table_def touch_slug [OF assms(2,4)] touch_slug [OF assms(3,5)] list_all2_map1 list_all2_map2
      same_row_def elim!: list_all2_mono)

lemma same_delete:
  assumes "same_table tb tb'"
  shows "fst (sql_delete k tb') = fst (sql_delete k tb)" and "same_table (snd (sql_delete k tb)) (snd (sql_delete k tb'))"
  using list_all2_lengthD [OF same_filter [OF assms, of "\<lambda>r. row_slug r = k" "\<lambda>r. row_slug r = k"]]
    same_filter [OF assms, of "\<lambda>r. row_slug r \<noteq> k" "\<lambda>r. row_slug r \<noteq> k"]
  by (simp_all add: sql_delete_def same_slug same_table_def)

lemma same_purge:
  assumes "same_table tb tb'"
  shows "fst (sql_purge (1000000 * now) tb') = fst (sql_purge now tb)"
    and "same_table (snd (sql_purge now tb)) (snd (sql_purge (1000000 * now) tb'))"
  using list_all2_lengthD [OF same_filter [OF assms, of "\<lambda>r. \<not> row_live (1000000 * now) r" "\<lambda>r. \<not> row_live now r"]]
    same_filter [OF assms, of "row_live (1000000 * now)" "row_live now"]
  by (simp_all add: sql_purge_def same_live same_table_def)

lemma same_stats: "same_table tb tb' \<Longrightarrow> sql_stats (1000000 * now) tb' = sql_stats now tb"
  using list_all2_lengthD [OF same_filter [of tb tb' "row_live (1000000 * now)" "row_live now"]]
    list_all2_map_eq [OF same_filter [of tb tb' "row_live (1000000 * now)" "row_live now"],
      of "length \<circ> row_body" "length \<circ> row_body"]
  by (simp add: sql_stats_def Let_def same_live same_row_def)

lemma same_list:
  assumes "same_table tb tb'" and "table_ok tb" and "table_ok tb'"
  shows "list_all2 same_row (sql_list now n tb) (sql_list (1000000 * now) n tb')"
  using same_filter [OF assms(1), of "row_live (1000000 * now)" "row_live now"]
  by (simp add: sql_list_eq assms(2,3) same_live list_all2_takeI list_all2_rev)

text \<open>The times of a listing, which PostgreSQL converts back to seconds.\<close>

lemma epoch_second: "pg_epoch (1000000 * x) = x"
  by (auto simp: pg_epoch_def)

lemma same_meta:
  "same_row r r' \<Longrightarrow>
   \<lparr>pm_Key = row_slug r', pm_Size = int (length (row_body r')), pm_Created = Some (pg_epoch (row_created r')),
     pm_Expiration = map_option pg_epoch (row_expires r')\<rparr> =
   \<lparr>pm_Key = row_slug r, pm_Size = int (length (row_body r)), pm_Created = Some (row_created r),
     pm_Expiration = row_expires r\<rparr>"
  by (simp add: same_row_def epoch_second option.map_comp comp_def option.map_ident)

section \<open>The operations agree\<close>

text \<open>A call on a full second of both clocks, long before the numbers end.\<close>

definition on_second :: "go_int \<Rightarrow> io_env \<Rightarrow> bool" where
  "on_second e env \<longleftrightarrow> io_ok env \<and> io_now env = 1000000000 * unix env \<and> io_dbnow env = 1000000 * unix env \<and>
     0 \<le> unix env \<and> unix env + e < 2 ^ 63"

definition same_store :: "sqliteStore \<Rightarrow> postgresStore \<Rightarrow> bool" where
  "same_store t p \<longleftrightarrow> sqlite_ok t \<and> postgres_ok p \<and> same_table (sq_db t) (pg_pool p) \<and> pg_expire p = sq_expire t \<and>
     sq_expire t \<le> 9223372036"

lemma on_second_clock: "on_second e env \<Longrightarrow> micros (io_now env) = 1000000 * unix env"
  by (simp add: on_second_def micros_def)

lemma same_deadline:
  assumes "on_second (sq_expire t) env" and "same_store t p" and "0 < sq_expire t"
  shows "pg_deadline env p = 1000000 * wrap64 (unix env + sq_expire t)"
proof -
  have "wrap64 (unix env + sq_expire t) = unix env + sq_expire t"
    using assms(1,3) by (simp add: on_second_def wrap64_nonneg)
  moreover have "wrap64 (sq_expire t * 1000000000) = sq_expire t * 1000000000"
    using assms(2,3) by (simp add: same_store_def wrap64_nonneg)
  ultimately show ?thesis using assms(1,2) by (simp add: pg_deadline_def micros_def on_second_def same_store_def)
qed

lemma same_expires:
  assumes "on_second (sq_expire t) env" and "same_store t p"
  shows "pg_expires env p = map_option ((*) 1000000) (sqlite_deadline env t)"
  using same_deadline [OF assms] assms(2) by (simp add: pg_expires_def sqlite_deadline_def same_store_def)

lemma same_burn: "same_table tb (tb'\<lparr>tb_next := n\<rparr>) = same_table tb tb'"
  by (simp add: same_table_def)

lemma same_clock:
  assumes "on_second e env"
  shows "micros (io_now env) = 1000000 * unix env" and "io_dbnow env = 1000000 * unix env" and "\<not> io_fail env n"
  using assms on_second_clock [OF assms] by (simp_all add: on_second_def io_ok_def)

lemma same_storeD:
  assumes "same_store t p"
  shows "table_ok (sq_db t)" and "table_ok (pg_pool p)" and "same_table (sq_db t) (pg_pool p)"
    and "pg_expire p = sq_expire t"
  using assms by (simp_all add: same_store_def sqlite_ok_def postgres_ok_def)

text \<open>The strings of a call that reach the database.\<close>

fun call_texts :: "store_call \<Rightarrow> string set" where
  "call_texts (CGet k b) = {k}"
| "call_texts (CSet k d) = {k, d}"
| "call_texts (CDelete h) = {h}"
| "call_texts _ = {}"

lemma same_Get:
  assumes s: "same_store t p" and env: "on_second (sq_expire t) env" and fits: "pg_text p k"
  shows "fst (postgres_Get env k b p) = fst (sqlite_Get env k b t) \<and>
    same_table (sq_db (snd (sqlite_Get env k b t))) (pg_pool (snd (postgres_Get env k b p)))"
proof -
  note clock = same_clock [OF env] and ok = same_storeD(1,2) [OF s] and same = same_storeD(3) [OF s]
  show ?thesis
  proof (cases "sql_select k (unix env) (sq_db t)")
    case None
    then have "sql_select k (1000000 * unix env) (pg_pool p) = None" using same_select [OF same, of k "unix env"] by simp
    with None same show ?thesis by (simp add: sqlite_Get_eq postgres_Get_eq clock fits)
  next
    case (Some r)
    then obtain r' where r': "sql_select k (1000000 * unix env) (pg_pool p) = Some r'" and rr: "same_row r r'"
      using same_select [OF same, of k "unix env"] by (auto simp: option_rel_Some1)
    have "row_body r' = row_body r" "row_expires r' = None \<longleftrightarrow> row_expires r = None" using rr by (auto simp: same_row_def)
    with Some r' same show ?thesis
      using same_touch [OF same ok sql_select_SomeD(1) [OF ok(1) Some] sql_select_SomeD(1) [OF ok(2) r']]
        same_deadline [OF env s]
      by (simp add: sqlite_Get_eq postgres_Get_eq clock fits same_storeD(4) [OF s])
  qed
qed

lemma same_answer:
  assumes s: "same_store t p" and env: "on_second (sq_expire t) env" and fits: "\<forall>d \<in> call_texts c. pg_text p d"
  shows "fst (store_answer postgres_ops env c p) = fst (store_answer sqlite_ops env c t) \<and>
    same_table (sq_db (store_exec sqlite_ops env c t)) (pg_pool (store_exec postgres_ops env c p))"
proof -
  let ?now = "unix env"
  note clock = same_clock(1,2) [OF env] and io = same_clock(3) [OF env]
    and ok = same_storeD(1,2) [OF s] and same = same_storeD(3) [OF s]
  show ?thesis
  proof (cases c)
    case (CGet k b)
    with same_Get [OF s env, of k b] fits show ?thesis by simp
  next
    case (CSet k d)
    then show ?thesis
      using same_insert [OF same, of k d ?now "sqlite_deadline env t"] same io fits
      by (auto simp: sqlite_Set_eq postgres_Set_eq clock same_expires [OF env s] same_burn option_rel_Some1 option_rel_Some2
          split: option.split)
  next
    case (CList n)
    then show ?thesis
      using list_all2_map_eq [OF same_list [OF same ok, of ?now "if n \<le> 0 then 500 else n"] same_meta] same io
      by (cases "n \<le> 0") (simp_all add: sqlite_List_def postgres_List_def Let_def clock DefaultListLimit_def)
  next
    case (CDelete h)
    then show ?thesis using same_delete [OF same, of h] io fits by (simp add: sqlite_Delete_eq postgres_Delete_eq)
  next
    case CStats
    then show ?thesis
      using same_stats [OF same, of ?now] same io by (simp add: sqlite_Stats_def postgres_Stats_def clock)
  next
    case CPurge
    then show ?thesis
      using same_purge [OF same, of ?now] io by (simp add: sqlite_PurgeExpired_eq postgres_PurgeExpired_eq clock)
  qed
qed

lemma same_exec:
  "same_store t p \<Longrightarrow> on_second (sq_expire t) env \<Longrightarrow> \<forall>d \<in> call_texts c. pg_text p d \<Longrightarrow>
   same_store (store_exec sqlite_ops env c t) (store_exec postgres_ops env c p)"
  using same_answer [of t p env c] sqlite.exec_invar [of t env c] postgres.exec_invar [of p env c]
  by (simp add: same_store_def sqlite_exec_config postgres_exec_config)

text \<open>
  C11. The choice of the database cannot be observed. On stores with the same rows and the same
  lifetime, SQLite and PostgreSQL answer every sequence of calls alike, call by call, listings with
  their order, sizes, creation and expiry times included, and end with the same rows again; the calls fall on full seconds, because
  the one keeps seconds and the other microseconds, the lifetime is below 292 years, and the keys and
  the data are text in the encoding of the PostgreSQL database, which SQLite does not ask for.
\<close>

theorem databases_agree:
  assumes "same_store t p" and "list_all (on_second (sq_expire t) \<circ> fst) cs"
    and "\<forall>(env, c) \<in> set cs. \<forall>d \<in> call_texts c. pg_text p d"
  shows "fst (store_answers postgres_ops cs p) = fst (store_answers sqlite_ops cs t) \<and>
    same_store (snd (store_answers sqlite_ops cs t)) (snd (store_answers postgres_ops cs p))"
  using assms
proof (induction cs arbitrary: t p)
  case (Cons x cs)
  obtain env c where x: "x = (env, c)" by (cases x)
  with Cons.prems have env: "on_second (sq_expire t) env" and fits: "\<forall>d \<in> call_texts c. pg_text p d" by simp_all
  obtain a t1 where t1: "store_answer sqlite_ops env c t = (a, t1)" by fastforce
  obtain a' p1 where p1: "store_answer postgres_ops env c p = (a', p1)" by fastforce
  have "a' = a" using same_answer [OF Cons.prems(1) env fits] t1 p1 by simp
  moreover have "same_store t1 p1"
    using same_exec [OF Cons.prems(1) env fits] t1 p1 by (simp flip: store_answer_exec)
  moreover have "sq_expire t1 = sq_expire t"
    using sqlite_exec_config [of env c t] t1 by (simp flip: store_answer_exec)
  moreover have "pg_text p1 = pg_text p"
    using postgres_exec_config(2) [of env c p] p1 by (simp flip: store_answer_exec)
  ultimately show ?case using Cons.IH [of t1 p1] Cons.prems(2,3) by (simp add: x t1 p1)
qed simp

lemma databases_agree_witness:
  "fst (store_answers postgres_ops [(calm 0, CSet ''k'' ''d''), (calm (59 * 10 ^ 9), CGet ''k'' True),
      (calm (119 * 10 ^ 9), CGet ''k'' True), (calm (119 * 10 ^ 9), CList 0)]
     \<lparr>pg_pool = empty_table, pg_expire = 60, pg_text = (\<lambda>_. True)\<rparr>) =
   fst (store_answers sqlite_ops [(calm 0, CSet ''k'' ''d''), (calm (59 * 10 ^ 9), CGet ''k'' True),
      (calm (119 * 10 ^ 9), CGet ''k'' True), (calm (119 * 10 ^ 9), CList 0)]
     \<lparr>sq_db = empty_table, sq_expire = 60\<rparr>)"
  by (rule databases_agree [THEN conjunct1])
    (simp_all add: same_store_def sqlite_ok_def postgres_ok_def same_table_def empty_table_def table_ok_def
      on_second_def unix_def)

end
