(* ===== verification/Entropy.thy ===== *)
theory Entropy
  imports Keygen Complex_Main
begin

text \<open>
  \<open>EntropyBits\<close> of the three generators (\<open>internal/keygen/keygen.go\<close>) and the warning \<open>run\<close> derives
  from it at start-up (\<open>cmd/gopaste/main.go\<close>), against the number of keys a generator can produce.
  The estimates are in exact reals: the rounding of \<open>float64\<close> is left out.
\<close>

section \<open>The estimates\<close>

definition Random_EntropyBits :: "string list \<Rightarrow> go_int \<Rightarrow> real" where
  "Random_EntropyBits keyspace len = of_int len * log 2 (real (length keyspace))"

definition Phonetic_EntropyBits :: "go_int \<Rightarrow> real" where
  "Phonetic_EntropyBits len =
     (let (slots, bits) = fold (\<lambda>t (slots, bits).
            (slots + length t,
             fold (\<lambda>c bits. bits + log 2 (real (length (if c = CHR ''c'' then consonants else vowels)))) t bits))
          syllableTemplates (0, 0)
      in of_int len * bits / real slots)"

definition Dictionary_EntropyBits :: "string list \<Rightarrow> go_int \<Rightarrow> real" where
  "Dictionary_EntropyBits words len = of_int len * log 2 (real (length words))"

fun EntropyBits :: "generator \<Rightarrow> go_int \<Rightarrow> real" where
  "EntropyBits (Random keyspace) len = Random_EntropyBits keyspace len"
| "EntropyBits Phonetic len = Phonetic_EntropyBits len"
| "EntropyBits (Dictionary words) len = Dictionary_EntropyBits words len"

definition minKeyEntropyBits :: real where
  "minKeyEntropyBits = 40"

text \<open>Whether \<open>run\<close> warns of guessable keys.\<close>

definition low_entropy :: "generator \<Rightarrow> go_int \<Rightarrow> bool" where
  "low_entropy gen len \<longleftrightarrow> EntropyBits gen len < minKeyEntropyBits"

lemma Phonetic_bits: "Phonetic_EntropyBits len = of_int len * (7 * log 2 21 + 6 * log 2 5) / 13"
  by (simp add: Phonetic_EntropyBits_def syllableTemplates_def consonants_def vowels_def)

section \<open>The keys a generator can produce\<close>

definition possible_keys :: "generator \<Rightarrow> go_int \<Rightarrow> string set" where
  "possible_keys gen len = {k. \<exists>ds. fst (CreateKey draws gen len ds) = Inr k}"

lemma possible_good:
  assumes "k \<in> possible_keys gen len"
  obtains ds r where "CreateKey draws gen len ds = (Inr k, r)"
  using assms by (auto simp: possible_keys_def prod_eq_iff)

text \<open>The default generator: all words over its 62 characters.\<close>

lemma random_possible:
  "possible_keys (NewRandom []) (int n) = {k. set k \<subseteq> set defaultKeyspace \<and> length k = n}"
proof (intro equalityI subsetI)
  fix k assume "k \<in> possible_keys (NewRandom []) (int n)"
  then obtain ds r where "CreateKey draws (NewRandom []) (int n) ds = (Inr k, r)" by (rule possible_good)
  then obtain ws where "length ws = n" "set ws \<subseteq> (\<lambda>c. [c]) ` set defaultKeyspace" "k = concat ws"
    by (auto simp: NewRandom_default dest!: pick_loop_words)
  with concat_singles [of ws "set defaultKeyspace"] show "k \<in> {k. set k \<subseteq> set defaultKeyspace \<and> length k = n}" by simp
next
  fix k assume k: "k \<in> {k. set k \<subseteq> set defaultKeyspace \<and> length k = n}"
  have "distinct defaultKeyspace" by (simp add: defaultKeyspace_def)
  from bij_betw_imp_surj_on [OF bij_map_nth [OF this, of n]] k
  have "k \<in> map ((!) defaultKeyspace) ` {ds. length ds = n \<and> set ds \<subseteq> {..<length defaultKeyspace}}" by auto
  then obtain ds where "length ds = n" "set ds \<subseteq> {..<length defaultKeyspace}" "k = map ((!) defaultKeyspace) ds" by auto
  with pick_loop_draws [of ds "map (\<lambda>c. [c]) defaultKeyspace" "[]"] concat_map_singles [of ds defaultKeyspace]
  show "k \<in> possible_keys (NewRandom []) (int n)"
    by (auto simp: possible_keys_def NewRandom_default intro!: exI [of _ ds])
qed

lemma random_bits:
  "real (card (possible_keys (NewRandom []) (int n))) = 2 powr EntropyBits (NewRandom []) (int n)"
proof -
  have "card (set defaultKeyspace) = 62" by (simp add: defaultKeyspace_def)
  then have "card (possible_keys (NewRandom []) (int n)) = 62 ^ n"
    using card_lists_length_eq [of "set defaultKeyspace" n] by (simp add: random_possible)
  moreover have "length defaultKeyspace = 62" by (simp add: defaultKeyspace_def)
  then have "2 powr EntropyBits (NewRandom []) (int n) = 62 powr real n"
    using powr_powr [of 2 "log 2 62" "real n"]
    by (simp add: NewRandom_default Random_EntropyBits_def mult.commute)
  ultimately show ?thesis by (simp add: powr_realpow)
qed

text \<open>The phonetic one: at least the words that repeat consonant, consonant, vowel.\<close>

definition ccv :: "nat \<Rightarrow> string" where
  "ccv i = (if i mod 3 = 2 then vowels else consonants)"

definition ccv_words :: "nat \<Rightarrow> nat \<Rightarrow> string set" where
  "ccv_words i n = {k. length k = n \<and> (\<forall>j < n. k ! j \<in> set (ccv (i + j)))}"

lemma ccv_words_Cons: "c # k \<in> ccv_words i (Suc n) \<longleftrightarrow> c \<in> set (ccv i) \<and> k \<in> ccv_words (Suc i) n"
  by (auto simp: ccv_words_def less_Suc_eq_0_disj)

lemma ccv_words_Suc: "ccv_words i (Suc n) = (\<lambda>(c, k). c # k) ` (set (ccv i) \<times> ccv_words (Suc i) n)"
proof (intro set_eqI)
  fix k show "k \<in> ccv_words i (Suc n) \<longleftrightarrow> k \<in> (\<lambda>(c, k). c # k) ` (set (ccv i) \<times> ccv_words (Suc i) n)"
    by (cases k) (auto simp: ccv_words_Cons, auto simp: ccv_words_def)
qed

lemma card_ccv_words: "card (ccv_words i n) = (\<Prod>j < n. length (ccv (i + j)))"
proof (induction n arbitrary: i)
  case 0
  have "ccv_words i 0 = {[]}" by (auto simp: ccv_words_def)
  then show ?case by simp
next
  case (Suc n)
  have "distinct (ccv i)" by (simp add: ccv_def vowels_def consonants_def)
  then have "card (ccv_words i (Suc n)) = length (ccv i) * card (ccv_words (Suc i) n)"
    by (simp add: ccv_words_Suc card_image inj_on_def card_cartesian_product distinct_card)
  then show ?case by (simp add: Suc prod.lessThan_Suc_shift del: prod.lessThan_Suc)
qed

lemma ccv_words_length: "k \<in> ccv_words i n \<Longrightarrow> length k = n"
  by (simp add: ccv_words_def)

lemma pick_draw: "c \<in> set xs \<Longrightarrow> \<exists>d. \<forall>ds. pick draws xs (d # ds) = (Inr c, ds)"
proof -
  assume "c \<in> set xs"
  then obtain d where "d < length xs" "xs ! d = c" by (auto simp: in_set_conv_nth)
  then have "pick draws xs (d # ds) = (Inr c, ds)" for ds by (auto simp: pick_def randInt_def)
  then show ?thesis by blast
qed

text \<open>A template of the loop can be made to yield any letters that fit it.\<close>

lemma fill_draws:
  assumes "length cs = length tmpl" and "int (length b) + int (length cs) \<le> len"
    and "\<And>j. j < length cs \<Longrightarrow> cs ! j \<in> set (if tmpl ! j = CHR ''c'' then consonants else vowels)"
  shows "\<exists>ds. \<forall>r. fill_template draws len (tmpl @ more) b (ds @ r) = fill_template draws len more (b @ cs) r"
  using assms
proof (induction cs tmpl arbitrary: b rule: list_induct2)
  case Nil
  then show ?case by (intro exI [of _ "[]"]) simp
next
  case (Cons c cs t tmpl)
  from Cons.prems(2) [of 0] obtain d where
    d: "\<And>ds. pick draws (if t = CHR ''c'' then consonants else vowels) (d # ds) = (Inr c, ds)"
    using pick_draw [of c "if t = CHR ''c'' then consonants else vowels"] by auto
  have "\<exists>ds. \<forall>r. fill_template draws len (tmpl @ more) (b @ [c]) (ds @ r) =
      fill_template draws len more ((b @ [c]) @ cs) r"
    using Cons.prems(1) Cons.prems(2) [of "Suc _"] by (intro Cons.IH) auto
  then obtain ds where "\<And>r. fill_template draws len (tmpl @ more) (b @ [c]) (ds @ r) =
      fill_template draws len more (b @ c # cs) r" by auto
  with d Cons.prems(1) show ?case by (intro exI [of _ "d # ds"]) simp
qed

lemma ccv_template: "pick draws syllableTemplates (4 # ds) = (Inr ''ccv'', ds)"
  by (simp add: pick_def randInt_def syllableTemplates_def)

lemma ccv_letter: "i mod 3 = 0 \<Longrightarrow> j < 3 \<Longrightarrow> ccv (i + j) = (if ''ccv'' ! j = CHR ''c'' then consonants else vowels)"
proof -
  assume i: "i mod 3 = 0" and "j < 3"
  then consider "j = 0" | "j = 1" | "j = 2" by linarith
  moreover have "(i + 1) mod 3 = 1" "(i + 2) mod 3 = 2" using i by presburger+
  ultimately show ?thesis using i by cases (simp_all add: ccv_def)
qed

lemma fill_full: "fill_template ri (int (length b)) tmpl b r = (Inr b, r)"
  by (cases tmpl) simp_all

lemma ccv_filled:
  assumes "length b mod 3 = 0" and "k \<in> ccv_words (length b) m"
  shows "\<exists>ds. \<forall>r. fill_template draws (int (length b + m)) ''ccv'' b (ds @ r) = (Inr (b @ take 3 k), r)"
proof -
  let ?n = "min 3 m" and ?t = "''ccv''"
  have k: "length k = m" using assms(2) by (rule ccv_words_length)
  have "take 3 k ! j \<in> set (if take ?n ?t ! j = CHR ''c'' then consonants else vowels)" if "j < length (take 3 k)" for j
    using that assms k ccv_letter [OF assms(1), of j] by (auto simp: ccv_words_def)
  then obtain ds where "\<And>r. fill_template draws (int (length b + m)) (take ?n ?t @ drop ?n ?t) b (ds @ r) =
      fill_template draws (int (length b + m)) (drop ?n ?t) (b @ take 3 k) r"
    using fill_draws [of "take 3 k" "take ?n ?t" b "int (length b + m)" "drop ?n ?t"] k
    by (auto simp: min.commute simp del: append_take_drop_id fill_template.simps)
  moreover have "fill_template draws (int (length b + m)) (drop ?n ?t) (b @ take 3 k) r = (Inr (b @ take 3 k), r)" for r
    using fill_full [of draws "b @ take 3 k" "drop ?n ?t" r] k by (cases "m < 3") simp_all
  ultimately show ?thesis by (metis append_take_drop_id)
qed

lemma ccv_produced:
  assumes "length b mod 3 = 0" and "k \<in> ccv_words (length b) m"
  shows "\<exists>ds. fst (phonetic_loop draws (int (length b + m)) b ds) = Inr (b @ k)"
  using assms
proof (induction m arbitrary: b k rule: less_induct)
  case (less m)
  have k: "length k = m" using less.prems(2) by (rule ccv_words_length)
  show ?case
  proof (cases "m = 0")
    case True
    then show ?thesis using k by (simp add: phonetic_loop.simps)
  next
    case False
    obtain ds where ds: "\<And>r. fill_template draws (int (length b + m)) ''ccv'' b (ds @ r) = (Inr (b @ take 3 k), r)"
      using ccv_filled [OF less.prems] by blast
    have "\<exists>r. fst (phonetic_loop draws (int (length b + m)) (b @ take 3 k) r) = Inr (b @ k)"
    proof (cases "m < 3")
      case True
      then show ?thesis using k by (simp add: phonetic_loop.simps)
    next
      case False
      have "drop 3 k \<in> ccv_words (length (b @ take 3 k)) (m - 3)"
        using less.prems(2) False by (auto simp: ccv_words_def add.assoc)
      moreover have "length (b @ take 3 k) mod 3 = 0" using less.prems(1) False k by simp
      ultimately have "\<exists>r. fst (phonetic_loop draws (int (length (b @ take 3 k) + (m - 3))) (b @ take 3 k) r) =
          Inr ((b @ take 3 k) @ drop 3 k)"
        using \<open>m \<noteq> 0\<close> by (intro less.IH) simp_all
      then show ?thesis using False k by simp
    qed
    then obtain r where "fst (phonetic_loop draws (int (length b + m)) (b @ take 3 k) r) = Inr (b @ k)" ..
    with False ds ccv_template show ?thesis
      by (intro exI [of _ "4 # ds @ r"]) (simp add: phonetic_loop.simps [of _ _ b])
  qed
qed

lemma ccv_possible: "ccv_words 0 n \<subseteq> possible_keys NewPhonetic (int n)"
proof
  fix k assume k: "k \<in> ccv_words 0 n"
  then obtain ds where "fst (phonetic_loop draws (int n) [] ds) = Inr k" using ccv_produced [of "[]" k n] by auto
  moreover from k have "length k = n" by (rule ccv_words_length)
  ultimately show "k \<in> possible_keys NewPhonetic (int n)"
    by (auto simp: possible_keys_def NewPhonetic_def slice_to_def split: prod.split intro!: exI [of _ ds])
qed

section \<open>The estimates against the keys\<close>

lemma finite_phonetic: "finite (possible_keys NewPhonetic (int n))"
proof (rule finite_subset)
  show "possible_keys NewPhonetic (int n) \<subseteq> {k. set k \<subseteq> UNIV \<and> length k = n}"
    by (auto elim!: possible_good dest!: phonetic_keys.key_good [rotated])
qed (rule finite_lists_length_eq, simp)

lemma log_ccv:
  "log 2 (real (\<Prod>j < n. length (ccv j))) = (\<Sum>j < n. if j mod 3 = 2 then log 2 5 else log 2 21)"
proof (induction n)
  case (Suc n)
  have pos: "0 < (\<Prod>j < n. length (ccv j))" by (intro prod_pos) (simp add: ccv_def vowels_def consonants_def)
  have "length (ccv n) = (if n mod 3 = 2 then 5 else 21)" by (simp add: ccv_def vowels_def consonants_def)
  with Suc pos show ?case by (simp add: log_mult)
qed simp

lemma sum_ccv: "(\<Sum>j < n. if j mod 3 = 2 then a else b) = b * real n - (b - a) * real (n div 3)" for a b :: real
proof (induction n)
  case (Suc n)
  have "n mod 3 = 2 \<longleftrightarrow> Suc n mod 3 = 0" by presburger
  with Suc show ?case by (simp add: div_Suc algebra_simps)
qed simp

lemma sum_ccv_bound:
  fixes a b :: real
  assumes "a \<le> b"
  shows "real n * (7 * b + 6 * a) / 13 \<le> (\<Sum>j < n. if j mod 3 = 2 then a else b)"
proof -
  have "real (3 * (n div 3)) \<le> real n" using of_nat_mono [of "3 * (n div 3)" n] by simp
  then have "(b - a) * real (n div 3) \<le> (b - a) * (real n / 3)" using assms by (intro mult_left_mono) simp_all
  moreover have "0 \<le> (b - a) * (real n / 3)" using assms by simp
  moreover have "real n * (7 * b + 6 * a) / 13 = b * real n - 18 / 13 * ((b - a) * (real n / 3))" by (simp add: field_simps)
  ultimately have "real n * (7 * b + 6 * a) / 13 \<le> b * real n - (b - a) * real (n div 3)" by linarith
  then show ?thesis by (simp only: sum_ccv)
qed

lemma phonetic_bits: "2 powr EntropyBits NewPhonetic (int n) \<le> real (card (possible_keys NewPhonetic (int n)))"
proof -
  let ?N = "\<Prod>j < n. length (ccv j)"
  have "0 < ?N" by (intro prod_pos) (simp add: ccv_def vowels_def consonants_def)
  then have pos: "0 < real ?N" by (simp only: of_nat_0_less_iff)
  have "EntropyBits NewPhonetic (int n) = real n * (7 * log 2 21 + 6 * log 2 5) / 13"
    by (simp add: NewPhonetic_def Phonetic_bits)
  also have "\<dots> \<le> log 2 (real ?N)" unfolding log_ccv by (rule sum_ccv_bound) simp
  finally have "2 powr EntropyBits NewPhonetic (int n) \<le> 2 powr log 2 (real ?N)" by simp
  also have "\<dots> = real ?N" by (intro powr_log_cancel pos) simp_all
  also have "\<dots> \<le> real (card (possible_keys NewPhonetic (int n)))"
    using card_mono [OF finite_phonetic ccv_possible, of n] by (simp add: card_ccv_words del: of_nat_prod)
  finally show ?thesis .
qed

text \<open>
  C15. The start-up warning can be relied on for the generators over letters: for the default and the
  phonetic generator the estimate never exceeds the number of keys there are, so a configuration that
  starts without the warning has at least \<open>2 ^ 40\<close> different keys; for the default generator the
  estimate is exact.
\<close>

theorem no_warning_enough_keys:
  assumes "gen \<in> {NewRandom [], NewPhonetic}" and "0 \<le> len"
  shows "2 powr EntropyBits gen len \<le> real (card (possible_keys gen len)) \<and>
    (gen = NewRandom [] \<longrightarrow> real (card (possible_keys gen len)) = 2 powr EntropyBits gen len) \<and>
    (\<not> low_entropy gen len \<longrightarrow> 2 ^ 40 \<le> card (possible_keys gen len))"
proof -
  obtain n where len: "len = int n" using assms(2) nonneg_int_cases by blast
  have bits: "2 powr EntropyBits gen len \<le> real (card (possible_keys gen len))"
    using assms(1) random_bits [of n] phonetic_bits [of n] len by auto
  have "2 ^ 40 \<le> card (possible_keys gen len)" if "\<not> low_entropy gen len"
  proof -
    have "(2 :: real) powr 40 \<le> 2 powr EntropyBits gen len"
      using that by (intro powr_mono) (simp_all add: low_entropy_def minKeyEntropyBits_def)
    with bits have "real (2 ^ 40) \<le> real (card (possible_keys gen len))" by (simp add: powr_numeral)
    then show ?thesis by (simp only: of_nat_le_iff)
  qed
  with bits len random_bits [of n] show ?thesis by auto
qed

lemma no_warning_enough_keys_witness: "2 ^ 40 \<le> card (possible_keys (NewRandom []) 7)"
proof -
  have "(2 :: real) powr 40 \<le> 62 powr 7" by (simp add: powr_numeral)
  then have "40 \<le> log 2 ((62 :: real) powr 7)" by (subst le_log_iff) simp_all
  then have "40 \<le> 7 * log 2 (62 :: real)" by (simp only: log_powr)
  then have "\<not> low_entropy (NewRandom []) 7"
    by (simp add: low_entropy_def minKeyEntropyBits_def NewRandom_default Random_EntropyBits_def defaultKeyspace_def)
  with no_warning_enough_keys [of "NewRandom []" 7] show ?thesis by simp
qed

text \<open>
  For a word list the estimate is no such bound: \<open>NewDictionary\<close> keeps repeated lines and the estimate
  counts them. A list that repeats one word 1024 times passes for 40 bits at four words, without the
  warning, and yields one key.
\<close>

lemma dictionary_overestimated:
  "\<not> low_entropy (Dictionary (replicate 1024 ''word'')) 4 \<and>
   possible_keys (Dictionary (replicate 1024 ''word'')) 4 \<subseteq> {''wordwordwordword''}"
proof
  have "log 2 (1024 :: real) = 10" using log_pow_cancel [of 2 10] by simp
  then show "\<not> low_entropy (Dictionary (replicate 1024 ''word'')) 4"
    by (simp add: low_entropy_def minKeyEntropyBits_def Dictionary_EntropyBits_def)
  show "possible_keys (Dictionary (replicate 1024 ''word'')) 4 \<subseteq> {''wordwordwordword''}"
  proof
    fix k assume "k \<in> possible_keys (Dictionary (replicate 1024 ''word'')) 4"
    then obtain ds r where "pick_loop draws (replicate 1024 ''word'') 4 [] ds = (Inr k, r)"
      by (auto elim!: possible_good)
    then obtain ws where ws: "length ws = 4" "set ws \<subseteq> set (replicate 1024 ''word'')" "k = concat ws"
      using pick_loop_words by fastforce
    then have "ws = replicate 4 ''word''" by (intro replicate_eqI) auto
    with ws(3) show "k \<in> {''wordwordwordword''}" by (simp add: numeral_eq_Suc)
  qed
qed

end
