(* ===== verification/Process.thy ===== *)
theory Process
  imports Server_Facts
begin

text \<open>
  The second half of \<open>run\<close> (\<open>cmd/gopaste/main.go\<close>): the process from the moment it listens until it
  exits. The listener, the signal channel and the requests in flight run concurrently; \<open>run\<close> waits for
  the first of a broken listener and a signal, gives the server ten seconds to shut down and closes
  the store on its way out. The steps of all parties are one step relation.
\<close>

section \<open>The state\<close>

text \<open>\<open>net.JoinHostPort(cfg.Host, strconv.Itoa(cfg.Port))\<close>\<close>

definition JoinHostPort :: "string \<Rightarrow> string \<Rightarrow> string" where
  "JoinHostPort host port = (if CHR '':'' \<in> set host then ''['' @ host @ '']:'' @ port else host @ '':'' @ port)"

definition listen_addr :: "Config \<Rightarrow> string" where
  "listen_addr cfg = JoinHostPort (cfg_Host cfg) (Itoa (cfg_Port cfg))"

text \<open>
  \<open>Serving\<close> is the \<open>select\<close>, \<open>Draining\<close> the call of \<open>Shutdown\<close>; in \<open>Closing\<close> the result of \<open>run\<close> is known and
  its deferred \<open>Close\<close> of the store has been called.
\<close>

datatype phase = Serving | Draining | Closing | Exited

instantiation phase :: linorder
begin

fun phase_rank :: "phase \<Rightarrow> nat" where
  "phase_rank Serving = 0" | "phase_rank Draining = 1" | "phase_rank Closing = 2" | "phase_rank Exited = 3"

definition less_eq_phase :: "phase \<Rightarrow> phase \<Rightarrow> bool" where
  "x \<le> y \<longleftrightarrow> phase_rank x \<le> phase_rank y"

definition less_phase :: "phase \<Rightarrow> phase \<Rightarrow> bool" where
  "x < y \<longleftrightarrow> phase_rank x < phase_rank y"

instance
proof
  fix x y :: phase
  show "x \<le> y \<Longrightarrow> y \<le> x \<Longrightarrow> x = y" by (cases x; cases y) (simp_all add: less_eq_phase_def)
qed (auto simp: less_eq_phase_def less_phase_def)

end

text \<open>
  \<open>pr_err\<close> is the channel of the listener's error, \<open>pr_stop\<close> the one of the signals; each holds one
  item. A request that has been accepted waits for its reply; \<open>pr_calls\<close> are the requests that are inside
  a call of the store, which may last for any time. \<open>pr_waits\<close> is whether \<open>Close\<close> waits for these.
\<close>

record ('r, 's) process =
  pr_phase :: phase
  pr_err :: "string option"
  pr_stop :: bool
  pr_deadline :: int
  pr_now :: int
  pr_result :: "string option"
  pr_code :: nat
  pr_open :: bool
  pr_requests :: "(http_request \<times> reply option) list"
  pr_calls :: "nat set"
  pr_waits :: bool
  pr_state :: "('r, 's) server_state"

definition waiting :: "('r, 's) process \<Rightarrow> bool" where
  "waiting p \<longleftrightarrow> list_ex (\<lambda>(_, rep). rep = None) (pr_requests p)"

definition shutdownTimeout :: int where
  "shutdownTimeout = 10 * 1000000000"

text \<open>
  \<open>Close\<close> of the databases is that of the connection pool, which lets no new call in and waits for the
  connections in use; the file backend has nothing to close.
\<close>

fun Close_waits :: "backend \<Rightarrow> bool" where
  "Close_waits (Sqlite _) = True"
| "Close_waits (Postgres _) = True"
| "Close_waits (Files _) = False"

section \<open>Steps\<close>

text \<open>
  The listener accepts until it breaks or \<open>Shutdown\<close> closes it. A signal that meets a full channel is
  dropped. When an error and a signal are both there \<open>select\<close> takes either. \<open>Shutdown\<close> returns when no
  request waits, or with the error of its context at the deadline; it stops no request. When \<open>Close\<close> has
  returned, \<open>main\<close> turns an error into exit status 1. What a request does to the state is one step here,
  taken when it is answered (\<open>Interleaving\<close> looks inside); its calls of the store are intervals before that.
\<close>

inductive pstep :: "'r web_lib \<Rightarrow> 's server \<Rightarrow> ('r, 's) process \<Rightarrow> ('r, 's) process \<Rightarrow> bool" for lib h where
  Accept: "pr_phase p = Serving \<Longrightarrow> pr_err p = None \<Longrightarrow>
    pstep lib h p (p\<lparr>pr_requests := pr_requests p @ [(r, None)]\<rparr>)"
| Enter: "pr_phase p < Closing \<Longrightarrow> i < length (pr_requests p) \<Longrightarrow> pr_requests p ! i = (r, None) \<Longrightarrow>
    i \<notin> pr_calls p \<Longrightarrow> pstep lib h p (p\<lparr>pr_calls := insert i (pr_calls p)\<rparr>)"
| Leave: "pr_phase p < Exited \<Longrightarrow> i \<in> pr_calls p \<Longrightarrow> pstep lib h p (p\<lparr>pr_calls := pr_calls p - {i}\<rparr>)"
| Answer: "pr_phase p < Exited \<Longrightarrow> i < length (pr_requests p) \<Longrightarrow> pr_requests p ! i = (r, None) \<Longrightarrow>
    i \<notin> pr_calls p \<Longrightarrow> ce_now env = pr_now p \<Longrightarrow> serve lib h env r (pr_state p) = (Some rep, st) \<Longrightarrow>
    pstep lib h p (p\<lparr>pr_requests := (pr_requests p)[i := (r, Some rep)], pr_state := st\<rparr>)"
| Break: "pr_phase p = Serving \<Longrightarrow> pr_err p = None \<Longrightarrow> pstep lib h p (p\<lparr>pr_err := Some e\<rparr>)"
| Signal: "pr_phase p < Exited \<Longrightarrow> pstep lib h p (p\<lparr>pr_stop := True\<rparr>)"
| TakeErr: "pr_phase p = Serving \<Longrightarrow> pr_err p = Some e \<Longrightarrow>
    pstep lib h p (p\<lparr>pr_phase := Closing, pr_result := Some e, pr_open := False\<rparr>)"
| TakeStop: "pr_phase p = Serving \<Longrightarrow> pr_stop p \<Longrightarrow>
    pstep lib h p (p\<lparr>pr_phase := Draining, pr_stop := False, pr_deadline := pr_now p + shutdownTimeout\<rparr>)"
| Drained: "pr_phase p = Draining \<Longrightarrow> \<not> waiting p \<Longrightarrow>
    pstep lib h p (p\<lparr>pr_phase := Closing, pr_result := None, pr_open := False\<rparr>)"
| Timeout: "pr_phase p = Draining \<Longrightarrow> pr_deadline p \<le> pr_now p \<Longrightarrow>
    pstep lib h p (p\<lparr>pr_phase := Closing, pr_result := Some ''context deadline exceeded'', pr_open := False\<rparr>)"
| Exit: "pr_phase p = Closing \<Longrightarrow> \<not> pr_waits p \<or> pr_calls p = {} \<Longrightarrow>
    pstep lib h p (p\<lparr>pr_phase := Exited, pr_code := (if pr_result p = None then 0 else 1)\<rparr>)"
| Tick: "0 < dt \<Longrightarrow> pstep lib h p (p\<lparr>pr_now := pr_now p + dt\<rparr>)"

abbreviation psteps :: "'r web_lib \<Rightarrow> 's server \<Rightarrow> ('r, 's) process \<Rightarrow> ('r, 's) process \<Rightarrow> bool" where
  "psteps lib h \<equiv> (pstep lib h)\<^sup>*\<^sup>*"

text \<open>As \<open>run\<close> enters the \<open>select\<close>, with the state the start-up left.\<close>

definition listening :: "int \<Rightarrow> ('r, backend) server_state \<Rightarrow> ('r, backend) process" where
  "listening t st = \<lparr>pr_phase = Serving, pr_err = None, pr_stop = False, pr_deadline = 0, pr_now = t, pr_result = None,
     pr_code = 0, pr_open = True, pr_requests = [], pr_calls = {}, pr_waits = Close_waits (sv_store st), pr_state = st\<rparr>"

section \<open>Only forward\<close>

lemma phase_less: "Serving < Draining" "Serving < Closing" "Serving < Exited" "Draining < Closing" "Draining < Exited"
    "Closing < Exited" "x < Closing \<longleftrightarrow> x = Serving \<or> x = Draining" "x < Exited \<longleftrightarrow> x \<noteq> Exited" "\<not> x < Serving"
  by (cases x; simp add: less_phase_def)+

lemma Closing_le: "Closing \<le> x \<longleftrightarrow> x = Closing \<or> x = Exited"
  by (cases x) (simp_all add: less_eq_phase_def)

lemma pstep_phase: "pstep lib h p p' \<Longrightarrow> pr_phase p \<le> pr_phase p'"
  by (induction rule: pstep.induct) (simp_all add: less_imp_le phase_less)

lemma pstep_now: "pstep lib h p p' \<Longrightarrow> pr_now p \<le> pr_now p'"
  by (induction rule: pstep.induct) simp_all

lemma pstep_waits: "pstep lib h p p' \<Longrightarrow> pr_waits p' = pr_waits p"
  by (induction rule: pstep.induct) simp_all

text \<open>An answer leaves no request waiting that was not.\<close>

lemma list_ex_update: "list_ex (\<lambda>(_, rep). rep = None) (xs[i := (r, Some y)]) \<Longrightarrow> list_ex (\<lambda>(_, rep). rep = None) xs"
  by (auto simp: list_ex_iff dest!: set_update_subset_insert [THEN subsetD])

section \<open>Invariant\<close>

text \<open>
  The store is open exactly until \<open>run\<close> has its result; this is no error only when every request
  accepted has its reply; the exit status tells which.
\<close>

definition process_ok :: "('r, 's) process \<Rightarrow> bool" where
  "process_ok p \<longleftrightarrow> (pr_open p \<longleftrightarrow> pr_phase p < Closing) \<and>
     (Closing \<le> pr_phase p \<and> pr_result p = None \<longrightarrow> \<not> waiting p) \<and>
     (pr_phase p = Exited \<longrightarrow> pr_code p = (if pr_result p = None then 0 else 1))"

lemma pstep_ok: "pstep lib h p p' \<Longrightarrow> process_ok p \<Longrightarrow> process_ok p'"
  by (induction rule: pstep.induct) (auto simp: process_ok_def phase_less Closing_le waiting_def dest: list_ex_update)

lemma psteps_ok: "psteps lib h p p' \<Longrightarrow> process_ok p \<Longrightarrow> process_ok p'"
  by (induction rule: rtranclp_induct) (auto intro: pstep_ok)

lemma listening_ok [simp]: "process_ok (listening t st)"
  by (simp add: process_ok_def listening_def phase_less Closing_le)

text \<open>What the process has done to the server's state is a run of the requests it answered.\<close>

lemma serve_run_append: "serve_run lib h (rs @ rs') st = serve_run lib h rs' (serve_run lib h rs st)"
  by (induction rs arbitrary: st) auto

lemma pstep_state:
  "pstep lib h p p' \<Longrightarrow> (\<exists>rs. pr_state p' = serve_run lib h rs (pr_state p) \<and> snd ` set rs \<subseteq> fst ` set (pr_requests p)) \<and>
     fst ` set (pr_requests p) \<subseteq> fst ` set (pr_requests p')"
proof (induction rule: pstep.induct)
  case (Answer p i r env rep st)
  then have "map fst ((pr_requests p)[i := (r, Some rep)]) = map fst (pr_requests p)"
    by (simp add: map_update list_update_same_conv)
  then have "fst ` set ((pr_requests p)[i := (r, Some rep)]) = fst ` set (pr_requests p)"
    by (metis list.set_map)
  moreover have "r \<in> fst ` set (pr_requests p)" using Answer by (metis fst_conv image_eqI nth_mem)
  ultimately show ?case using Answer by (auto intro!: exI [of _ "[(env, r)]"] intro: rev_image_eqI)
qed (auto intro!: exI [of _ "[]"])

lemma psteps_state:
  "psteps lib h p p' \<Longrightarrow> (\<exists>rs. pr_state p' = serve_run lib h rs (pr_state p) \<and> snd ` set rs \<subseteq> fst ` set (pr_requests p')) \<and>
     fst ` set (pr_requests p) \<subseteq> fst ` set (pr_requests p')"
proof (induction rule: rtranclp_induct)
  case base
  show ?case by (auto intro!: exI [of _ "[]"])
next
  case (step p1 p2)
  then obtain rs where rs: "pr_state p1 = serve_run lib h rs (pr_state p)" "snd ` set rs \<subseteq> fst ` set (pr_requests p1)" by blast
  from pstep_state [OF step(2)] obtain rs' where rs': "pr_state p2 = serve_run lib h rs' (pr_state p1)"
    "snd ` set rs' \<subseteq> fst ` set (pr_requests p1)" "fst ` set (pr_requests p1) \<subseteq> fst ` set (pr_requests p2)" by blast
  have "pr_state p2 = serve_run lib h (rs @ rs') (pr_state p)" by (simp add: rs rs' serve_run_append)
  moreover have "snd ` set (rs @ rs') \<subseteq> fst ` set (pr_requests p2)"
    unfolding set_append image_Un by (intro Un_least order_trans [OF rs(2) rs'(3)] order_trans [OF rs'(2) rs'(3)])
  moreover have "fst ` set (pr_requests p) \<subseteq> fst ` set (pr_requests p2)"
    by (rule order_trans [OF conjunct2 [OF step(3)] rs'(3)])
  ultimately show ?case by (intro conjI exI [of _ "rs @ rs'"])
qed

section \<open>Properties\<close>

text \<open>
  C12. A clean exit loses nothing. Whatever the clients, the listener, the clock and the signals do from
  the moment the process listens: the store is open until \<open>run\<close> returns, and closed then; and when the process exits with status 0, every request it ever accepted has been
  answered before the store was closed, and the server's state is what answering them made of it.
\<close>

theorem clean_exit:
  assumes "psteps lib h (listening t st) p"
  shows "(pr_open p \<longleftrightarrow> pr_phase p < Closing) \<and>
    (pr_phase p = Exited \<and> pr_code p = 0 \<longrightarrow> (\<forall>(r, rep) \<in> set (pr_requests p). rep \<noteq> None)) \<and>
    (\<exists>rs. pr_state p = serve_run lib h rs st \<and> snd ` set rs \<subseteq> fst ` set (pr_requests p))"
proof -
  have "process_ok p" using psteps_ok [OF assms] by simp
  moreover have "\<forall>(r, rep) \<in> set (pr_requests p). rep \<noteq> None" if "\<not> waiting p"
    using that by (auto simp: waiting_def list_ex_iff)
  moreover have "pr_state (listening t st) = st" by (simp add: listening_def)
  ultimately show ?thesis
    using psteps_state [OF assms] by (auto simp: process_ok_def Closing_le split: if_splits)
qed

text \<open>What \<open>run\<close> and \<open>main\<close> can do next by themselves.\<close>

definition due :: "('r, 's) process \<Rightarrow> bool" where
  "due p \<longleftrightarrow> (case pr_phase p of
      Serving \<Rightarrow> pr_err p \<noteq> None \<or> pr_stop p
    | Draining \<Rightarrow> \<not> waiting p \<or> pr_deadline p \<le> pr_now p
    | Closing \<Rightarrow> \<not> pr_waits p \<or> pr_calls p = {}
    | Exited \<Rightarrow> False)"

text \<open>
  An endless observation of the process that is weakly fair to its main goroutine (if it can go on from
  some time on, it does) and in which time passes. Nothing is assumed of the requests or of the calls of
  the store: they may last for ever.
\<close>

definition fair_run :: "'r web_lib \<Rightarrow> 's server \<Rightarrow> (nat \<Rightarrow> ('r, 's) process) \<Rightarrow> bool" where
  "fair_run lib h f \<longleftrightarrow> (\<forall>i. pstep lib h (f i) (f (Suc i))) \<and>
     (\<forall>i. (\<forall>j \<ge> i. due (f j)) \<longrightarrow> (\<exists>j \<ge> i. pr_phase (f (Suc j)) \<noteq> pr_phase (f j))) \<and> (\<forall>t. \<exists>i. t \<le> pr_now (f i))"

lemma fair_step: "fair_run lib h f \<Longrightarrow> pstep lib h (f i) (f (Suc i))"
  by (simp add: fair_run_def)

lemma fair_mono:
  assumes "fair_run lib h f" and "i \<le> j"
  shows "pr_phase (f i) \<le> pr_phase (f j)" and "pr_now (f i) \<le> pr_now (f j)" and "pr_waits (f j) = pr_waits (f i)"
  using assms(2)
proof (induction rule: dec_induct)
  case (step n)
  show "pr_phase (f i) \<le> pr_phase (f (Suc n))" and "pr_now (f i) \<le> pr_now (f (Suc n))"
    and "pr_waits (f (Suc n)) = pr_waits (f i)"
    using step pstep_phase [OF fair_step [OF assms(1), of n]] pstep_now [OF fair_step [OF assms(1), of n]]
      pstep_waits [OF fair_step [OF assms(1), of n]]
    by (auto intro: order_trans)
qed simp_all

text \<open>What is due stays due until the phase changes; so weak fairness is enough.\<close>

lemma pstep_due: "pstep lib h p p' \<Longrightarrow> due p \<Longrightarrow> pr_phase p' = pr_phase p \<Longrightarrow> due p'"
  by (induction rule: pstep.induct)
    (auto simp: due_def phase_less waiting_def dest: list_ex_update split: phase.splits)

lemma due_moves:
  assumes "fair_run lib h f" and "due (f i)"
  obtains j where "i \<le> j" and "pr_phase (f i) < pr_phase (f j)"
proof (cases "\<exists>j \<ge> i. pr_phase (f j) \<noteq> pr_phase (f i)")
  case True
  then obtain j where "i \<le> j" "pr_phase (f j) \<noteq> pr_phase (f i)" by blast
  with fair_mono(1) [OF assms(1), of i j] show thesis by (intro that [of j]) auto
next
  case False
  have "due (f j)" if "i \<le> j" for j
    using that
  proof (induction rule: dec_induct)
    case (step n)
    from False step have "pr_phase (f (Suc n)) = pr_phase (f n)" by (metis le_Suc_eq)
    with pstep_due [OF fair_step [OF assms(1), of n]] step show ?case by simp
  qed (rule assms(2))
  with assms(1) obtain j where "i \<le> j" "pr_phase (f (Suc j)) \<noteq> pr_phase (f j)" unfolding fair_run_def by blast
  with False show thesis by (metis le_Suc_eq)
qed

text \<open>The deadline is fixed while the server drains.\<close>

lemma pstep_deadline: "pstep lib h p p' \<Longrightarrow> pr_phase p = Draining \<Longrightarrow> pr_deadline p' = pr_deadline p"
  by (induction rule: pstep.induct) simp_all

lemma draining_deadline:
  assumes "fair_run lib h f" and "pr_phase (f i) = Draining" and "i \<le> j" and "pr_phase (f j) = Draining"
  shows "pr_deadline (f j) = pr_deadline (f i)"
  using assms(3,4)
proof (induction rule: dec_induct)
  case (step n)
  have "pr_phase (f i) \<le> pr_phase (f n)" "pr_phase (f n) \<le> pr_phase (f (Suc n))"
    using fair_mono(1) [OF assms(1), of i n] fair_mono(1) [OF assms(1), of n "Suc n"] step by simp_all
  then have "pr_phase (f n) = Draining" using assms(2) step by simp
  then show ?case using step pstep_deadline [OF fair_step [OF assms(1), of n]] by simp
qed simp

lemma draining_ends:
  assumes "fair_run lib h f" and "pr_phase (f i) = Draining"
  obtains j where "i \<le> j" and "Draining < pr_phase (f j)"
proof -
  obtain k where k: "pr_deadline (f i) \<le> pr_now (f k)" using assms(1) unfolding fair_run_def by blast
  let ?j = "max i k"
  have j: "pr_phase (f i) \<le> pr_phase (f ?j)" "pr_now (f k) \<le> pr_now (f ?j)"
    using fair_mono(1) [OF assms(1), of i ?j] fair_mono(2) [OF assms(1), of k ?j] by simp_all
  show thesis
  proof (cases "pr_phase (f ?j) = Draining")
    case False
    with j assms(2) show thesis by (intro that [of ?j]) auto
  next
    case True
    have "pr_deadline (f ?j) = pr_deadline (f i)" using draining_deadline [OF assms(1,2) _ True] by simp
    with True j k have "due (f ?j)" by (simp add: due_def)
    from due_moves [OF assms(1) this] obtain l where "?j \<le> l" "pr_phase (f ?j) < pr_phase (f l)" .
    then show thesis using True by (intro that [of l]) auto
  qed
qed

text \<open>While \<open>Close\<close> waits, calls end and none begins.\<close>

lemma pstep_calls: "pstep lib h p p' \<Longrightarrow> pr_phase p = Closing \<Longrightarrow> pr_calls p' \<subseteq> pr_calls p"
  by (induction rule: pstep.induct) (auto simp: phase_less)

lemma pstep_finite: "pstep lib h p p' \<Longrightarrow> finite (pr_calls p) \<Longrightarrow> finite (pr_calls p')"
  by (induction rule: pstep.induct) simp_all

lemma closing_calls:
  assumes "fair_run lib h f" and "finite (pr_calls (f 0))" and closing: "\<And>k. i \<le> k \<Longrightarrow> pr_phase (f k) = Closing"
    and never: "\<And>k. i \<le> k \<Longrightarrow> pr_calls (f k) \<noteq> {}"
  obtains j c where "i \<le> j" and "\<forall>k \<ge> j. c \<in> pr_calls (f k)"
proof -
  have fin: "finite (pr_calls (f k))" for k
    by (induction k) (use assms(2) pstep_finite [OF fair_step [OF assms(1)]] in auto)
  have less: "pr_calls (f k) \<subseteq> pr_calls (f j)" if "i \<le> j" "j \<le> k" for j k
    using that(2)
  proof (induction rule: dec_induct)
    case (step n)
    have "pr_calls (f (Suc n)) \<subseteq> pr_calls (f n)"
      using pstep_calls [OF fair_step [OF assms(1), of n]] closing [of n] that(1) step by simp
    with step show ?case by blast
  qed simp
  obtain j where j: "i \<le> j" and least: "\<And>k. i \<le> k \<Longrightarrow> card (pr_calls (f j)) \<le> card (pr_calls (f k))"
    using ex_has_least_nat [of "\<lambda>k. i \<le> k" i "\<lambda>k. card (pr_calls (f k))"] by auto
  have "pr_calls (f k) = pr_calls (f j)" if "j \<le> k" for k
    using card_seteq [OF fin less [OF j that]] least [of k] j that by simp
  with never [OF j] j show thesis by (metis ex_in_conv that)
qed

lemma phase_next: "Serving < x \<longleftrightarrow> Draining \<le> x" "Draining < x \<longleftrightarrow> Closing \<le> x"
    "Draining \<le> x \<longleftrightarrow> x \<noteq> Serving"
  by (cases x; simp add: less_phase_def less_eq_phase_def)+

lemma leaves_server:
  assumes "fair_run lib h f" and "due (f i) \<or> Draining \<le> pr_phase (f i)"
  obtains n where "i \<le> n" and "Closing \<le> pr_phase (f n)"
proof -
  obtain d where d: "i \<le> d" "Draining \<le> pr_phase (f d)"
  proof (cases "pr_phase (f i) = Serving")
    case True
    with assms(2) have "due (f i)" by (simp add: phase_next)
    from due_moves [OF assms(1) this] obtain j where "i \<le> j" "pr_phase (f i) < pr_phase (f j)" .
    with True show thesis by (intro that [of j]) (simp_all add: phase_next)
  qed (use that [of i] in \<open>simp add: phase_next\<close>)
  show thesis
  proof (cases "pr_phase (f d) = Draining")
    case True
    from draining_ends [OF assms(1) this] obtain j where "d \<le> j" "Draining < pr_phase (f j)" .
    with d(1) show thesis by (intro that [of j]) (simp_all add: phase_next)
  next
    case False
    with d show thesis by (intro that [of d]) (cases "pr_phase (f d)"; simp add: Closing_le phase_next)+
  qed
qed

text \<open>
  C13. The process stops when it is told to. Once a signal has arrived, or the listener has broken, it
  exits, whatever the clients and the requests do: a request that never ends delays it by no more than
  the deadline of the shutdown. There is one exception, stated exactly: the deferred \<open>Close\<close> of a database
  waits for the calls in progress, without a bound, so the process hangs when one of them never ends.
  With the file backend it always exits.
\<close>

theorem shutdown_completes:
  assumes "fair_run lib h f" and "finite (pr_calls (f 0))" and "due (f i) \<or> Draining \<le> pr_phase (f i)"
  shows "(\<exists>j \<ge> i. pr_phase (f j) = Exited) \<or>
    pr_waits (f i) \<and> (\<exists>j \<ge> i. \<exists>c. \<forall>k \<ge> j. pr_phase (f k) = Closing \<and> c \<in> pr_calls (f k))"
proof (cases "\<exists>j \<ge> i. pr_phase (f j) = Exited")
  case False
  obtain n where n: "i \<le> n" "Closing \<le> pr_phase (f n)" using assms(1,3) by (rule leaves_server)
  have closing: "pr_phase (f k) = Closing" if "n \<le> k" for k
    using order_trans [OF n(2) fair_mono(1) [OF assms(1) that]] n(1) False that by (auto simp: Closing_le)
  have not_due: "\<not> due (f k)" if "n \<le> k" for k
  proof
    assume "due (f k)"
    from due_moves [OF assms(1) this] obtain j where "k \<le> j" "pr_phase (f k) < pr_phase (f j)" .
    with closing [of k] closing [of j] that show False by simp
  qed
  have stuck: "pr_waits (f k)" "pr_calls (f k) \<noteq> {}" if "n \<le> k" for k
    using not_due [OF that] closing [OF that] by (simp_all add: due_def)
  obtain j c where jc: "n \<le> j" "\<forall>k \<ge> j. c \<in> pr_calls (f k)"
    by (rule closing_calls [OF assms(1,2) closing stuck(2)])
  then have "\<forall>k \<ge> j. pr_phase (f k) = Closing \<and> c \<in> pr_calls (f k)" using closing by simp
  moreover have "pr_waits (f i)" using stuck(1) [of n] fair_mono(3) [OF assms(1) n(1)] by simp
  ultimately show ?thesis using n(1) jc(1) le_trans by blast
qed blast

section \<open>A concrete run\<close>

text \<open>A request is accepted and answered, a signal arrives, the process drains and exits.\<close>

lemma clean_exit_witness:
  "\<exists>p rep. psteps demo_lib demo_web (listening 0 (demo_state demo_sqlite)) p \<and> pr_phase p = Exited \<and> pr_code p = 0 \<and>
     pr_requests p = [(demo_post, Some rep)]"
proof -
  obtain rep st where x: "serve demo_lib demo_web demo_env demo_post (demo_state demo_sqlite) = (Some rep, st)"
    by (rule demo_posted)
  let ?p = "listening 0 (demo_state demo_sqlite)"
  let ?p1 = "?p\<lparr>pr_requests := [(demo_post, None)]\<rparr>"
  let ?p2 = "?p1\<lparr>pr_requests := [(demo_post, Some rep)], pr_state := st\<rparr>"
  let ?p3 = "?p2\<lparr>pr_stop := True\<rparr>"
  let ?p4 = "?p3\<lparr>pr_phase := Draining, pr_stop := False, pr_deadline := 0 + shutdownTimeout\<rparr>"
  let ?p5 = "?p4\<lparr>pr_phase := Closing, pr_result := None, pr_open := False\<rparr>"
  let ?p6 = "?p5\<lparr>pr_phase := Exited, pr_code := 0\<rparr>"
  note s = listening_def phase_less waiting_def
  have "pstep demo_lib demo_web ?p ?p1" using Accept [of ?p demo_lib demo_web demo_post] by (simp add: s)
  moreover have "pstep demo_lib demo_web ?p1 ?p2"
    using Answer [of ?p1 0 demo_post demo_env demo_lib demo_web rep st] x by (simp add: s demo_env_def)
  moreover have "pstep demo_lib demo_web ?p2 ?p3" using Signal [of ?p2 demo_lib demo_web] by (simp add: s)
  moreover have "pstep demo_lib demo_web ?p3 ?p4" using TakeStop [of ?p3 demo_lib demo_web] by (simp add: s)
  moreover have "pstep demo_lib demo_web ?p4 ?p5" using Drained [of ?p4 demo_lib demo_web] by (simp add: s)
  moreover have "pstep demo_lib demo_web ?p5 ?p6" using Exit [of ?p5 demo_lib demo_web] by (simp add: s)
  ultimately have run: "psteps demo_lib demo_web ?p ?p6" by (meson converse_rtranclp_into_rtranclp rtranclp.rtrancl_refl)
  have "\<forall>(r, rep) \<in> set (pr_requests ?p6). rep \<noteq> None" using clean_exit [OF run] by simp
  with run show ?thesis by (intro exI [of _ ?p6] exI [of _ rep]) simp
qed

text \<open>A signal to an idle process; afterwards only the clock goes on.\<close>

fun stopped_run :: "nat \<Rightarrow> (unit, backend) process" where
  "stopped_run 0 = (listening 0 (demo_state demo_sqlite))\<lparr>pr_stop := True\<rparr>"
| "stopped_run (Suc 0) = (listening 0 (demo_state demo_sqlite))\<lparr>pr_phase := Draining, pr_deadline := shutdownTimeout\<rparr>"
| "stopped_run (Suc (Suc 0)) = (listening 0 (demo_state demo_sqlite))
     \<lparr>pr_phase := Closing, pr_deadline := shutdownTimeout, pr_open := False\<rparr>"
| "stopped_run (Suc (Suc (Suc n))) = (listening (int n) (demo_state demo_sqlite))
     \<lparr>pr_phase := Exited, pr_deadline := shutdownTimeout, pr_open := False\<rparr>"

lemma stopped_steps: "pstep demo_lib demo_web (stopped_run n) (stopped_run (Suc n))"
proof (induction n rule: stopped_run.induct)
  case 1
  show ?case using TakeStop [of "stopped_run 0" demo_lib demo_web] by (simp add: listening_def)
next
  case 2
  show ?case using Drained [of "stopped_run (Suc 0)" demo_lib demo_web] by (simp add: listening_def waiting_def)
next
  case 3
  show ?case using Exit [of "stopped_run (Suc (Suc 0))" demo_lib demo_web] by (simp add: listening_def)
next
  case (4 n)
  show ?case using Tick [of 1 demo_lib demo_web "stopped_run (Suc (Suc (Suc n)))"] by (simp add: listening_def add.commute)
qed

lemma stopped_due: "due (stopped_run n) \<Longrightarrow> pr_phase (stopped_run (Suc n)) \<noteq> pr_phase (stopped_run n)"
  by (induction n rule: stopped_run.induct) (simp_all add: due_def listening_def)

lemma stopped_calls: "pr_calls (stopped_run n) = {}"
  by (induction n rule: stopped_run.induct) (simp_all add: listening_def)

lemma shutdown_completes_witness: "\<exists>j \<ge> 0. pr_phase (stopped_run j) = Exited"
proof -
  have "t \<le> pr_now (stopped_run (Suc (Suc (Suc (nat t)))))" for t by (simp add: listening_def)
  then have "\<forall>t. \<exists>i. t \<le> pr_now (stopped_run i)" by blast
  then have "fair_run demo_lib demo_web stopped_run"
    using stopped_steps stopped_due by (auto simp: fair_run_def)
  moreover have "due (stopped_run 0)" by (simp add: due_def listening_def)
  ultimately show ?thesis using shutdown_completes [of demo_lib demo_web stopped_run 0]
    by (auto simp: stopped_calls simp del: stopped_run.simps)
qed

end
