(* ===== verification/Api_Errors.thy ===== *)
theory Api_Errors
  imports Reply_Facts
begin

text \<open>
  The error replies of the paste API and of the management API: which status comes with which
  message, and the shape of the document that carries it.
\<close>

section \<open>The error table\<close>

fun api_route :: "route \<Rightarrow> bool" where
  "api_route RPost = True"
| "api_route (RGet _) = True"
| "api_route (RRawGet _) = True"
| "api_route RAdminList = True"
| "api_route (RAdminDelete _) = True"
| "api_route RAdminPurge = True"
| "api_route _ = False"

text \<open>The errors the handler of a route reports itself.\<close>

fun handler_errors :: "route \<Rightarrow> (go_int \<times> string) list" where
  "handler_errors RPost =
     [(403, ''Cross-origin writes are not permitted.''), (400, ''Paste exceeds the maximum allowed size.''),
      (400, ''Paste body must not be empty.''),
      (429, ''You are sending data too quickly; try again shortly.''),
      (500, ''The request body could not be read.''), (500, ''The paste could not be stored.'')]"
| "handler_errors (RGet _) =
     [(404, ''No paste exists for that id.''), (500, ''The storage backend is unavailable.'')]"
| "handler_errors (RRawGet _) =
     [(404, ''No paste exists for that id.''), (500, ''The storage backend is unavailable.'')]"
| "handler_errors RAdminList =
     [(500, ''Could not list pastes.''), (500, ''Could not read paste stats.'')]"
| "handler_errors (RAdminDelete _) =
     [(400, ''A paste id is required.''), (403, ''Preloaded pastes cannot be deleted.''),
      (404, ''No paste exists for that id.''), (500, ''Could not delete the paste.'')]"
| "handler_errors RAdminPurge = [(500, ''Could not purge expired pastes.'')]"
| "handler_errors _ = []"

text \<open>The reply is the JSON object with one field, with or without the line end of the encoder.\<close>

definition says :: "http_request \<Rightarrow> string \<Rightarrow> string \<Rightarrow> string \<Rightarrow> reply \<Rightarrow> bool" where
  "says r field msg end_line rep \<longleftrightarrow>
     header_values (rp_header rep) ''Content-Type'' = [''application/json''] \<and>
     rp_body rep = (if is_head r then [] else json_encode (JObj [(field, JStr msg)]) @ end_line)"

section \<open>What the handlers answer\<close>

definition error_of :: "route \<Rightarrow> http_request \<Rightarrow> reply \<Rightarrow> bool" where
  "error_of rt r rep \<longleftrightarrow>
     (\<exists>msg. (rp_status rep, msg) \<in> set (handler_errors rt) \<and> says r ''error'' msg [CHR 0x0A] rep)"

definition refused_by_gate :: "route \<Rightarrow> http_request \<Rightarrow> reply \<Rightarrow> bool" where
  "refused_by_gate rt r rep \<longleftrightarrow>
     rp_status rep = 401 \<and> rt \<in> {RAdminList, RAdminPurge} \<union> range RAdminDelete \<and>
     says r ''message'' ''Unauthorized.'' [] rep"

text \<open>Up to a panic, which is answered elsewhere.\<close>

fun tells :: "route \<Rightarrow> http_request \<Rightarrow> outcome \<times> response \<times> 's \<Rightarrow> bool" where
  "tells rt r (Returns, w, st) =
     (rp_status (finish r w) < 400 \<or> error_of rt r (finish r w) \<or> refused_by_gate rt r (finish r w))"
| "tells rt r _ = True"

lemma says_writeError:
  "rs_sent w = None \<Longrightarrow> rs_body w = [] \<Longrightarrow> says r ''error'' msg [CHR 0x0A] (finish r (writeError r code msg w))"
  using writeJSON_sent [of w r code "JObj [(''error'', JStr msg)]"]
  by (auto simp: says_def writeError_def writeJSON_body finish_sent)

lemma error_of_writeError:
  "rs_sent w = None \<Longrightarrow> rs_body w = [] \<Longrightarrow> (code, msg) \<in> set (handler_errors rt) \<Longrightarrow>
     error_of rt r (finish r (writeError r code msg w))"
  by (auto simp: error_of_def writeError_status says_writeError)

lemma tells_get:
  assumes "rs_sent w = None" and "rs_body w = []"
  shows "tells (RGet k) r (handleGet h env k r w st)" and "tells (RRawGet k) r (handleRawGet h env k r w st)"
  using assms
  by (auto simp: handleGet_def handleRawGet_def Let_def error_of_writeError writeJSON_status finish_sent
      split: prod.split sum.split option.split)

lemma tells_post:
  assumes "rs_sent w = None" and "rs_body w = []"
  shows "tells RPost r (handlePost lib h env r w st)"
proof -
  have "tells RPost r (storePaste lib h env data r w st)" for data st
    using assms
    by (auto simp: storePaste_def error_of_writeError writeJSON_status split: option.split prod.split chosen.split)
  moreover have "error_of RPost r (finish r w')" if "readBody h r w = Inl w'" for w'
    using assms that by (auto simp: readBody_def Let_def error_of_writeError split: if_splits option.splits)
  ultimately show ?thesis
    using assms by (simp add: handlePost_def error_of_writeError split: prod.split sum.split bool.split)
qed

lemma tells_console:
  assumes "rs_sent w = None" and "rs_body w = []"
  shows "tells RAdminList r (adminListPastes lib h m env r w st)"
    and "tells (RAdminDelete k) r (adminDeletePaste h env k r w st)"
    and "tells RAdminPurge r (adminPurge h env r w st)"
  using assms
  by (auto simp: adminListPastes_def adminDeletePaste_def adminPurge_def Let_def error_of_writeError writeJSON_status
      split: prod.split sum.split bool.split)

lemma tells_gate:
  assumes "rs_sent w = None" and "rs_body w = []" and "\<And>st. tells rt r (next_h r w st)"
    and "rt = RAdminList \<or> rt = RAdminDelete k \<or> rt = RAdminPurge"
  shows "tells rt r (GateAPI lib m now next_h r w st)"
  using assms
  by (auto simp: GateAPI_def refused_by_gate_def says_def finish_sent split: prod.split option.split)

lemma tells_route:
  assumes "rs_sent w = None" and "rs_body w = []" and "api_route rt"
  shows "tells rt r (serve_route lib h m env rt r w st)"
  using assms by (cases rt) (simp_all add: tells_get tells_post tells_gate tells_console)

section \<open>What the server answers\<close>

lemma says_too_many: "says r ''message'' ''Rate limit exceeded.'' [] (finish r (too_many (entry h r)))"
  by (simp add: says_def too_many_def finish_sent)

lemma too_many_status: "rp_status (finish r (too_many (entry h r))) = 429"
  by (simp add: too_many_def finish_sent)

lemma says_panicked:
  "rs_sent w = None \<Longrightarrow> rs_body w = [] \<Longrightarrow> rp_status (finish r (panicked w)) = 500 \<and>
     says r ''error'' ''Internal server error.'' [] (finish r (panicked w))"
  by (simp add: says_def panicked_def finish_def)

lemma reach_tells:
  assumes "mux_route h (rq_Method r) (rq_segments r) = Some rt" and "api_route rt"
  shows "tells rt r (reach lib h env r st)"
  using assms by (simp add: reach_def mux_def tells_route)

text \<open>
  C26. The errors of the API. Every error reply of a request to an API route, public or admin, is a
  JSON object of one field that holds the message. The errors a handler reports are those \<open>handler_errors\<close>
  lists for its route; they and a panic put the message into the field \<open>error\<close>, as the documentation
  promises of every error. It does not hold of the two other places: a request over the request
  budget gets its 429, and a call of the management API without a session its 401, in the field
  \<open>message\<close>.
\<close>

theorem api_errors:
  assumes "serve lib h env r st = (Some rep, st')" and "400 \<le> rp_status rep"
    and "mux_route h (rq_Method r) (rq_segments r) = Some rt" and "api_route rt"
  shows "if fst (lets_pass env r st)
    then (\<exists>msg. (rp_status rep, msg) \<in> set (handler_errors rt) \<and> says r ''error'' msg [CHR 0x0A] rep) \<or>
      rp_status rep = 500 \<and> says r ''error'' ''Internal server error.'' [] rep \<or>
      rp_status rep = 401 \<and> rt \<in> {RAdminList, RAdminPurge} \<union> range RAdminDelete \<and>
        says r ''message'' ''Unauthorized.'' [] rep
    else rp_status rep = 429 \<and> says r ''message'' ''Rate limit exceeded.'' [] rep"
proof -
  have no_preflight: "\<not> preflight h r"
    using assms(1,2) by (auto simp: serve_eq answered_def finish_sent)
  show ?thesis
  proof (cases "fst (lets_pass env r st)")
    case False
    with assms(1) no_preflight have "rep = finish r (too_many (entry h r))"
      by (simp add: serve_eq answered_def)
    with False show ?thesis by (simp add: says_too_many too_many_status)
  next
    case True
    obtain res w st1 where x: "reach lib h env r st = (res, w, st1)" by (cases "reach lib h env r st") auto
    have "rs_sent w = None" "rs_body w = []" if "res = Panics p" for p
      using reach_ends(1) [of lib h env r st] that x by simp_all
    with x True assms(1,2) no_preflight reach_tells [OF assms(3,4), of lib env st] show ?thesis
      by (cases res) (auto simp: serve_eq answered_def error_of_def refused_by_gate_def says_panicked)
  qed
qed

text \<open>A \<open>POST\<close> without data.\<close>

definition blank_post :: http_request where
  "blank_post = demo_post\<lparr>rq_body := ([], False)\<rparr>"

lemma blank_refused:
  "handlePost demo_lib (demo_server demo_cfg gen ops) demo_env blank_post w st =
     (Returns, writeError blank_post 400 ''Paste body must not be empty.'' w, st)"
proof -
  have "writeOriginAllowed demo_lib (demo_server demo_cfg gen ops) blank_post"
    by (simp add: writeOriginAllowed_def blank_post_def demo_post_def plain_request_def header_get_def first_value_def)
  moreover have "readBody (demo_server demo_cfg gen ops) blank_post w = Inr []"
    by (simp add: readBody_def blank_post_def demo_post_def plain_request_def header_get_def first_value_def
        has_prefix_def read_limited_def wrap64_nonneg demo_cfg_def Defaults_def)
  ultimately show ?thesis by (auto simp: handlePost_def)
qed

lemma api_errors_witness:
  "\<exists>rep st'. serve demo_lib (demo_server demo_cfg (NewRandom []) (backend_ops zero_hash id)) demo_env blank_post
     (demo_state demo_sqlite) = (Some rep, st') \<and> rp_status rep = 400 \<and>
     (\<exists>msg. (400, msg) \<in> set (handler_errors RPost) \<and> says blank_post ''error'' msg [CHR 0x0A] rep)"
proof -
  let ?h = "demo_server demo_cfg (NewRandom []) (backend_ops zero_hash id)"
  have route: "mux_route ?h (rq_Method blank_post) (rq_segments blank_post) = Some RPost"
    using demo_route by (simp add: blank_post_def)
  have early: "\<not> preflight ?h blank_post" "lets_pass demo_env blank_post (demo_state demo_sqlite) = (True, sv_limiter (demo_state demo_sqlite))"
    by (simp_all add: preflight_def blank_post_def demo_post_def demo_limiter)
  with route have "reach demo_lib ?h demo_env blank_post (demo_state demo_sqlite) = (Returns,
      writeError blank_post 400 ''Paste body must not be empty.'' (entry ?h blank_post),
      (demo_state demo_sqlite)\<lparr>sv_pattern := ''POST /api/pastes''\<rparr>)"
    by (simp add: reach_def mux_def blank_refused)
  with early obtain rep st' where x: "serve demo_lib ?h demo_env blank_post (demo_state demo_sqlite) = (Some rep, st')"
    and c: "rp_status rep = 400"
    by (simp add: serve_eq answered_def writeError_status)
  from api_errors [OF x _ route] c x show ?thesis by (auto simp: demo_limiter)
qed

end
