(* ===== verification/Flood.thy ===== *)
theory Flood
  imports Post_Facts
begin

text \<open>
  Flood control over whole requests: the limiter's middleware and the byte budget of \<open>handlePost\<close>
  together, for any run of requests through the assembled server. Each request is translated into the
  events it causes at the limiter, and the budgets of \<open>Rate_Limit\<close> carry over.
\<close>

section \<open>What a request does to the limiter\<close>

fun lim_run :: "rateLimiter \<Rightarrow> lim_event list \<Rightarrow> rateLimiter" where
  "lim_run l [] = l"
| "lim_run l (e # es) = lim_run (snd (lim_exec l e)) es"

definition post_events ::
  "('r, 'z) web_lib_scheme \<Rightarrow> 's server \<Rightarrow> call_env \<Rightarrow> http_request \<Rightarrow> lim_event list" where
  "post_events lib h env r = (case post_data lib h r of
      None \<Rightarrow> []
    | Some data \<Rightarrow>
        [Charge (clientIP r (cfg_TrustedProxyCount (h_cfg h))) (int (length data)) (ce_now env)])"

definition request_events ::
  "('r, 'z) web_lib_scheme \<Rightarrow> 's server \<Rightarrow> call_env \<Rightarrow> http_request \<Rightarrow> ('r, 's) server_state \<Rightarrow> lim_event list" where
  "request_events lib h env r st =
     (if preflight h r then []
      else Request (clientIP r (lim_trustedProxies (sv_limiter st))) (ce_now env) #
        (if fst (lets_pass env r st) \<and> mux_route h (rq_Method r) (rq_segments r) = Some RPost
         then post_events lib h env r else []))"

lemma storePaste_limiter: "sv_limiter (snd (snd (storePaste lib h env data r w st))) = sv_limiter st"
  by (simp add: storePaste_def split: option.split prod.split chosen.split)

lemma handlePost_limiter:
  "sv_limiter (snd (snd (handlePost lib h env r w st))) = lim_run (sv_limiter st) (post_events lib h env r)"
proof (cases "readBody h r w")
  case (Inl w')
  then have "\<forall>d. readBody h r new_response \<noteq> Inr d" using readBody_response [of h r w _ new_response] by auto
  then have "post_data lib h r = None" by (auto simp: post_data_def split: sum.split)
  with Inl show ?thesis by (simp add: handlePost_def post_events_def)
next
  case (Inr data)
  then have "readBody h r new_response = Inr data" using readBody_response [of h r w data new_response] by simp
  with Inr show ?thesis
    by (auto simp: handlePost_def post_events_def post_data_def storePaste_limiter split: prod.split bool.split)
qed

lemma lets_pass_exec:
  "lets_pass env r st = lim_exec (sv_limiter st) (Request (clientIP r (lim_trustedProxies (sv_limiter st))) (ce_now env))"
  by (simp add: lets_pass_def)

lemma route_limiter:
  "rt \<noteq> RPost \<Longrightarrow> sv_limiter (snd (snd (serve_route lib h m env rt r w st))) = sv_limiter st"
  using limited.keeps_route unfolding limited.keeps_def by blast

lemma reach_limiter:
  "sv_limiter (snd (snd (reach lib h env r st))) =
     lim_run (snd (lets_pass env r st))
       (if mux_route h (rq_Method r) (rq_segments r) = Some RPost then post_events lib h env r else [])"
  by (auto simp: reach_def mux_def handlePost_limiter route_limiter split: option.split)

lemma serve_limiter:
  "sv_limiter (snd (serve lib h env r st)) = lim_run (sv_limiter st) (request_events lib h env r st)"
proof -
  have "sv_limiter (snd (serve lib h env r st)) = sv_limiter (snd (snd (reach lib h env r st)))"
    if "\<not> preflight h r" "fst (lets_pass env r st)"
    using that by (simp add: serve_eq answered_def split: prod.split outcome.split)
  then show ?thesis
    by (cases "preflight h r"; cases "fst (lets_pass env r st)")
      (simp_all add: serve_eq answered_def request_events_def reach_limiter lets_pass_exec)
qed

text \<open>The events a run of requests causes, one after the other.\<close>

fun run_events ::
  "('r, 'z) web_lib_scheme \<Rightarrow> 's server \<Rightarrow> (call_env \<times> http_request) list \<Rightarrow> ('r, 's) server_state \<Rightarrow> lim_event list" where
  "run_events lib h [] st = []"
| "run_events lib h ((env, r) # rs) st =
     request_events lib h env r st @ run_events lib h rs (snd (serve lib h env r st))"

lemma run_config: "same_config l (lim_run l es)"
proof (induction es arbitrary: l)
  case (Cons e es)
  show ?case using same_config_trans [OF lim_exec_config Cons.IH] by simp
qed simp

lemma requests_append:
  "requests.admitted l c P (es @ es') = requests.admitted l c P es + requests.admitted (lim_run l es) c P es'"
  by (induction es arbitrary: l) (simp_all split: prod.split)

lemma bytes_append:
  "bytes.admitted l c P (es @ es') = bytes.admitted l c P es + bytes.admitted (lim_run l es) c P es'"
  by (induction es arbitrary: l) (simp_all split: prod.split)

lemma request_events_sorted: "sorted (map ev_time (request_events lib h env r st))"
  by (auto simp: request_events_def post_events_def split: option.split)

lemma request_events_time: "e \<in> set (request_events lib h env r st) \<Longrightarrow> ev_time e = ce_now env"
  by (auto simp: request_events_def post_events_def split: if_splits option.splits)

lemma run_events_sorted:
  assumes "sorted (map (\<lambda>(env, r). ce_now env) rs)"
  shows "sorted (map ev_time (run_events lib h rs st)) \<and>
    ev_time ` set (run_events lib h rs st) \<subseteq> (\<lambda>(env, r). ce_now env) ` set rs"
  using assms
proof (induction rs arbitrary: st)
  case (Cons x rs)
  obtain env r where x: "x = (env, r)" by fastforce
  let ?es = "request_events lib h env r st"
  have "sorted (map ev_time ?es)" by (rule request_events_sorted)
  moreover have "sorted (map ev_time (run_events lib h rs (snd (serve lib h env r st))))"
    and "ev_time ` set (run_events lib h rs (snd (serve lib h env r st))) \<subseteq> (\<lambda>(env, r). ce_now env) ` set rs"
    using Cons.IH [of "snd (serve lib h env r st)"] Cons.prems by auto
  ultimately show ?case using Cons.prems x by (fastforce simp: sorted_append dest: request_events_time)
qed simp

text \<open>The pastes of the run are of a size a 64-bit counter can add up.\<close>

definition sizes_fit :: "('r, 'z) web_lib_scheme \<Rightarrow> 's server \<Rightarrow> (call_env \<times> http_request) list \<Rightarrow> bool" where
  "sizes_fit lib h rs \<longleftrightarrow> (\<forall>(env, r) \<in> set rs. \<forall>d. post_data lib h r = Some d \<longrightarrow> int (length d) < 2 ^ 62)"

lemma run_events_fit: "sizes_fit lib h rs \<Longrightarrow> \<forall>e \<in> set (run_events lib h rs st). ev_fits e"
proof (induction rs arbitrary: st)
  case (Cons x rs)
  then show ?case
    by (cases x) (auto simp: sizes_fit_def request_events_def post_events_def ev_fits_def split: if_splits option.splits)
qed simp

section \<open>What the client sees of it\<close>

text \<open>
  A request counts as let through when it is answered with anything but \<open>429\<close>, or not at all. The
  bytes stored for a request are those of the paste it was acknowledged for.
\<close>

definition let_through ::
  "('r, 'z) web_lib_scheme \<Rightarrow> 's server \<Rightarrow> call_env \<Rightarrow> http_request \<Rightarrow> ('r, 's) server_state \<Rightarrow> bool" where
  "let_through lib h env r st \<longleftrightarrow> \<not> preflight h r \<and>
     (case fst (serve lib h env r st) of None \<Rightarrow> True | Some rep \<Rightarrow> rp_status rep \<noteq> 429)"

definition stored_bytes ::
  "('r, 'z) web_lib_scheme \<Rightarrow> 's server \<Rightarrow> call_env \<Rightarrow> http_request \<Rightarrow> ('r, 's) server_state \<Rightarrow> int" where
  "stored_bytes lib h env r st =
     (case (fst (serve lib h env r st), post_data lib h r) of
        (Some rep, Some data) \<Rightarrow>
          if mux_route h (rq_Method r) (rq_segments r) = Some RPost \<and> rp_status rep = 201 then int (length data) else 0
      | _ \<Rightarrow> 0)"

text \<open>The sum over the requests a client makes at times in \<open>P\<close>.\<close>

fun client_sum ::
  "(call_env \<Rightarrow> http_request \<Rightarrow> ('r, 's) server_state \<Rightarrow> int) \<Rightarrow> ('r, 'z) web_lib_scheme \<Rightarrow> 's server \<Rightarrow> string \<Rightarrow>
   (int \<Rightarrow> bool) \<Rightarrow> (call_env \<times> http_request) list \<Rightarrow> ('r, 's) server_state \<Rightarrow> int" where
  "client_sum f lib h c P [] st = 0"
| "client_sum f lib h c P ((env, r) # rs) st =
     (if clientIP r (cfg_TrustedProxyCount (h_cfg h)) = c \<and> P (ce_now env) then f env r st else 0) +
     client_sum f lib h c P rs (snd (serve lib h env r st))"

lemma refused_early: "\<not> preflight h r \<Longrightarrow> \<not> fst (lets_pass env r st) \<Longrightarrow>
    \<exists>rep. fst (serve lib h env r st) = Some rep \<and> rp_status rep = 429"
  by (simp add: serve_eq answered_def too_many_def finish_sent)

lemma let_through_passes: "let_through lib h env r st \<Longrightarrow> fst (lets_pass env r st)"
  using refused_early [of h r env st lib] by (force simp: let_through_def)

lemma acknowledged_charged:
  assumes "fst (serve lib h env r st) = Some rep" and "rp_status rep = 201"
    and route: "mux_route h (rq_Method r) (rq_segments r) = Some RPost" and data: "post_data lib h r = Some data"
  shows "fst (lets_pass env r st)"
    and "fst (chargeBytes (snd (lets_pass env r st)) (clientIP r (cfg_TrustedProxyCount (h_cfg h)))
      (int (length data)) (ce_now env))"
proof -
  have flight: "\<not> preflight h r" using route_method(3) [OF route] by (intro get_not_preflight) auto
  then show pass: "fst (lets_pass env r st)" using assms(1,2) refused_early [of h r env st lib] by auto
  show "fst (chargeBytes (snd (lets_pass env r st)) (clientIP r (cfg_TrustedProxyCount (h_cfg h)))
      (int (length data)) (ce_now env))"
    using entry_unsent [of h r]
  proof (rule handlePost_cases [where lib = lib and h = h and env = env and r = r and
        st = "(begun lib r st)\<lparr>sv_limiter := snd (lets_pass env r st), sv_pattern := ''POST /api/pastes''\<rparr>"], goal_cases)
    case (1 code w' l)
    then have "serve lib h env r st = answered lib h r w' ((begun lib r st)\<lparr>sv_pattern := ''POST /api/pastes'', sv_limiter := l\<rparr>)"
      using answered_refusal [OF route pass, of lib w'] by simp
    with 1 assms(1,2) show ?case by (auto simp: answered_def)
  qed (use data in simp)
qed

lemma requests_step:
  assumes "lim_trustedProxies (sv_limiter st) = cfg_TrustedProxyCount (h_cfg h)"
  shows "(if clientIP r (cfg_TrustedProxyCount (h_cfg h)) = c \<and> P (ce_now env)
      then if let_through lib h env r st then 1 else 0 else 0)
    \<le> requests.admitted (sv_limiter st) c P (request_events lib h env r st)"
proof (cases "preflight h r")
  case False
  have "requests.admitted l c P (post_events lib h env r) = 0" for l
    by (simp add: post_events_def split: option.split prod.split)
  with False assms let_through_passes [of lib h env r st] show ?thesis
    by (auto simp: request_events_def lets_pass_exec split: prod.split)
qed (simp add: request_events_def let_through_def)

lemma bytes_step:
  assumes "lim_trustedProxies (sv_limiter st) = cfg_TrustedProxyCount (h_cfg h)"
  shows "(if clientIP r (cfg_TrustedProxyCount (h_cfg h)) = c \<and> P (ce_now env) then stored_bytes lib h env r st else 0)
    \<le> bytes.admitted (sv_limiter st) c P (request_events lib h env r st)"
proof -
  have nonneg: "0 \<le> bytes.admitted (sv_limiter st) c P (request_events lib h env r st)"
    by (simp add: request_events_def post_events_def split: option.split prod.split)
  show ?thesis
  proof (cases "stored_bytes lib h env r st = 0")
    case False
    then obtain rep data where ack: "fst (serve lib h env r st) = Some rep" "rp_status rep = 201"
        "mux_route h (rq_Method r) (rq_segments r) = Some RPost" "post_data lib h r = Some data"
      and n: "stored_bytes lib h env r st = int (length data)"
      by (auto simp: stored_bytes_def split: option.splits if_splits)
    have "\<not> preflight h r" using route_method(3) [OF ack(3)] by (intro get_not_preflight) auto
    with acknowledged_charged [OF ack] ack(3,4) assms n show ?thesis
      by (auto simp: request_events_def post_events_def lets_pass_exec split: prod.split)
  qed (use nonneg in simp)
qed

lemma serve_proxies: "lim_trustedProxies (sv_limiter (snd (serve lib h env r st))) = lim_trustedProxies (sv_limiter st)"
  using run_config [of "sv_limiter st" "request_events lib h env r st"] by (simp add: serve_limiter same_config_def)

lemma run_sums:
  assumes "lim_trustedProxies (sv_limiter st) = cfg_TrustedProxyCount (h_cfg h)"
  shows "client_sum (\<lambda>env r st. if let_through lib h env r st then 1 else 0) lib h c P rs st
      \<le> requests.admitted (sv_limiter st) c P (run_events lib h rs st)"
    and "client_sum (stored_bytes lib h) lib h c P rs st
      \<le> bytes.admitted (sv_limiter st) c P (run_events lib h rs st)"
  using assms
proof (induction rs arbitrary: st)
  case (Cons x rs)
  obtain env r where x: "x = (env, r)" by fastforce
  {
    case 1
    then show ?case
      unfolding x client_sum.simps run_events.simps requests_append serve_limiter [symmetric]
      by (intro add_mono requests_step Cons.IH(1)) (simp_all add: serve_proxies)
  next
    case 2
    then show ?case
      unfolding x client_sum.simps run_events.simps bytes_append serve_limiter [symmetric]
      by (intro add_mono bytes_step Cons.IH(2)) (simp_all add: serve_proxies)
  }
qed simp_all

section \<open>The budget of a client\<close>

text \<open>
  The server \<open>New\<close> makes is in such a state, when its budgets are 64-bit numbers and its window is
  not zero; and with a positive \<open>maxLength\<close> below \<open>2 ^ 62\<close> every run is of a size that fits.
\<close>

lemma New_limits:
  assumes "handler_New template idx embedded overlay cfg ops gen m keys assets s rng = Some (h, st)"
    and "in_int64 (rl_TotalRequests (cfg_RateLimit cfg))" and "in_int64 (rl_MaxBytes (cfg_RateLimit cfg))"
    and "rl_MaxBytes (cfg_RateLimit cfg) < 2 ^ 62" and "0 < wrap64 (rl_Every (cfg_RateLimit cfg) * 1000000)"
  shows "limits_ok (sv_limiter st) \<and> lim_trustedProxies (sv_limiter st) = cfg_TrustedProxyCount (h_cfg h)"
proof -
  have "sv_limiter st = newRateLimiter (cfg_RateLimit cfg) (cfg_TrustedProxyCount cfg)" and "h_cfg h = cfg"
    using assms(1) by (auto simp: handler_New_def Let_def split: bind_splits)
  with limiter_ok_new [OF assms(2,3)] assms(4,5) show ?thesis by (simp add: limits_ok_def newRateLimiter_def)
qed

lemma max_length_fits: "0 < cfg_MaxLength (h_cfg h) \<Longrightarrow> cfg_MaxLength (h_cfg h) < 2 ^ 62 \<Longrightarrow> sizes_fit lib h rs"
  by (auto simp: sizes_fit_def post_data_def split: if_splits sum.splits)

text \<open>
  C9. Flood control: in any run of requests, at times that do not go back, and in any interval as
  long as one window of the limiter, a client address gets at most twice the configured number of
  requests answered with anything but \<open>429\<close>, and at most twice the configured number of bytes stored in
  acknowledged pastes, whatever the other clients send and however the handlers answer. Not counted
  are CORS preflights of an allowed origin: they are answered before the limiter, without a bound, and
  reach no handler. The window is positive, and the budgets and the pastes are below \<open>2 ^ 62\<close>, where
  64-bit counters do not overflow.
\<close>

theorem flood_control:
  assumes "limits_ok (sv_limiter st)" and "lim_trustedProxies (sv_limiter st) = cfg_TrustedProxyCount (h_cfg h)"
    and "sizes_fit lib h rs" and "sorted (map (\<lambda>(env, r). ce_now env) rs)"
  shows "(0 < lim_max (sv_limiter st) \<longrightarrow>
      client_sum (\<lambda>env r st. if let_through lib h env r st then 1 else 0) lib h c
        (\<lambda>t. a \<le> t \<and> t \<le> a + lim_window (sv_limiter st)) rs st \<le> 2 * lim_max (sv_limiter st)) \<and>
    (0 < lim_maxBytes (sv_limiter st) \<longrightarrow>
      client_sum (stored_bytes lib h) lib h c
        (\<lambda>t. a \<le> t \<and> t \<le> a + lim_window (sv_limiter st)) rs st \<le> 2 * lim_maxBytes (sv_limiter st))"
proof -
  note fit = run_events_fit [OF assms(3), of st]
  from run_events_sorted [OF assms(4)] have times: "sorted (map ev_time (run_events lib h rs st))" by blast
  show ?thesis
    using client_budget [OF assms(1) fit times, of c a] run_sums [OF assms(2), where rs = rs]
    unfolding admitted_requests_eq admitted_bytes_eq by (blast intro: order_trans)
qed

lemma flood_control_witness:
  "client_sum (\<lambda>env r st. if let_through demo_lib demo_web env r st then 1 else 0) demo_lib demo_web (clientIP demo_post 0)
     (\<lambda>t. 0 \<le> t \<and> t \<le> 0 + lim_window two_per_second) (replicate 7 (demo_env, demo_post))
     (demo_state demo_sqlite\<lparr>sv_limiter := two_per_second\<rparr>) \<le> 4 \<and>
   client_sum (stored_bytes demo_lib demo_web) demo_lib demo_web (clientIP demo_post 0)
     (\<lambda>t. 0 \<le> t \<and> t \<le> 0 + lim_window two_per_second) (replicate 7 (demo_env, demo_post))
     (demo_state demo_sqlite\<lparr>sv_limiter := two_per_second\<rparr>) \<le> 20"
proof -
  have "sizes_fit demo_lib demo_web (replicate 7 (demo_env, demo_post))"
    by (simp add: sizes_fit_def demo_web_def demo_post_data)
  moreover have "lim_trustedProxies two_per_second = cfg_TrustedProxyCount (h_cfg demo_web)"
    by (simp add: two_per_second_def newRateLimiter_def demo_web_def demo_cfg_def Defaults_def)
  ultimately show ?thesis
    using flood_control [of "demo_state demo_sqlite\<lparr>sv_limiter := two_per_second\<rparr>" demo_web demo_lib
        "replicate 7 (demo_env, demo_post)" "clientIP demo_post 0" 0]
    by (simp add: two_per_second_ok two_per_second_simps)
qed

end
